(* ===== verification/Prelude.thy ===== *)
theory Prelude
  imports Main "HOL-Library.Char_ord" "HOL-Library.List_Lexorder"
begin

text \<open>
  The part of the C and C++ runtime that the sources use, shared by every component:
  the faults a run can end in, machine integers with their wrap-around written out,
  C strings, results and loops.

  Conventions. Bytes are \<^typ>\<open>char\<close>s, a \<open>std::string\<close> is a list of them and
  may hold NUL. A signed integer (\<open>int\<close>, \<open>long\<close>, \<open>off_t\<close>) is an \<^typ>\<open>int\<close>
  in its range, an unsigned one likewise; every conversion that can change the value
  is written with \<open>s32\<close>, \<open>s64\<close>, \<open>u32\<close> or \<open>u64\<close>. The platform is LP64.
\<close>

section \<open>Collections of facts\<close>

named_theorems wrap_simps \<open>conversions that leave a value in range unchanged\<close>
named_theorems smap_simps \<open>lookups in an updated ordered map\<close>
named_theorems str_simps \<open>C string views of buffers\<close>

section \<open>Faults and results\<close>

text \<open>
  A run that does not return a value ends in a fault: a loop that never ends, a
  dereferenced null pointer, an access outside an allocated block, a failed
  \<open>assert\<close>, or a call to \<open>exit\<close>.
\<close>

datatype fault = Hang | Null_deref | Out_of_bounds | Assert_failed | Exit_failure

type_synonym 'a res = "fault + 'a"

definition bindR :: "'a res \<Rightarrow> ('a \<Rightarrow> 'b res) \<Rightarrow> 'b res" where
  "bindR m f = (case m of Inl e \<Rightarrow> Inl e | Inr x \<Rightarrow> f x)"

lemma bindR_simps [simp]:
  "bindR (Inl e) f = Inl e"
  "bindR (Inr x) f = f x"
  by (simp_all add: bindR_def)

lemma bindR_InrE:
  assumes "bindR m f = Inr y"
  obtains x where "m = Inr x" and "f x = Inr y"
  using assms by (auto simp: bindR_def split: sum.splits)

lemma res_InrD: "(case r of Inl _ \<Rightarrow> False | Inr x \<Rightarrow> P x) \<Longrightarrow> \<exists>x. r = Inr x \<and> P x"
  by (cases r) auto

text \<open>The value of a loop defined in the option monad: no value means it never ends.\<close>

definition returns :: "'a res option \<Rightarrow> 'a res" where
  "returns r = (case r of None \<Rightarrow> Inl Hang | Some x \<Rightarrow> x)"

lemma returns_simps [simp]:
  "returns None = Inl Hang"
  "returns (Some x) = x"
  by (simp_all add: returns_def)

section \<open>Loops\<close>

text \<open>
  A loop over a state: \<open>step\<close> is its body, answering whether to go round again. No value means
  that the loop never ends.
\<close>

partial_function (option) loop :: "('s \<Rightarrow> (bool \<times> 's) res) \<Rightarrow> 's \<Rightarrow> 's res option" where
  "loop step s =
     (case step s of
        Inl e \<Rightarrow> Some (Inl e)
      | Inr (again, s') \<Rightarrow> if again then loop step s' else Some (Inr s'))"

declare loop.simps [code]

lemma loop_fault: "step s = Inl e \<Longrightarrow> loop step s = Some (Inl e)"
  by (subst loop.simps) simp

lemma loop_again: "step s = Inr (True, s') \<Longrightarrow> loop step s = loop step s'"
  by (subst loop.simps) simp

lemma loop_done: "step s = Inr (False, s') \<Longrightarrow> loop step s = Some (Inr s')"
  by (subst loop.simps) simp

lemma loop_terminates:
  fixes m :: "'s \<Rightarrow> nat"
  assumes "I s"
    and body: "\<And>s. I s \<Longrightarrow> \<exists>again s'. step s = Inr (again, s') \<and> R s s' \<and>
      (if again then I s' \<and> m s' < m s else Q s')"
    and trans: "\<And>a b c. R a b \<Longrightarrow> R b c \<Longrightarrow> R a c"
  shows "\<exists>s'. loop step s = Some (Inr s') \<and> Q s' \<and> R s s'"
  using assms(1)
proof (induction "m s" arbitrary: s rule: less_induct)
  case less
  obtain again s1 where s1: "step s = Inr (again, s1)" "R s s1"
    and next_state: "if again then I s1 \<and> m s1 < m s else Q s1"
    using body [OF less.prems] by blast
  show ?case
  proof (cases again)
    case True
    then obtain s' where "loop step s1 = Some (Inr s')" "Q s'" "R s1 s'"
      using less.hyps [of s1] next_state by auto
    then show ?thesis using True s1 trans by (auto simp: loop_again)
  next
    case False
    then show ?thesis using s1 next_state by (auto simp: loop_done)
  qed
qed

text \<open>Partial correctness: what every completed run of the loop satisfies.\<close>

lemma loop_invariant:
  assumes "loop step s = Some r" and "I s"
    and body: "\<And>s x. I s \<Longrightarrow> step s = x \<Longrightarrow>
      (case x of Inl e \<Rightarrow> Q (Inl e) | Inr (again, s') \<Rightarrow> if again then I s' else Q (Inr s'))"
  shows "Q r"
proof -
  let ?P = "\<lambda>st s r. st = step \<longrightarrow> I s \<longrightarrow> Q r"
  have "?P step s r"
  proof (rule loop.raw_induct [of ?P, OF _ assms(1)])
    fix lp :: "('a \<Rightarrow> (bool \<times> 'a) res) \<Rightarrow> 'a \<Rightarrow> 'a res option" and st s r
    assume IH: "\<And>st s r. lp st s = Some r \<Longrightarrow> ?P st s r"
      and run: "(case st s of Inl e \<Rightarrow> Some (Inl e)
          | Inr (again, s') \<Rightarrow> if again then lp st s' else Some (Inr s')) = Some r"
    show "?P st s r"
    proof (intro impI)
      assume st: "st = step" and "I s"
      show "Q r"
        using body [OF \<open>I s\<close> refl] run IH by (cases "step s") (auto simp: st split: if_splits)
    qed
  qed
  then show ?thesis using assms(1,2) by blast
qed

lemma loop_keeps:
  assumes "loop step s = Some (Inr s')" and "I s"
    and "\<And>a b c. I a \<Longrightarrow> step a = Inr (b, c) \<Longrightarrow> I c"
  shows "I s'"
proof -
  have "case Inr s' :: 'a res of Inl e \<Rightarrow> True | Inr c \<Rightarrow> I c"
    by (rule loop_invariant [OF assms(1), of I]) (use assms(2,3) in \<open>auto split: sum.split\<close>)
  then show ?thesis by simp
qed

lemma loop_hangs:
  assumes "I s" and body: "\<And>s. I s \<Longrightarrow> \<exists>s'. step s = Inr (True, s') \<and> I s'"
  shows "loop step s = None"
proof (cases "loop step s")
  case (Some r)
  have "False"
    by (rule loop_invariant [of step s r I "\<lambda>_. False"]) (use Some assms(1) body in fastforce)+
  then show ?thesis ..
qed

section \<open>Loops over a container\<close>

text \<open>A loop that calls a function for every element and stops at the first fault.\<close>

primrec each :: "('a \<Rightarrow> 's \<Rightarrow> 's res) \<Rightarrow> 'a list \<Rightarrow> 's \<Rightarrow> 's res" where
  "each f [] s = Inr s"
| "each f (x # xs) s = bindR (f x s) (each f xs)"

lemma each_append: "each f (xs @ ys) s = bindR (each f xs s) (each f ys)"
  by (induction xs arbitrary: s) (auto simp: bindR_def split: sum.splits)

lemma each_invariant:
  assumes "each f xs s = Inr s'" and "I s"
    and "\<And>x s s'. x \<in> set xs \<Longrightarrow> I s \<Longrightarrow> f x s = Inr s' \<Longrightarrow> I s'"
  shows "I s'"
  using assms by (induction xs arbitrary: s) (auto elim!: bindR_InrE)

lemma each_total:
  assumes "I s" and "\<And>x s. x \<in> set xs \<Longrightarrow> I s \<Longrightarrow> \<exists>s'. f x s = Inr s' \<and> I s'"
  shows "\<exists>s'. each f xs s = Inr s' \<and> I s'"
  using assms
proof (induction xs arbitrary: s)
  case (Cons x xs)
  obtain s1 where "f x s = Inr s1" "I s1" using Cons.prems by auto
  then show ?case using Cons.IH [of s1] Cons.prems(2) by auto
qed simp

section \<open>Machine integers\<close>

definition u32 :: "int \<Rightarrow> int" where "u32 x = x mod 2 ^ 32"
definition u64 :: "int \<Rightarrow> int" where "u64 x = x mod 2 ^ 64"
definition s32 :: "int \<Rightarrow> int" where "s32 x = (x + 2 ^ 31) mod 2 ^ 32 - 2 ^ 31"
definition s64 :: "int \<Rightarrow> int" where "s64 x = (x + 2 ^ 63) mod 2 ^ 64 - 2 ^ 63"

abbreviation LONG_MAX :: int where "LONG_MAX \<equiv> 9223372036854775807"
abbreviation LONG_MIN :: int where "LONG_MIN \<equiv> - 9223372036854775808"

lemma u32_range: "0 \<le> u32 x \<and> u32 x < 2 ^ 32"
  by (simp add: u32_def)

lemma u64_range: "0 \<le> u64 x \<and> u64 x < 2 ^ 64"
  by (simp add: u64_def)

lemma s32_range: "- (2 ^ 31) \<le> s32 x \<and> s32 x < 2 ^ 31"
proof -
  have "0 \<le> (x + 2 ^ 31) mod 2 ^ 32" "(x + 2 ^ 31) mod 2 ^ 32 < (2 ^ 32 :: int)"
    by simp_all
  then show ?thesis by (simp add: s32_def)
qed

lemma u32_id [wrap_simps]: "0 \<le> x \<Longrightarrow> x < 2 ^ 32 \<Longrightarrow> u32 x = x"
  by (simp add: u32_def)

lemma u64_id [wrap_simps]: "0 \<le> x \<Longrightarrow> x < 2 ^ 64 \<Longrightarrow> u64 x = x"
  by (simp add: u64_def)

lemma s32_id [wrap_simps]: "- (2 ^ 31) \<le> x \<Longrightarrow> x < 2 ^ 31 \<Longrightarrow> s32 x = x"
  by (simp add: s32_def)

lemma s64_id [wrap_simps]: "- (2 ^ 63) \<le> x \<Longrightarrow> x < 2 ^ 63 \<Longrightarrow> s64 x = x"
  by (simp add: s64_def)

lemma u32_u64 [simp]: "u32 (u64 x) = u32 x"
proof -
  have "(2 ^ 32 :: int) dvd 2 ^ 64" by (rule le_imp_power_dvd) simp
  then show ?thesis by (simp only: u32_def u64_def mod_mod_cancel)
qed

section \<open>C strings\<close>

abbreviation NUL :: char where "NUL \<equiv> CHR 0x00"

text \<open>The C string at the start of a block: the bytes before the first NUL.\<close>

definition cstr :: "char list \<Rightarrow> string" where
  "cstr b = takeWhile (\<lambda>c. c \<noteq> NUL) b"

lemma takeWhile_neq:
  "c \<notin> set s \<Longrightarrow> takeWhile (\<lambda>x. x \<noteq> c) (s @ c # r) = s"
  "c \<notin> set s \<Longrightarrow> takeWhile (\<lambda>x. x \<noteq> c) s = s"
  by (induction s) auto

lemma dropWhile_neq:
  "c \<notin> set s \<Longrightarrow> dropWhile (\<lambda>x. x \<noteq> c) (s @ c # r) = c # r"
  "c \<notin> set s \<Longrightarrow> dropWhile (\<lambda>x. x \<noteq> c) s = []"
  by (induction s) auto

lemma cstr_append_NUL [str_simps]: "NUL \<notin> set s \<Longrightarrow> cstr (s @ NUL # r) = s"
  by (simp add: cstr_def takeWhile_neq)

lemma cstr_id [str_simps]: "NUL \<notin> set s \<Longrightarrow> cstr s = s"
  by (simp add: cstr_def takeWhile_neq)

lemma cstr_no_NUL [simp]: "NUL \<notin> set (cstr b)"
  by (auto simp: cstr_def dest: set_takeWhileD)

definition isspace :: "char \<Rightarrow> bool" where
  "isspace c \<longleftrightarrow> c \<in> {CHR '' '', CHR 0x09, CHR 0x0A, CHR 0x0B, CHR 0x0C, CHR 0x0D}"

lemma not_isspace_NUL [simp]: "\<not> isspace NUL"
  by (simp add: isspace_def)

definition isdigit :: "char \<Rightarrow> bool" where
  "isdigit c \<longleftrightarrow> CHR ''0'' \<le> c \<and> c \<le> CHR ''9''"

definition isupper :: "char \<Rightarrow> bool" where
  "isupper c \<longleftrightarrow> CHR ''A'' \<le> c \<and> c \<le> CHR ''Z''"

definition islower :: "char \<Rightarrow> bool" where
  "islower c \<longleftrightarrow> CHR ''a'' \<le> c \<and> c \<le> CHR ''z''"

definition tolower :: "char \<Rightarrow> char" where
  "tolower c = (if isupper c then char_of (of_char c + 32 :: nat) else c)"

end
