(* ===== verification/Containers.thy ===== *)
theory Containers
  imports Prelude
begin

text \<open>
  The ordered containers of the C++ standard library as the sources use them. A
  \<open>std::map\<close> is an association list in increasing key order, so that iterating it is
  traversing the list; a \<open>std::set\<close> is an increasing list; a \<open>std::vector\<close> is a list.
  The contract the components rely on is the locale \<open>std_map\<close>, and the model's map
  is its interpretation \<open>sm\<close>.
\<close>

section \<open>Maps in key order\<close>

type_synonym ('k, 'v) smap = "('k \<times> 'v) list"

definition smap_find :: "('k, 'v) smap \<Rightarrow> 'k \<Rightarrow> 'v option" where
  "smap_find m k = map_of m k"

fun smap_put :: "'k::linorder \<Rightarrow> 'v \<Rightarrow> ('k, 'v) smap \<Rightarrow> ('k, 'v) smap" where
  "smap_put k v [] = [(k, v)]"
| "smap_put k v ((a, b) # m) =
     (if a < k then (a, b) # smap_put k v m
      else if a = k then (k, v) # m
      else (k, v) # (a, b) # m)"

definition smap_erase :: "'k \<Rightarrow> ('k, 'v) smap \<Rightarrow> ('k, 'v) smap" where
  "smap_erase k m = filter (\<lambda>p. fst p \<noteq> k) m"

definition smap_keys :: "('k, 'v) smap \<Rightarrow> 'k list" where
  "smap_keys m = map fst m"

definition smap_ok :: "('k::linorder, 'v) smap \<Rightarrow> bool" where
  "smap_ok m \<longleftrightarrow> sorted_wrt (<) (map fst m)"

section \<open>The contract\<close>

locale std_map =
  fixes find :: "'m \<Rightarrow> 'k::linorder \<Rightarrow> 'v option"
    and put :: "'k \<Rightarrow> 'v \<Rightarrow> 'm \<Rightarrow> 'm"
    and erase :: "'k \<Rightarrow> 'm \<Rightarrow> 'm"
    and keys :: "'m \<Rightarrow> 'k list"
    and ok :: "'m \<Rightarrow> bool"
  assumes find_put: "find (put k v m) j = (if j = k then Some v else find m j)"
    and find_erase: "find (erase k m) j = (if j = k then None else find m j)"
    and ok_put: "ok m \<Longrightarrow> ok (put k v m)"
    and ok_erase: "ok m \<Longrightarrow> ok (erase k m)"
    and set_keys: "set (keys m) = {k. find m k \<noteq> None}"
    and keys_sorted: "ok m \<Longrightarrow> sorted_wrt (<) (keys m)"
begin

lemma find_put_same: "find (put k v m) k = Some v"
  by (simp add: find_put)

lemma find_put_other: "j \<noteq> k \<Longrightarrow> find (put k v m) j = find m j"
  by (simp add: find_put)

lemma set_keys_put: "set (keys (put k v m)) = insert k (set (keys m))"
  by (auto simp: set_keys find_put)

lemma set_keys_erase: "set (keys (erase k m)) = set (keys m) - {k}"
  by (auto simp: set_keys find_erase)

lemma find_erase_all:
  "find (fold erase ks m) j = (if j \<in> set ks then None else find m j)"
  by (induction ks arbitrary: m) (auto simp: find_erase)

lemma find_put_all:
  "find (fold (\<lambda>k. put k (f k)) ks m) j = (if j \<in> set ks then Some (f j) else find m j)"
  by (induction ks arbitrary: m) (auto simp: find_put)

lemma ok_erase_all: "ok m \<Longrightarrow> ok (fold erase ks m)"
  by (induction ks arbitrary: m) (auto simp: ok_erase)

lemma ok_put_all: "ok m \<Longrightarrow> ok (fold (\<lambda>k. put k (f k)) ks m)"
  by (induction ks arbitrary: m) (auto simp: ok_put)

end

lemma smap_put_keys: "fst ` set (smap_put k v m) = insert k (fst ` set m)"
  by (induction k v m rule: smap_put.induct) (simp_all add: insert_commute)

lemma smap_put_sorted:
  "sorted_wrt (<) (map fst m) \<Longrightarrow> sorted_wrt (<) (map fst (smap_put k v m))"
proof (induction m)
  case (Cons p m)
  obtain a b where p: "p = (a, b)" by (cases p)
  have "a < fst x" if "a < k" "\<forall>x \<in> set m. a < fst x" "x \<in> set (smap_put k v m)" for x
  proof -
    have "fst x \<in> fst ` set (smap_put k v m)" using that(3) by (rule imageI)
    with that(1,2) show ?thesis by (auto simp: smap_put_keys)
  qed
  with Cons show ?case by (auto simp: p intro: less_trans)
qed simp

lemma smap_put_put: "smap_put k v (smap_put k v' m) = smap_put k v m"
  by (induction m) auto

interpretation sm: std_map smap_find smap_put smap_erase smap_keys smap_ok
proof
  show "smap_find (smap_put k v m) j = (if j = k then Some v else smap_find m j)"
    for k :: "'k::linorder" and v :: 'v and m j
    by (induction m) (auto simp: smap_find_def)
  show "smap_find (smap_erase k m) j = (if j = k then None else smap_find m j)"
    for k :: "'k::linorder" and m :: "('k, 'v) smap" and j
    by (induction m) (auto simp: smap_find_def smap_erase_def)
  show "smap_ok (smap_put k v m)" if "smap_ok m"
    for k :: "'k::linorder" and v :: 'v and m
    using that by (simp add: smap_ok_def smap_put_sorted)
  show "smap_ok (smap_erase k m)" if "smap_ok m"
    for k :: "'k::linorder" and m :: "('k, 'v) smap"
    using that by (simp add: smap_ok_def smap_erase_def sorted_wrt_map sorted_wrt_filter)
  show "set (smap_keys m) = {k. smap_find m k \<noteq> None}"
    for m :: "('k::linorder, 'v) smap"
    by (auto simp: smap_keys_def smap_find_def map_of_eq_None_iff)
  show "sorted_wrt (<) (smap_keys m)" if "smap_ok m"
    for m :: "('k::linorder, 'v) smap"
    using that by (simp add: smap_keys_def smap_ok_def)
qed

lemmas smap_find_simps [smap_simps] =
  sm.find_put sm.find_erase sm.set_keys_put sm.set_keys_erase

lemma smap_ok_Nil [simp]: "smap_ok []"
  by (simp add: smap_ok_def)

lemma smap_find_Nil [simp]: "smap_find [] k = None"
  by (simp add: smap_find_def)

lemma smap_find_mem: "smap_find m k = Some v \<Longrightarrow> (k, v) \<in> set m"
  by (auto simp: smap_find_def dest: map_of_SomeD)

lemma smap_mem_find: "smap_ok m \<Longrightarrow> (k, v) \<in> set m \<Longrightarrow> smap_find m k = Some v"
  unfolding smap_find_def smap_ok_def
  by (rule map_of_is_SomeI) (auto simp: strict_sorted_iff)

section \<open>Sets in increasing order\<close>

type_synonym 'a sset = "'a list"

abbreviation sset_ok :: "'a::linorder list \<Rightarrow> bool" where
  "sset_ok s \<equiv> sorted_wrt (<) s"

fun sset_insert :: "'a::linorder \<Rightarrow> 'a sset \<Rightarrow> 'a sset" where
  "sset_insert x [] = [x]"
| "sset_insert x (y # s) =
     (if y < x then y # sset_insert x s else if y = x then y # s else x # y # s)"

lemma set_sset_insert [simp]: "set (sset_insert x s) = insert x (set s)"
  by (induction s) auto

lemma sset_ok_insert [intro]: "sset_ok s \<Longrightarrow> sset_ok (sset_insert x s)"
  by (induction s) (auto intro: less_trans)

text \<open>Copying a range into a set through an insert iterator.\<close>

definition sset_collect :: "'a::linorder list \<Rightarrow> 'a sset" where
  "sset_collect xs = fold sset_insert xs []"

lemma fold_sset_insert:
  "set (fold sset_insert xs s) = set xs \<union> set s"
  "sset_ok s \<Longrightarrow> sset_ok (fold sset_insert xs s)"
  by (induction xs arbitrary: s) auto

lemma set_sset_collect [simp]: "set (sset_collect xs) = set xs"
  by (simp add: sset_collect_def fold_sset_insert)

lemma sset_ok_collect [simp]: "sset_ok (sset_collect xs)"
  by (simp add: sset_collect_def fold_sset_insert)

lemma sset_eqI:
  assumes "sset_ok s" and "sset_ok t" and "set s = set t"
  shows "s = t"
  using assms by (auto simp: strict_sorted_iff intro: sorted_distinct_set_unique)

end
