(* ===== verification/Osmodel.thy ===== *)
theory Osmodel
  imports Containers
begin

text \<open>
  What the sources ask of the operating system and of \<open>stdio\<close>: path lookup
  (\<open>stat\<close>, \<open>fopen\<close>, \<open>access\<close>), reading through an open stream
  (\<open>fread\<close>, \<open>fseek\<close>, \<open>ftell\<close>), and the clock (\<open>gettimeofday\<close>).

  Other processes write, rotate and remove log files at any time, so the file system is
  not a value the program owns: \<open>os_fs n\<close> is the file system as the \<open>n\<close>-th system
  call of the program sees it, and nothing is assumed about how it changes between two
  calls. In the same way \<open>os_time n\<close> is what the clock answers (no value when
  \<open>gettimeofday\<close> fails), \<open>os_cap n\<close> bounds what a read delivers before an error,
  \<open>os_trylock n\<close> tells whether no other thread holds the mutex that is tried, and
  \<open>os_malloc n\<close> whether an allocation succeeds, and \<open>os_uv n\<close> whether a libuv handle can be
  initialised or started.
  A run carries the number of system calls made so far, its \<open>tick\<close>.

  Not covered: the read-ahead buffer inside a \<open>FILE\<close>, so a read delivers the bytes the
  file holds at that moment.
\<close>

record filesystem =
  fs_dir :: "string \<Rightarrow> int option"
  fs_data :: "int \<Rightarrow> char list"

record os =
  os_fs :: "nat \<Rightarrow> filesystem"
  os_time :: "nat \<Rightarrow> int option"
  os_cap :: "nat \<Rightarrow> nat option"
  os_trylock :: "nat \<Rightarrow> bool"
  os_malloc :: "nat \<Rightarrow> bool"
  os_uv :: "nat \<Rightarrow> bool"

text \<open>\<open>struct stat\<close> as the sources read it: size and inode.\<close>

definition os_stat :: "filesystem \<Rightarrow> string \<Rightarrow> (int \<times> int) option" where
  "os_stat fs path =
     (case fs_dir fs path of
        None \<Rightarrow> None
      | Some ino \<Rightarrow> Some (int (length (fs_data fs ino)), ino))"

definition os_fstat :: "filesystem \<Rightarrow> int \<Rightarrow> int \<times> int" where
  "os_fstat fs ino = (int (length (fs_data fs ino)), ino)"

text \<open>An open stream: the inode it reads from and its offset.\<close>

record stream =
  f_ino :: int
  f_pos :: int

definition fopen_r :: "filesystem \<Rightarrow> string \<Rightarrow> stream option" where
  "fopen_r fs path =
     (case fs_dir fs path of None \<Rightarrow> None | Some ino \<Rightarrow> Some \<lparr>f_ino = ino, f_pos = 0\<rparr>)"

text \<open>\<open>fseek\<close> with \<open>SEEK_SET\<close>: a negative offset is refused and the offset stays.\<close>

definition fseek_set :: "stream \<Rightarrow> int \<Rightarrow> stream" where
  "fseek_set f off = (if off < 0 then f else f\<lparr>f_pos := off\<rparr>)"

definition ftell :: "stream \<Rightarrow> int" where
  "ftell f = f_pos f"

definition fread :: "os \<Rightarrow> nat \<Rightarrow> nat \<Rightarrow> stream \<Rightarrow> char list \<times> stream" where
  "fread w tick n f =
     (let limit = (case os_cap w tick of None \<Rightarrow> n | Some k \<Rightarrow> min n k);
          got = take limit (drop (nat (f_pos f)) (fs_data (os_fs w tick) (f_ino f)))
      in (got, f\<lparr>f_pos := f_pos f + int (length got)\<rparr>))"

lemma fread_length: "fread w t n f = (got, f') \<Longrightarrow> length got \<le> n"
  by (auto simp: fread_def Let_def split: option.splits)

lemma fread_pos:
  "fread w t n f = (got, f') \<Longrightarrow> f_pos f' = f_pos f + int (length got)"
  by (auto simp: fread_def Let_def)

lemma fread_ino: "fread w t n f = (got, f') \<Longrightarrow> f_ino f' = f_ino f"
  by (auto simp: fread_def Let_def)

lemma fread_within:
  assumes "fread w t n f = (got, f')" and "0 \<le> f_pos f" and "got \<noteq> []"
  shows "f_pos f' \<le> int (length (fs_data (os_fs w t) (f_ino f)))"
proof -
  let ?data = "fs_data (os_fs w t) (f_ino f)"
  define m where "m = (case os_cap w t of None \<Rightarrow> n | Some k \<Rightarrow> min n k)"
  have "got = take m (drop (nat (f_pos f)) ?data)"
    using arg_cong [OF assms(1), of fst] by (simp add: fread_def m_def Let_def)
  then have "length got \<le> length (drop (nat (f_pos f)) ?data)"
    by simp
  moreover have "0 < length got" using assms(3) by simp
  ultimately have "nat (f_pos f) + length got \<le> length ?data"
    unfolding length_drop by linarith
  then show ?thesis using fread_pos [OF assms(1)] assms(2) by linarith
qed

end
