(* ===== verification/Tools.thy ===== *)
theory Tools
  imports Osmodel
begin

text \<open>
  The helper functions of \<open>src/base/tools.cc\<close> and the C library conversions they are
  written with: splitting and trimming, number formatting and parsing, string
  replacement, differences and intersections of sets, and file metadata.
\<close>

section \<open>Numbers as text\<close>

definition digit_char :: "nat \<Rightarrow> char" where
  "digit_char d = (if d < 10 then char_of (48 + d) else char_of (87 + d))"

definition digit_val :: "char \<Rightarrow> nat option" where
  "digit_val c =
     (if isdigit c then Some (of_char c - 48)
      else if islower c then Some (of_char c - 87)
      else if isupper c then Some (of_char c - 55)
      else None)"

text \<open>The digits of a number, most significant first (\<open>%llu\<close> and \<open>%llx\<close>).\<close>

fun show_base :: "nat \<Rightarrow> nat \<Rightarrow> string" where
  "show_base b n =
     (if n < b \<or> b < 2 then [digit_char n]
      else show_base b (n div b) @ [digit_char (n mod b)])"

declare show_base.simps [simp del]

text \<open>Zero padding to a minimal width (\<open>%08x\<close>, \<open>%016llx\<close>).\<close>

definition fmt_hex :: "nat \<Rightarrow> int \<Rightarrow> string" where
  "fmt_hex w x =
     (let s = show_base 16 (nat x) in replicate (w - length s) (CHR ''0'') @ s)"

definition is_digit_of :: "nat \<Rightarrow> char \<Rightarrow> bool" where
  "is_digit_of b c = (case digit_val c of None \<Rightarrow> False | Some d \<Rightarrow> d < b)"

definition num_value :: "nat \<Rightarrow> string \<Rightarrow> nat" where
  "num_value b s = foldl (\<lambda>v c. v * b + the (digit_val c)) 0 s"

definition clamp64 :: "int \<Rightarrow> int" where
  "clamp64 x = max LONG_MIN (min LONG_MAX x)"

fun strip_sign :: "string \<Rightarrow> bool \<times> string" where
  "strip_sign [] = (False, [])"
| "strip_sign (c # s) =
     (if c = CHR ''-'' then (True, s) else if c = CHR ''+'' then (False, s) else (False, c # s))"

definition strip_0x :: "nat \<Rightarrow> string \<Rightarrow> string" where
  "strip_0x b s =
     (case s of
        c0 # c1 # c2 # r \<Rightarrow>
          if b = 16 \<and> c0 = CHR ''0'' \<and> (c1 = CHR ''x'' \<or> c1 = CHR ''X'') \<and> is_digit_of b c2
          then c2 # r else s
      | _ \<Rightarrow> s)"

text \<open>\<open>strtol\<close> and \<open>strtoll\<close>: white space, a sign, digits, saturation at the range.\<close>

definition strtoll :: "nat \<Rightarrow> string \<Rightarrow> int" where
  "strtoll b s =
     (let (neg, r) = strip_sign (dropWhile isspace s);
          v = int (num_value b (takeWhile (is_digit_of b) (strip_0x b r)))
      in clamp64 (if neg then - v else v))"

definition atoi :: "string \<Rightarrow> int" where
  "atoi s = s32 (strtoll 10 (cstr s))"

text \<open>\<open>hexstr2num\<close>; a null pointer is no value.\<close>

definition hexstr2num :: "string option \<Rightarrow> int \<Rightarrow> int" where
  "hexstr2num buf default_num =
     (case buf of
        None \<Rightarrow> default_num
      | Some b \<Rightarrow>
          (let num = strtoll 16 (cstr b)
           in if LONG_MIN \<noteq> num \<and> LONG_MAX \<noteq> num then num else default_num))"

definition int2Str :: "int \<Rightarrow> string" where
  "int2Str val =
     (if val < 0 then CHR ''-'' # show_base 10 (nat (- val)) else show_base 10 (nat val))"

section \<open>Strings\<close>

text \<open>
  \<open>std::getline\<close> on the rest of a stream: it fails when the stream is at its end,
  otherwise it takes the bytes before the separator and drops the separator.
\<close>

definition getline :: "char \<Rightarrow> string \<Rightarrow> (string \<times> string) option" where
  "getline sep s =
     (if s = [] then None
      else Some (takeWhile (\<lambda>c. c \<noteq> sep) s, drop 1 (dropWhile (\<lambda>c. c \<noteq> sep) s)))"

lemma getline_shorter: "getline sep s = Some (seg, r) \<Longrightarrow> length r < length s"
  using length_dropWhile_le [of "\<lambda>c. c \<noteq> sep" s]
  by (cases s) (auto simp: getline_def split: if_splits)

function explode :: "string \<Rightarrow> char \<Rightarrow> string list" where
  "explode str separator =
     (case getline separator str of
        None \<Rightarrow> []
      | Some (segment, rest) \<Rightarrow> segment # explode rest separator)"
  by pat_completeness auto
termination
  by (relation "measure (\<lambda>(s, c). length s)") (auto dest: getline_shorter)

declare explode.simps [simp del]

text \<open>In-place trimming of the C string in a block.\<close>

definition strlen :: "char list \<Rightarrow> nat" where
  "strlen b = length (cstr b)"

function ltrim_scan :: "char list \<Rightarrow> nat \<Rightarrow> nat" where
  "ltrim_scan str i =
     (if i < length str \<and> str ! i \<noteq> NUL \<and> isspace (str ! i) then ltrim_scan str (Suc i) else i)"
  by pat_completeness auto
termination
  by (relation "measure (\<lambda>(s, i). length s - i)") auto

declare ltrim_scan.simps [simp del]

definition ltrim :: "char list \<Rightarrow> char list" where
  "ltrim str =
     (let len = strlen str; i = ltrim_scan str 0
      in if i \<noteq> 0 then fold (\<lambda>j b. b[j := b ! (j + i)]) [0..<Suc (len - i)] str else str)"

fun rtrim_scan :: "char list \<Rightarrow> nat \<Rightarrow> nat" where
  "rtrim_scan str 0 = 0"
| "rtrim_scan str (Suc i) = (if \<not> isspace (str ! i) then Suc i else rtrim_scan str i)"

definition rtrim :: "char list \<Rightarrow> char list" where
  "rtrim str = str[rtrim_scan str (strlen str) := NUL]"

definition trim :: "char list \<Rightarrow> char list" where
  "trim str = rtrim (ltrim str)"

text \<open>
  \<open>str2Bool\<close>: the extraction stores \<open>false\<close> when the text is neither name, and
  stores nothing when the stream is exhausted after white space, so that the returned
  variable still has its indeterminate value \<open>junk\<close>.
\<close>

definition prefixed :: "string \<Rightarrow> string \<Rightarrow> bool" where
  "prefixed p s \<longleftrightarrow> take (length p) s = p"

definition str2Bool :: "bool \<Rightarrow> string \<Rightarrow> bool" where
  "str2Bool junk str =
     (let s = dropWhile isspace (map tolower str)
      in if s = [] then junk else prefixed ''true'' s)"

definition isAbsPath :: "string \<Rightarrow> bool" where
  "isAbsPath filepath =
     (case cstr filepath of [] \<Rightarrow> False | c # _ \<Rightarrow> c = CHR ''/'')"

text \<open>\<open>realpath\<close> of the platform is a parameter; \<open>dirname\<close> cuts at the last slash.\<close>

definition dirname :: "string \<Rightarrow> string" where
  "dirname p =
     (let q = rev (dropWhile (\<lambda>c. c \<noteq> CHR ''/'') (rev p));
          d = rev (dropWhile (\<lambda>c. c = CHR ''/'') (rev q))
      in if q = [] then ''.'' else if d = [] then ''/'' else d)"

definition realDir :: "(string \<Rightarrow> string option) \<Rightarrow> string \<Rightarrow> string option" where
  "realDir realpath filepath = map_option dirname (realpath filepath)"

text \<open>\<open>std::string::find\<close> from an offset, and the replacement loop built on it.\<close>

definition str_find :: "string \<Rightarrow> string \<Rightarrow> nat \<Rightarrow> nat option" where
  "str_find str pat pos =
     List.find (\<lambda>i. prefixed pat (drop i str)) [pos..<Suc (length str)]"

partial_function (option) strReplace_loop ::
  "string \<Rightarrow> string \<Rightarrow> string \<Rightarrow> nat \<Rightarrow> string option" where
  "strReplace_loop str oldStr newStr pos =
     (case str_find str oldStr pos of
        None \<Rightarrow> Some str
      | Some p \<Rightarrow>
          strReplace_loop (take p str @ newStr @ drop (p + length oldStr) str)
            oldStr newStr (p + length newStr))"

definition strReplace :: "string \<Rightarrow> string \<Rightarrow> string \<Rightarrow> string option" where
  "strReplace str oldStr newStr = strReplace_loop str oldStr newStr 0"

section \<open>Sets of strings\<close>

fun set_difference :: "'a::linorder list \<Rightarrow> 'a list \<Rightarrow> 'a list" where
  "set_difference [] ys = []"
| "set_difference (x # xs) [] = x # xs"
| "set_difference (x # xs) (y # ys) =
     (if x < y then x # set_difference xs (y # ys)
      else if y < x then set_difference (x # xs) ys
      else set_difference xs ys)"

fun set_intersection :: "'a::linorder list \<Rightarrow> 'a list \<Rightarrow> 'a list" where
  "set_intersection [] ys = []"
| "set_intersection (x # xs) [] = []"
| "set_intersection (x # xs) (y # ys) =
     (if x < y then set_intersection xs (y # ys)
      else if y < x then set_intersection (x # xs) ys
      else x # set_intersection xs ys)"

definition diff_set :: "string sset \<Rightarrow> string sset \<Rightarrow> string sset" where
  "diff_set s1 s2 = sset_collect (set_difference s1 s2)"

definition intersect_set :: "string sset \<Rightarrow> string sset \<Rightarrow> string sset" where
  "intersect_set s1 s2 = sset_collect (set_intersection s1 s2)"

section \<open>File metadata\<close>

abbreviation (input) INO_NONE :: int where "INO_NONE \<equiv> 0"

definition getInode :: "filesystem \<Rightarrow> string \<Rightarrow> int" where
  "getInode fs path = (case os_stat fs path of Some (fsize, inode) \<Rightarrow> inode | None \<Rightarrow> INO_NONE)"

definition getInode_file :: "filesystem \<Rightarrow> stream option \<Rightarrow> int" where
  "getInode_file fs fp =
     (case fp of None \<Rightarrow> INO_NONE | Some f \<Rightarrow> snd (os_fstat fs (f_ino f)))"

definition getFsize :: "filesystem \<Rightarrow> string \<Rightarrow> int" where
  "getFsize fs path = (case os_stat fs path of Some (fsize, inode) \<Rightarrow> fsize | None \<Rightarrow> 0)"

definition getFsize_file :: "filesystem \<Rightarrow> stream option \<Rightarrow> int" where
  "getFsize_file fs fp =
     (case fp of None \<Rightarrow> 0 | Some f \<Rightarrow> fst (os_fstat fs (f_ino f)))"

text \<open>
  \<open>glob\<close> of the platform is a parameter: its return code and the paths it found.
\<close>

definition searchFiles :: "(string \<Rightarrow> int \<times> string list) \<Rightarrow> string \<Rightarrow> string list" where
  "searchFiles glob pattern =
     (case glob (cstr pattern) of (ret, gl_pathv) \<Rightarrow> if ret = 0 then gl_pathv else [])"

definition globPath ::
  "(string \<Rightarrow> int \<times> string list) \<Rightarrow> string \<Rightarrow> string list \<Rightarrow> bool \<times> string list" where
  "globPath glob path_pattern paths =
     (case glob (cstr path_pattern) of (ret, gl_pathv) \<Rightarrow>
        if ret \<noteq> 0 then (False, paths) else (True, paths @ gl_pathv))"

definition getHostname :: "string option \<Rightarrow> string" where
  "getHostname gethostname = (case gethostname of None \<Rightarrow> [] | Some h \<Rightarrow> cstr h)"

section \<open>Printing and parsing numbers\<close>

lemma digit_roundtrip_all: "list_all (\<lambda>d. digit_val (digit_char d) = Some d) [0..<16]"
  by code_simp

lemma digit_roundtrip: "d < 16 \<Longrightarrow> digit_val (digit_char d) = Some d"
  using digit_roundtrip_all by (auto simp: list_all_iff)

lemma num_value_snoc: "num_value b (s @ [c]) = num_value b s * b + the (digit_val c)"
  by (simp add: num_value_def)

lemma mod_less_16: "2 \<le> b \<Longrightarrow> b \<le> 16 \<Longrightarrow> n mod b < (16::nat)"
  using mod_less_divisor [of b n] by linarith

lemma num_value_show_base:
  assumes "2 \<le> b" and "b \<le> 16"
  shows "num_value b (show_base b n) = n"
proof (induction n rule: less_induct)
  case (less n)
  show ?case
  proof (cases "n < b")
    case True
    with assms show ?thesis
      by (simp add: show_base.simps [of b n] num_value_def digit_roundtrip)
  next
    case False
    with assms less.IH [of "n div b"] have "num_value b (show_base b (n div b)) = n div b"
      by simp
    moreover have "digit_val (digit_char (n mod b)) = Some (n mod b)"
      using assms by (intro digit_roundtrip mod_less_16)
    ultimately show ?thesis
      using False assms by (simp add: show_base.simps [of b n] num_value_snoc)
  qed
qed

lemma show_base_digits:
  assumes "2 \<le> b" and "b \<le> 16"
  shows "\<forall>c \<in> set (show_base b n). is_digit_of b c"
proof (induction n rule: less_induct)
  case (less n)
  show ?case
  proof (cases "n < b")
    case True
    with assms show ?thesis
      by (simp add: show_base.simps [of b n] is_digit_of_def digit_roundtrip)
  next
    case False
    with assms less.IH [of "n div b"] have "\<forall>c \<in> set (show_base b (n div b)). is_digit_of b c"
      by simp
    moreover have "is_digit_of b (digit_char (n mod b))"
    proof -
      have "n mod b < b" using assms by simp
      then show ?thesis
        using assms by (simp add: is_digit_of_def digit_roundtrip mod_less_16)
    qed
    ultimately show ?thesis
      using False assms by (simp add: show_base.simps [of b n])
  qed
qed

lemma show_base_nonempty [simp]: "show_base b n \<noteq> []"
  by (subst show_base.simps) simp

lemma show_base_length: "0 < w \<Longrightarrow> 2 \<le> b \<Longrightarrow> n < b ^ w \<Longrightarrow> length (show_base b n) \<le> w"
proof (induction w arbitrary: n)
  case (Suc w)
  show ?case
  proof (cases "n < b")
    case True
    then show ?thesis by (simp add: show_base.simps [of b n])
  next
    case False
    with Suc.prems have "0 < w" by (cases w) auto
    moreover have "n div b < b ^ w"
      using Suc.prems by (simp add: less_mult_imp_div_less mult.commute)
    ultimately have "length (show_base b (n div b)) \<le> w"
      using Suc by simp
    with False Suc.prems show ?thesis by (simp add: show_base.simps [of b n])
  qed
qed simp

lemma special_not_digit:
  "\<not> is_digit_of 16 NUL" "\<not> is_digit_of 16 (CHR ''-'')" "\<not> is_digit_of 16 (CHR ''+'')"
  "\<not> is_digit_of 16 (CHR ''x'')" "\<not> is_digit_of 16 (CHR ''X'')"
  "\<not> is_digit_of 16 (CHR '' '')" "\<not> is_digit_of 16 (CHR 0x09)" "\<not> is_digit_of 16 (CHR 0x0A)"
  "\<not> is_digit_of 16 (CHR 0x0B)" "\<not> is_digit_of 16 (CHR 0x0C)" "\<not> is_digit_of 16 (CHR 0x0D)"
  by code_simp+

lemma isdigit_of_not_special:
  assumes "is_digit_of 16 c"
  shows "\<not> isspace c" "c \<noteq> NUL" "c \<noteq> CHR ''-''" "c \<noteq> CHR ''+''" "c \<noteq> CHR 0x09"
    "c \<noteq> CHR 0x0A" "c \<noteq> CHR ''x''" "c \<noteq> CHR ''X''"
  using assms special_not_digit by (auto simp: isspace_def)

lemma is_digit_of_16: "is_digit_of b c \<Longrightarrow> b \<le> 16 \<Longrightarrow> is_digit_of 16 c"
  by (auto simp: is_digit_of_def split: option.splits)

lemma strip_0x_digits: "\<forall>c \<in> set s. is_digit_of 16 c \<Longrightarrow> strip_0x b s = s"
  by (auto simp: strip_0x_def isdigit_of_not_special split: list.splits)

lemma strtoll_digits:
  assumes "\<forall>c \<in> set s. is_digit_of b c" and "b \<le> 16" and "s \<noteq> []"
  shows "strtoll b s = clamp64 (int (num_value b s))"
proof -
  obtain c r where s: "s = c # r" using assms(3) by (cases s) auto
  have dig: "\<forall>c \<in> set s. is_digit_of 16 c" using assms(1,2) is_digit_of_16 by blast
  then have c: "is_digit_of 16 c" by (simp add: s)
  have "dropWhile isspace s = s" using isdigit_of_not_special(1) [OF c] by (simp add: s)
  moreover have "strip_sign s = (False, s)"
    using isdigit_of_not_special(3,4) [OF c] by (simp add: s)
  moreover have "strip_0x b s = s" using dig by (rule strip_0x_digits)
  moreover have "takeWhile (is_digit_of b) s = s" using assms(1) by (simp only: takeWhile_eq_all_conv)
  ultimately show ?thesis by (simp only: strtoll_def Let_def prod.case if_False)
qed

lemma num_value_zeros: "num_value b (replicate k (CHR ''0'') @ s) = num_value b s"
proof -
  have "digit_val (CHR ''0'') = Some 0" by code_simp
  then have "foldl (\<lambda>v c. v * b + the (digit_val c)) 0 (replicate k (CHR ''0'')) = 0"
    by (induction k) auto
  then show ?thesis by (simp add: num_value_def)
qed

lemma fmt_hex_digits: "\<forall>c \<in> set (fmt_hex w x). is_digit_of 16 c"
proof -
  have "is_digit_of 16 (CHR ''0'')" by code_simp
  then show ?thesis using show_base_digits [of 16 "nat x"] by (auto simp: fmt_hex_def Let_def)
qed

lemma fmt_hex_length: "0 < w \<Longrightarrow> 0 \<le> x \<Longrightarrow> x < 16 ^ w \<Longrightarrow> length (fmt_hex w x) = w"
  using show_base_length [of w 16 "nat x"] by (simp add: fmt_hex_def Let_def nat_less_iff)

lemma fmt_hex_nonempty [simp]: "fmt_hex w x \<noteq> []"
  by (simp add: fmt_hex_def Let_def)

lemma fmt_hex_clean: "NUL \<notin> set (fmt_hex w x)" "CHR 0x09 \<notin> set (fmt_hex w x)"
  "CHR 0x0A \<notin> set (fmt_hex w x)"
  by (metis fmt_hex_digits isdigit_of_not_special(2),
      metis fmt_hex_digits isdigit_of_not_special(5),
      metis fmt_hex_digits isdigit_of_not_special(6))

lemma strtoll_fmt_hex: "0 \<le> x \<Longrightarrow> strtoll 16 (fmt_hex w x) = clamp64 x"
proof -
  assume "0 \<le> x"
  have "num_value 16 (fmt_hex w x) = nat x"
    by (simp add: fmt_hex_def Let_def num_value_zeros num_value_show_base)
  then show ?thesis
    using \<open>0 \<le> x\<close> fmt_hex_digits by (simp add: strtoll_digits)
qed

lemma hexstr2num_fmt_hex:
  assumes "0 \<le> x"
  shows "hexstr2num (Some (fmt_hex w x)) d = (if x < LONG_MAX then x else d)"
  using assms
  by (simp add: hexstr2num_def strtoll_fmt_hex cstr_id fmt_hex_clean Let_def clamp64_def)

lemma strtoll_neg_digits:
  assumes "\<forall>c \<in> set s. is_digit_of b c" and "b \<le> 16" and "s \<noteq> []"
  shows "strtoll b (CHR ''-'' # s) = clamp64 (- int (num_value b s))"
proof -
  have "\<forall>c \<in> set s. is_digit_of 16 c" using assms(1,2) is_digit_of_16 by blast
  then have "strip_0x b s = s" by (rule strip_0x_digits)
  moreover have "takeWhile (is_digit_of b) s = s" using assms(1) by (simp only: takeWhile_eq_all_conv)
  moreover have "\<not> isspace (CHR ''-'')" by code_simp
  ultimately show ?thesis by (simp add: strtoll_def del: takeWhile_eq_all_conv)
qed

lemma strtoll_int2Str: "LONG_MIN \<le> v \<Longrightarrow> v \<le> LONG_MAX \<Longrightarrow> strtoll 10 (int2Str v) = v"
  by (simp add: int2Str_def strtoll_digits strtoll_neg_digits show_base_digits
      num_value_show_base clamp64_def)

lemma int2Str_clean: "NUL \<notin> set (int2Str v)"
proof -
  have "NUL \<notin> set (show_base 10 n)" for n
    using show_base_digits [of 10 n] is_digit_of_16 isdigit_of_not_special(2) by fastforce
  then show ?thesis by (simp add: int2Str_def)
qed

section \<open>Splitting\<close>

lemma explode_Nil [simp]: "explode [] c = []"
  by (subst explode.simps) (simp add: getline_def)

lemma explode_segment:
  "c \<notin> set seg \<Longrightarrow> explode (seg @ c # r) c = seg # explode r c"
  by (subst explode.simps) (simp add: getline_def takeWhile_neq dropWhile_neq)

lemma explode_last: "c \<notin> set seg \<Longrightarrow> seg \<noteq> [] \<Longrightarrow> explode seg c = [seg]"
  by (subst explode.simps) (simp add: getline_def takeWhile_neq dropWhile_neq)

section \<open>Trimming\<close>

lemma copy_down:
  "n + i \<le> length b \<Longrightarrow>
    fold (\<lambda>j b. b[j := b ! (j + i)]) [0..<n] b = map (\<lambda>j. b ! (j + i)) [0..<n] @ drop n b"
proof (induction n)
  case (Suc n)
  then have IH: "fold (\<lambda>j b. b[j := b ! (j + i)]) [0..<n] b
      = map (\<lambda>j. b ! (j + i)) [0..<n] @ drop n b" (is "_ = ?p")
    by simp
  have "?p ! (n + i) = b ! (n + i)" using Suc.prems by (simp add: nth_append)
  moreover have "?p[n := x] = map (\<lambda>j. b ! (j + i)) [0..<n] @ x # drop (Suc n) b" for x
  proof -
    have "drop n b = b ! n # drop (Suc n) b" using Suc.prems by (simp add: Cons_nth_drop_Suc)
    then show ?thesis by (simp add: list_update_append)
  qed
  ultimately show ?case using IH by simp
qed simp

lemma cstr_split:
  "NUL \<in> set b \<Longrightarrow> \<exists>r. b = cstr b @ NUL # r"
  by (metis cstr_append_NUL split_list_first)

lemma ltrim_scan_spaces:
  "b = s @ rest \<Longrightarrow> i \<le> length s \<Longrightarrow> \<forall>c \<in> set s. isspace c \<Longrightarrow> rest \<noteq> [] \<Longrightarrow>
    \<not> isspace (hd rest) \<Longrightarrow> ltrim_scan b i = length s"
proof (induction b i rule: ltrim_scan.induct)
  case (1 b i)
  show ?case
  proof (cases "i = length s")
    case True
    then show ?thesis
      using "1.prems" by (subst ltrim_scan.simps) (auto simp: nth_append hd_conv_nth)
  next
    case False
    then have "i < length s" using "1.prems" by simp
    moreover from this have "isspace (b ! i)" using "1.prems" by (simp add: nth_append)
    moreover from this have "b ! i \<noteq> NUL" using not_isspace_NUL by metis
    ultimately show ?thesis
      using "1" by (subst ltrim_scan.simps) simp
  qed
qed

lemma cstr_ltrim:
  assumes "NUL \<in> set b"
  shows "NUL \<in> set (ltrim b)" and "cstr (ltrim b) = dropWhile isspace (cstr b)"
proof -
  obtain r where b: "b = cstr b @ NUL # r" using cstr_split [OF assms] by blast
  define s where "s = takeWhile isspace (cstr b)"
  define t where "t = dropWhile isspace (cstr b)"
  have st: "cstr b = s @ t" by (simp add: s_def t_def)
  have hd: "\<not> isspace (hd (t @ NUL # r))"
  proof (cases "t = []")
    case False
    then show ?thesis using hd_dropWhile [of isspace "cstr b"] by (simp add: t_def)
  qed simp
  have bs: "b = s @ t @ NUL # r" using b st by simp
  have i: "ltrim_scan b 0 = length s"
    by (rule ltrim_scan_spaces [OF bs]) (use hd in \<open>auto simp: s_def dest: set_takeWhileD\<close>)
  have len: "strlen b = length s + length t" by (simp add: strlen_def st)
  have nt: "NUL \<notin> set t" using cstr_no_NUL [of b] by (auto simp: st)
  have "\<exists>q. ltrim b = t @ NUL # q"
  proof (cases "s = []")
    case True
    then show ?thesis using i bs by (auto simp: ltrim_def)
  next
    case False
    have "b ! (i + length s) = (t @ NUL # r) ! i" for i
      using bs by (metis add.commute nth_append_length_plus)
    then have "map (\<lambda>j. b ! (j + length s)) [0..<Suc (length t)] = t @ [NUL]"
      by (intro nth_equalityI) (auto simp: nth_append less_Suc_eq simp del: upt_Suc)
    moreover have "Suc (length t) + length s \<le> length b" by (subst bs) simp
    ultimately show ?thesis
      using False i len copy_down [of "Suc (length t)" "length s" b] by (auto simp: ltrim_def Let_def)
  qed
  then show "NUL \<in> set (ltrim b)" "cstr (ltrim b) = dropWhile isspace (cstr b)"
    using nt by (auto simp: cstr_append_NUL t_def)
qed

lemma rtrim_scan_eq:
  "k \<le> length s \<Longrightarrow> rtrim_scan (s @ r) k = length (dropWhile isspace (rev (take k s)))"
  by (induction k) (auto simp: take_Suc_conv_app_nth nth_append)

lemma cstr_rtrim:
  assumes "NUL \<in> set b"
  shows "cstr (rtrim b) = rev (dropWhile isspace (rev (cstr b)))"
proof -
  obtain r where b: "b = cstr b @ NUL # r" using cstr_split [OF assms] by blast
  define s where "s = cstr b"
  define t where "t = rev (dropWhile isspace (rev s))"
  have bs: "b = s @ NUL # r" using b by (simp add: s_def)
  have k: "rtrim_scan b (strlen b) = length t"
    by (simp add: strlen_def flip: s_def) (subst bs, simp add: rtrim_scan_eq t_def)
  have "t = take (length t) s"
  proof -
    have "s = t @ rev (takeWhile isspace (rev s))"
      unfolding t_def by (simp flip: rev_append)
    then show ?thesis by (metis append_eq_conv_conj)
  qed
  then obtain u where u: "s = t @ u" by (metis append_take_drop_id)
  have "b[length t := NUL] = t @ NUL # drop (Suc (length t)) b"
    using bs u by (cases u) (auto simp: list_update_append)
  moreover have "NUL \<notin> set t"
  proof -
    have "NUL \<notin> set s" by (simp add: s_def)
    then show ?thesis by (simp add: u)
  qed
  ultimately show ?thesis by (simp add: rtrim_def k cstr_append_NUL t_def s_def)
qed

section \<open>Replacing\<close>

text \<open>What the loop computes: every occurrence, left to right, non-overlapping.\<close>

function replace_all :: "string \<Rightarrow> string \<Rightarrow> string \<Rightarrow> string" where
  "replace_all old new s =
     (if old \<noteq> [] \<and> prefixed old s then new @ replace_all old new (drop (length old) s)
      else case s of [] \<Rightarrow> [] | c # r \<Rightarrow> c # replace_all old new r)"
  by pat_completeness auto
termination
proof (relation "measure (\<lambda>(old, new, s). length s)", goal_cases)
  case (2 old new s)
  then have "old \<noteq> []" "take (length old) s = old" by (auto simp: prefixed_def)
  then have "s \<noteq> []" by auto
  then show ?case using \<open>old \<noteq> []\<close> by simp
qed auto

declare replace_all.simps [simp del]

lemma str_find_None:
  "str_find str pat pos = None \<Longrightarrow> pos \<le> i \<Longrightarrow> i \<le> length str \<Longrightarrow> \<not> prefixed pat (drop i str)"
  by (auto simp: str_find_def find_None_iff)

lemma str_find_Some:
  assumes "str_find str pat pos = Some p"
  shows "pos \<le> p" "p \<le> length str" "prefixed pat (drop p str)"
    "pos \<le> i \<Longrightarrow> i < p \<Longrightarrow> \<not> prefixed pat (drop i str)"
proof -
  from assms obtain k where k: "k < length [pos..<Suc (length str)]"
    "prefixed pat (drop ([pos..<Suc (length str)] ! k) str)" "p = [pos..<Suc (length str)] ! k"
    "\<And>j. j < k \<Longrightarrow> \<not> prefixed pat (drop ([pos..<Suc (length str)] ! j) str)"
    by (auto simp: str_find_def find_Some_iff)
  then have p: "p = pos + k" by (simp add: nth_upt del: upt_Suc)
  with k(1) show "pos \<le> p" "p \<le> length str" by (auto simp del: upt_Suc)
  from k(2) p show "prefixed pat (drop p str)" using k(3) by simp
  assume "pos \<le> i" "i < p"
  then have "i - pos < k" "[pos..<Suc (length str)] ! (i - pos) = i"
    using p k(1) by (auto simp: nth_upt simp del: upt_Suc)
  then show "\<not> prefixed pat (drop i str)" using k(4) [of "i - pos"] by simp
qed

lemma replace_all_skip:
  "(\<And>i. i < length a \<Longrightarrow> \<not> prefixed old (drop i (a @ t))) \<Longrightarrow>
    replace_all old new (a @ t) = a @ replace_all old new t"
proof (induction a)
  case (Cons c a)
  have "\<not> prefixed old (drop i (a @ t))" if "i < length a" for i
    using Cons.prems [of "Suc i"] that by simp
  then have "replace_all old new (a @ t) = a @ replace_all old new t" by (rule Cons.IH)
  moreover have "\<not> prefixed old (c # a @ t)" using Cons.prems [of 0] by simp
  ultimately show ?case by (simp add: replace_all.simps [of old new "c # a @ t"])
qed simp

lemma replace_all_hit:
  "old \<noteq> [] \<Longrightarrow> replace_all old new (old @ t) = new @ replace_all old new t"
  by (subst replace_all.simps) (simp add: prefixed_def)

lemma strReplace_loop_eq:
  assumes "old \<noteq> []"
  shows "strReplace_loop (pre @ s) old new (length pre) = Some (pre @ replace_all old new s)"
proof (induction s arbitrary: pre rule: length_induct)
  case (1 s)
  show ?case
  proof (cases "str_find (pre @ s) old (length pre)")
    case None
    have "\<not> prefixed old (drop i (s @ []))" if "i < length s" for i
      using str_find_None [OF None, of "length pre + i"] that by simp
    then have "replace_all old new (s @ []) = s @ replace_all old new []"
      by (rule replace_all_skip)
    moreover have "replace_all old new [] = []"
      using assms by (simp add: replace_all.simps prefixed_def)
    ultimately show ?thesis using None by (simp add: strReplace_loop.simps)
  next
    case (Some p)
    note f = str_find_Some [OF Some]
    define a where "a = take (p - length pre) s"
    define t where "t = drop (p - length pre + length old) s"
    have sub: "drop p (pre @ s) = drop (p - length pre) s" using f(1) by simp
    have old: "take (length old) (drop (p - length pre) s) = old"
      using f(3) unfolding sub prefixed_def .
    have "drop (p - length pre) s = old @ t"
      using append_take_drop_id [of "length old" "drop (p - length pre) s"] old
      by (simp add: t_def add.commute)
    then have s: "s = a @ old @ t"
      using append_take_drop_id [of "p - length pre" s] by (simp add: a_def)
    have la: "length a = p - length pre" using f(1,2) by (simp add: a_def)
    then have p: "p = length (pre @ a)" using f(1) by simp
    have "\<not> prefixed old (drop i (a @ old @ t))" if "i < length a" for i
      using f(4) [of "length pre + i"] that p s by simp
    then have "replace_all old new (a @ old @ t) = a @ replace_all old new (old @ t)"
      by (rule replace_all_skip)
    then have ra: "replace_all old new s = a @ new @ replace_all old new t"
      using s replace_all_hit [OF assms] by simp
    have "length t < length s" using s assms by simp
    then have "strReplace_loop ((pre @ a @ new) @ t) old new (length (pre @ a @ new))
        = Some ((pre @ a @ new) @ replace_all old new t)"
      using 1 by blast
    moreover have "take p (pre @ s) @ new @ drop (p + length old) (pre @ s) = (pre @ a @ new) @ t"
      by (simp add: p s)
    ultimately show ?thesis
      using Some ra by (subst strReplace_loop.simps) (simp add: p add.assoc)
  qed
qed

section \<open>Set operations\<close>

lemma less_notin: "(a :: 'a::linorder) < b \<Longrightarrow> \<forall>z \<in> set zs. b < z \<Longrightarrow> a \<notin> set zs"
  using less_asym by blast

lemma set_difference_set:
  "sset_ok s \<Longrightarrow> sset_ok t \<Longrightarrow> set (set_difference s t) = set s - set t"
proof (induction s t rule: set_difference.induct)
  case (3 x xs y ys)
  consider "x < y" | "y < x" | "x = y" by fastforce
  then show ?case
  proof cases
    case 1
    with 3 less_notin [of x y ys] show ?thesis by (auto simp: insert_Diff_if)
  next
    case 2
    with 3 less_notin [of y x xs] show ?thesis by (auto simp: insert_Diff_if)
  next
    case eq: 3
    with "3.IH"(3) "3.prems" have "set (set_difference xs ys) = set xs - set ys" by simp
    moreover have "x \<notin> set xs" using "3.prems" by auto
    ultimately show ?thesis using eq by auto
  qed
qed simp_all

lemma set_intersection_set:
  "sset_ok s \<Longrightarrow> sset_ok t \<Longrightarrow> set (set_intersection s t) = set s \<inter> set t"
proof (induction s t rule: set_intersection.induct)
  case (3 x xs y ys)
  consider "x < y" | "y < x" | "x = y" by fastforce
  then show ?case
  proof cases
    case 1
    with 3 less_notin [of x y ys] show ?thesis by simp
  next
    case 2
    with 3 less_notin [of y x xs] show ?thesis by simp
  next
    case eq: 3
    with "3.IH"(3) "3.prems" have "set (set_intersection xs ys) = set xs \<inter> set ys" by simp
    moreover have "x \<notin> set xs" "y \<notin> set ys" using "3.prems" by auto
    ultimately show ?thesis using eq by auto
  qed
qed simp_all

lemma diff_set_props:
  assumes "sset_ok s" and "sset_ok t"
  shows "set (diff_set s t) = set s - set t" and "sset_ok (diff_set s t)"
  using assms by (simp_all add: diff_set_def set_difference_set)

lemma intersect_set_props:
  assumes "sset_ok s" and "sset_ok t"
  shows "set (intersect_set s t) = set s \<inter> set t" and "sset_ok (intersect_set s t)"
  using assms by (simp_all add: intersect_set_def set_intersection_set)

end
