(* ===== verification/Position.thy ===== *)
theory Position
  imports Tools
begin

text \<open>
  Position entries: the abstract class of \<open>src/logkafka/position_entry.h\<close> as the locale
  \<open>position_entry\<close>, and its two implementations, in memory
  (\<open>memory_position_entry.cc\<close>) and at a fixed offset of the shared position file
  (\<open>file_position_entry.cc\<close>).

  The position file is open for reading and writing and unbuffered, so it is the bytes of
  the file and the offset of the stream.
\<close>

section \<open>A file open for reading and writing\<close>

record pstream =
  p_data :: "char list"
  p_pos :: nat

definition p_fseek :: "nat \<Rightarrow> pstream \<Rightarrow> pstream" where
  "p_fseek off f = f\<lparr>p_pos := off\<rparr>"

text \<open>Writing past the end of the file fills the gap with NUL bytes.\<close>

definition write_at :: "nat \<Rightarrow> char list \<Rightarrow> char list \<Rightarrow> char list" where
  "write_at off bs d =
     take off (d @ replicate (off - length d) NUL) @ bs @ drop (off + length bs) d"

definition p_fwrite :: "char list \<Rightarrow> pstream \<Rightarrow> pstream" where
  "p_fwrite bs f = \<lparr>p_data = write_at (p_pos f) bs (p_data f), p_pos = p_pos f + length bs\<rparr>"

text \<open>\<open>fread(buf, n, 1, f)\<close>: the item is delivered when all its bytes are there.\<close>

definition p_fread :: "nat \<Rightarrow> pstream \<Rightarrow> char list option \<times> pstream" where
  "p_fread n f =
     (let got = take n (drop (p_pos f) (p_data f))
      in (if length got = n then Some got else None, f\<lparr>p_pos := p_pos f + length got\<rparr>))"

section \<open>The abstract class\<close>

text \<open>
  What a client of a position entry may rely on: what was stored is read back, storing a
  position keeps the inode, and reading changes neither. \<open>pos_ok\<close> and \<open>ino_ok\<close> are the
  values the implementation can hold.
\<close>

locale position_entry =
  fixes update :: "int \<Rightarrow> int \<Rightarrow> 's \<Rightarrow> 's"
    and updatePos :: "int \<Rightarrow> 's \<Rightarrow> 's"
    and readInode :: "'s \<Rightarrow> int \<times> 's"
    and readPos :: "'s \<Rightarrow> int \<times> 's"
    and ok :: "'s \<Rightarrow> bool"
    and pos_ok :: "int \<Rightarrow> bool"
    and ino_ok :: "int \<Rightarrow> bool"
  assumes ok_update: "ok s \<Longrightarrow> ok (update i p s)"
    and ok_updatePos: "ok s \<Longrightarrow> ok (updatePos p s)"
    and ok_readInode: "ok s \<Longrightarrow> ok (snd (readInode s))"
    and ok_readPos: "ok s \<Longrightarrow> ok (snd (readPos s))"
    and readPos_update: "ok s \<Longrightarrow> pos_ok p \<Longrightarrow> fst (readPos (update i p s)) = p"
    and readPos_updatePos: "ok s \<Longrightarrow> pos_ok p \<Longrightarrow> fst (readPos (updatePos p s)) = p"
    and readInode_update: "ok s \<Longrightarrow> ino_ok i \<Longrightarrow> fst (readInode (update i p s)) = i"
    and readInode_updatePos: "ok s \<Longrightarrow> fst (readInode (updatePos p s)) = fst (readInode s)"
    and readPos_readInode: "ok s \<Longrightarrow> fst (readPos (snd (readInode s))) = fst (readPos s)"
    and readInode_readPos: "ok s \<Longrightarrow> fst (readInode (snd (readPos s))) = fst (readInode s)"
begin

text \<open>A run of position updates, as the collecting loop makes them.\<close>

lemma ok_updates: "ok s \<Longrightarrow> ok (fold updatePos ps s)"
  by (induction ps arbitrary: s) (auto intro: ok_updatePos)

lemma readInode_updates: "ok s \<Longrightarrow> fst (readInode (fold updatePos ps s)) = fst (readInode s)"
  by (induction ps arbitrary: s) (auto simp: readInode_updatePos ok_updatePos)

lemma readPos_updates: "ok s \<Longrightarrow> pos_ok p \<Longrightarrow> fst (readPos (fold updatePos (ps @ [p]) s)) = p"
  by (simp add: readPos_updatePos ok_updates)

text \<open>What a restart finds after an entry was set up and then advanced.\<close>

lemma resume:
  assumes "ok s" and "ino_ok i" and "pos_ok p"
  shows "fst (readInode (fold updatePos (ps @ [p]) (update i q s))) = i"
    and "fst (readPos (fold updatePos (ps @ [p]) (update i q s))) = p"
  using assms
  by (simp_all only: readInode_updates readPos_updates ok_update readInode_update)

end

section \<open>In memory\<close>

record MemoryPositionEntry =
  m_inode :: int
  m_pos :: int

definition Mem_update :: "int \<Rightarrow> int \<Rightarrow> MemoryPositionEntry \<Rightarrow> MemoryPositionEntry" where
  "Mem_update inode pos e = e\<lparr>m_inode := inode, m_pos := pos\<rparr>"

definition Mem_updatePos :: "int \<Rightarrow> MemoryPositionEntry \<Rightarrow> MemoryPositionEntry" where
  "Mem_updatePos pos e = e\<lparr>m_pos := pos\<rparr>"

definition Mem_readInode :: "MemoryPositionEntry \<Rightarrow> int \<times> MemoryPositionEntry" where
  "Mem_readInode e = (m_inode e, e)"

definition Mem_readPos :: "MemoryPositionEntry \<Rightarrow> int \<times> MemoryPositionEntry" where
  "Mem_readPos e = (m_pos e, e)"

interpretation mem: position_entry Mem_update Mem_updatePos Mem_readInode Mem_readPos
  "\<lambda>_. True" "\<lambda>_. True" "\<lambda>_. True"
  by unfold_locales
    (simp_all add: Mem_update_def Mem_updatePos_def Mem_readInode_def Mem_readPos_def)

section \<open>In the position file\<close>

abbreviation TAB :: char where "TAB \<equiv> CHR 0x09"
abbreviation NL :: char where "NL \<equiv> CHR 0x0A"

definition POS_SIZE :: nat where "POS_SIZE = 16"
definition INO_OFFSET :: nat where "INO_OFFSET = 17"
definition INO_SIZE :: nat where "INO_SIZE = 8"
definition LN_OFFSET :: nat where "LN_OFFSET = 25"
definition ENTRY_SIZE :: nat where "ENTRY_SIZE = 26"

text \<open>The object is its offset \<open>m_seek\<close>; the file is shared by all entries.\<close>

definition pos_field :: "int \<Rightarrow> string" where
  "pos_field pos = fmt_hex 16 (u64 pos)"

definition ino_field :: "int \<Rightarrow> string" where
  "ino_field inode = fmt_hex 8 (u32 inode)"

definition FilePE_update :: "nat \<Rightarrow> int \<Rightarrow> int \<Rightarrow> pstream \<Rightarrow> pstream" where
  "FilePE_update seek inode pos f =
     p_fwrite (pos_field pos @ [TAB] @ ino_field inode) (p_fseek seek f)"

definition FilePE_updatePos :: "nat \<Rightarrow> int \<Rightarrow> pstream \<Rightarrow> pstream" where
  "FilePE_updatePos seek pos f = p_fwrite (pos_field pos) (p_fseek seek f)"

definition FilePE_readPos :: "nat \<Rightarrow> pstream \<Rightarrow> int \<times> pstream" where
  "FilePE_readPos seek f =
     (case p_fread POS_SIZE (p_fseek seek f) of
        (Some buf, f') \<Rightarrow> (hexstr2num (Some (buf @ [NUL])) (- 1), f')
      | (None, f') \<Rightarrow> (- 1, f'))"

definition FilePE_readInode :: "nat \<Rightarrow> pstream \<Rightarrow> int \<times> pstream" where
  "FilePE_readInode seek f =
     (case p_fread INO_SIZE (p_fseek (seek + INO_OFFSET) f) of
        (Some buf, f') \<Rightarrow> (u64 (hexstr2num (Some (buf @ [NUL])) INO_NONE), f')
      | (None, f') \<Rightarrow> (INO_NONE, f'))"

lemma pos_field_length [simp]: "length (pos_field p) = 16"
  using u64_range [of p] by (simp add: pos_field_def fmt_hex_length)

lemma ino_field_length [simp]: "length (ino_field i) = 8"
  using u32_range [of i] by (simp add: ino_field_def fmt_hex_length)

lemma write_at_inside: "off + length bs \<le> length d \<Longrightarrow> write_at off bs d = take off d @ bs @ drop (off + length bs) d"
  by (simp add: write_at_def)

lemma write_at_append: "write_at (length a) bs (a @ b @ c) = a @ bs @ c" if "length b = length bs"
  using that by (simp add: write_at_def)

text \<open>An entry's block within the file.\<close>

definition entry_at :: "nat \<Rightarrow> pstream \<Rightarrow> bool" where
  "entry_at seek f \<longleftrightarrow> seek + LN_OFFSET \<le> length (p_data f)"

definition pos_text :: "nat \<Rightarrow> pstream \<Rightarrow> string" where
  "pos_text seek f = take 16 (drop seek (p_data f))"

definition ino_text :: "nat \<Rightarrow> pstream \<Rightarrow> string" where
  "ino_text seek f = take 8 (drop (seek + 17) (p_data f))"

lemma readPos_text: "entry_at seek f \<Longrightarrow>
    FilePE_readPos seek f =
      (hexstr2num (Some (pos_text seek f @ [NUL])) (- 1), f\<lparr>p_pos := seek + 16\<rparr>)"
  by (simp add: FilePE_readPos_def p_fread_def p_fseek_def entry_at_def LN_OFFSET_def
      POS_SIZE_def pos_text_def Let_def)

lemma readInode_text: "entry_at seek f \<Longrightarrow>
    FilePE_readInode seek f =
      (u64 (hexstr2num (Some (ino_text seek f @ [NUL])) 0), f\<lparr>p_pos := seek + 25\<rparr>)"
  by (simp add: FilePE_readInode_def p_fread_def p_fseek_def entry_at_def LN_OFFSET_def
      INO_SIZE_def INO_OFFSET_def ino_text_def Let_def)

lemma update_text:
  assumes "entry_at seek f"
  shows "pos_text seek (FilePE_update seek i p f) = pos_field p"
    and "ino_text seek (FilePE_update seek i p f) = ino_field i"
    and "entry_at seek (FilePE_update seek i p f)"
  using assms
  by (simp_all add: FilePE_update_def p_fwrite_def p_fseek_def pos_text_def ino_text_def
      entry_at_def LN_OFFSET_def write_at_inside)

lemma updatePos_text:
  assumes "entry_at seek f"
  shows "pos_text seek (FilePE_updatePos seek p f) = pos_field p"
    and "ino_text seek (FilePE_updatePos seek p f) = ino_text seek f"
    and "entry_at seek (FilePE_updatePos seek p f)"
  using assms
  by (simp_all add: FilePE_updatePos_def p_fwrite_def p_fseek_def pos_text_def ino_text_def
      entry_at_def LN_OFFSET_def write_at_inside add.commute)

lemma text_p_pos [simp]:
  "pos_text seek (f\<lparr>p_pos := n\<rparr>) = pos_text seek f"
  "ino_text seek (f\<lparr>p_pos := n\<rparr>) = ino_text seek f"
  "entry_at seek (f\<lparr>p_pos := n\<rparr>) = entry_at seek f"
  by (simp_all add: pos_text_def ino_text_def entry_at_def)

lemma hexstr2num_NUL: "NUL \<notin> set s \<Longrightarrow> hexstr2num (Some (s @ [NUL])) d = hexstr2num (Some s) d"
  by (simp add: hexstr2num_def cstr_append_NUL cstr_id)

text \<open>
  The positions an entry can hold: offsets below \<open>LONG_MAX\<close>, and \<open>-1\<close>, which is
  written as sixteen \<open>f\<close>, saturates when read and so comes back as the default.
\<close>

definition storable_pos :: "int \<Rightarrow> bool" where
  "storable_pos p \<longleftrightarrow> p = - 1 \<or> (0 \<le> p \<and> p < LONG_MAX)"

definition storable_ino :: "int \<Rightarrow> bool" where
  "storable_ino i \<longleftrightarrow> 0 \<le> i \<and> i < 2 ^ 32"

lemma read_pos_field: "hexstr2num (Some (pos_field p @ [NUL])) (- 1) = (if u64 p < LONG_MAX then u64 p else - 1)"
  using u64_range [of p]
  by (simp add: pos_field_def hexstr2num_NUL fmt_hex_clean hexstr2num_fmt_hex)

lemma read_ino_field: "u64 (hexstr2num (Some (ino_field i @ [NUL])) 0) = u32 i"
  using u32_range [of i]
  by (simp add: ino_field_def hexstr2num_NUL fmt_hex_clean hexstr2num_fmt_hex u64_id)

lemma read_pos_field_storable: "storable_pos p \<Longrightarrow> hexstr2num (Some (pos_field p @ [NUL])) (- 1) = p"
  unfolding read_pos_field storable_pos_def u64_def by auto

lemma u32_storable: "storable_ino i \<Longrightarrow> u32 i = i"
  by (simp add: storable_ino_def u32_id)

interpretation fpe: position_entry "FilePE_update seek" "FilePE_updatePos seek"
  "FilePE_readInode seek" "FilePE_readPos seek" "entry_at seek" storable_pos storable_ino
  for seek :: nat
  by unfold_locales
    (simp_all add: readPos_text readInode_text update_text updatePos_text
      read_pos_field_storable read_ino_field u32_storable)

section \<open>Properties\<close>

text \<open>
  C23: an entry of the position file reads back what was last written to it. A position
  below \<open>LONG_MAX\<close>, or the mark \<open>-1\<close> of an unwatched path, comes back exactly after
  any number of earlier updates, and the inode stays the one set up with the entry.
\<close>

theorem file_entry_roundtrip:
  assumes "entry_at seek f" and "storable_ino i" and "storable_pos p"
  shows "fst (FilePE_readInode seek (fold (FilePE_updatePos seek) (ps @ [p]) (FilePE_update seek i q f))) = i
    \<and> fst (FilePE_readPos seek (fold (FilePE_updatePos seek) (ps @ [p]) (FilePE_update seek i q f))) = p"
  using fpe.resume [OF assms] by blast

theorem file_entry_roundtrip_witness:
  "entry_at 2 \<lparr>p_data = replicate 28 (CHR ''0''), p_pos = 0\<rparr>
    \<and> fst (FilePE_readPos 2 (FilePE_updatePos 2 (- 1)
        (FilePE_update 2 77 5 \<lparr>p_data = replicate 28 (CHR ''0''), p_pos = 0\<rparr>))) = - 1"
proof -
  let ?f = "\<lparr>p_data = replicate 28 (CHR ''0''), p_pos = 0\<rparr>"
  have h: "entry_at 2 ?f" "storable_ino 77" "storable_pos (- 1)"
    by (simp_all add: entry_at_def LN_OFFSET_def storable_ino_def storable_pos_def)
  show ?thesis using h(1) file_entry_roundtrip [OF h, of "[]" 5] by simp
qed

text \<open>
  what the fixed-width fields do to any other value. The inode comes back modulo
  \<open>2 ^ 32\<close>, so an inode above that is not recognised again; a position comes back as
  the unsigned 64-bit value when that is below \<open>LONG_MAX\<close> and as \<open>-1\<close> otherwise.
\<close>

lemma file_entry_truncation:
  assumes "entry_at seek f"
  shows "fst (FilePE_readInode seek (FilePE_update seek i p f)) = i mod 2 ^ 32
    \<and> fst (FilePE_readPos seek (FilePE_update seek i p f))
        = (if p mod 2 ^ 64 < LONG_MAX then p mod 2 ^ 64 else - 1)"
  using assms
  by (simp add: readPos_text readInode_text update_text read_pos_field read_ino_field)
    (simp add: u32_def u64_def)

lemma file_entry_truncation_witness:
  "fst (FilePE_readInode 0 (FilePE_update 0 4294967297 0 \<lparr>p_data = replicate 26 NUL, p_pos = 0\<rparr>)) = 1"
proof -
  have h: "entry_at 0 \<lparr>p_data = replicate 26 NUL, p_pos = 0\<rparr>"
    by (simp add: entry_at_def LN_OFFSET_def)
  show ?thesis using file_entry_truncation [OF h, of 4294967297 0] by simp
qed

end
