(* ===== verification/PositionFile.thy ===== *)
theory PositionFile
  imports Position
begin

text \<open>
  The position file, \<open>src/logkafka/position_file.cc\<close>: a map from (path pattern, path) to
  entries in one file, its textual format, and its compaction at start-up. The regular
  expression engine PCRE2 is a parameter: compiling a pattern answers a matcher or fails,
  and a matcher answers the return code and the offset vector of a subject.
\<close>

section \<open>Keys\<close>

datatype PositionEntryKey = PositionEntryKey (pe_path_pattern: string) (pe_path: string)

definition key_less :: "PositionEntryKey \<Rightarrow> PositionEntryKey \<Rightarrow> bool" where
  "key_less a hs \<longleftrightarrow>
     pe_path_pattern a < pe_path_pattern hs \<or>
     pe_path_pattern a = pe_path_pattern hs \<and> pe_path a < pe_path hs"

instantiation PositionEntryKey :: linorder
begin

definition less_PositionEntryKey :: "PositionEntryKey \<Rightarrow> PositionEntryKey \<Rightarrow> bool" where
  "less_PositionEntryKey = key_less"

definition less_eq_PositionEntryKey :: "PositionEntryKey \<Rightarrow> PositionEntryKey \<Rightarrow> bool" where
  "less_eq_PositionEntryKey a hs \<longleftrightarrow> a = hs \<or> a < hs"

instance
proof
  fix x y z :: PositionEntryKey
  show "x < y \<longleftrightarrow> x \<le> y \<and> \<not> y \<le> x"
    by (auto simp: less_PositionEntryKey_def key_less_def less_eq_PositionEntryKey_def)
  show "x \<le> x" by (simp add: less_eq_PositionEntryKey_def)
  show "x \<le> y \<Longrightarrow> y \<le> z \<Longrightarrow> x \<le> z"
    by (auto simp: less_PositionEntryKey_def key_less_def less_eq_PositionEntryKey_def)
  show "x \<le> y \<Longrightarrow> y \<le> x \<Longrightarrow> x = y"
    by (auto simp: less_PositionEntryKey_def key_less_def less_eq_PositionEntryKey_def)
  show "x \<le> y \<or> y \<le> x"
    by (cases x; cases y) (auto simp: less_PositionEntryKey_def key_less_def less_eq_PositionEntryKey_def)
qed

end

section \<open>Reading lines\<close>

text \<open>
  \<open>fgets\<close> with a buffer of \<open>n\<close> bytes: at most \<open>n - 1\<close> bytes up to and including a
  newline, no value at the end of the file, and an empty string when the buffer has room
  for the terminator only.
\<close>

definition next_line :: "char list \<Rightarrow> char list" where
  "next_line d = takeWhile (\<lambda>c. c \<noteq> NL) d @ take 1 (dropWhile (\<lambda>c. c \<noteq> NL) d)"

definition fgets :: "nat \<Rightarrow> pstream \<Rightarrow> (char list \<times> pstream) option" where
  "fgets n f =
     (if n = 0 then None
      else if n = 1 then Some ([], f)
      else if drop (p_pos f) (p_data f) = [] then None
      else (let raw = take (n - 1) (next_line (drop (p_pos f) (p_data f)))
            in Some (raw, f\<lparr>p_pos := p_pos f + length raw\<rparr>)))"

lemma next_line_nonempty: "d \<noteq> [] \<Longrightarrow> next_line d \<noteq> []"
  by (cases d) (auto simp: next_line_def)

lemma next_line_le: "length (next_line d) \<le> length d"
proof -
  have "d = takeWhile (\<lambda>c. c \<noteq> NL) d @ dropWhile (\<lambda>c. c \<noteq> NL) d" by simp
  then have "length d = length (takeWhile (\<lambda>c. c \<noteq> NL) d) + length (dropWhile (\<lambda>c. c \<noteq> NL) d)"
    by (metis length_append)
  then show ?thesis by (simp add: next_line_def)
qed

lemma fgets_progress:
  assumes "fgets n f = Some (raw, f')" and "cstr raw \<noteq> []"
  shows "p_data f' = p_data f" and "length (p_data f) - p_pos f' < length (p_data f) - p_pos f"
proof -
  have raw: "raw \<noteq> []" using assms(2) by (auto simp: cstr_def)
  with assms(1) have ne: "drop (p_pos f) (p_data f) \<noteq> []"
    and f': "f' = f\<lparr>p_pos := p_pos f + length raw\<rparr>"
    by (auto simp: fgets_def Let_def split: if_splits)
  show "p_data f' = p_data f" by (simp add: f')
  show "length (p_data f) - p_pos f' < length (p_data f) - p_pos f"
    using ne raw by (simp add: f' diff_less_mono2 not_le)
qed

section \<open>Parsing a line\<close>

type_synonym pcre2_code = "string \<Rightarrow> int \<times> (nat \<Rightarrow> nat)"

definition POSITION_PATTERN :: string where
  "POSITION_PATTERN =
     ''^([^'' @ [TAB] @ '']+)'' @ [TAB] @ ''([^'' @ [TAB] @ '']+)'' @ [TAB] @
     ''([0-9a-fA-F]+)'' @ [TAB] @ ''([0-9a-fA-F]+)$''"

definition substr :: "string \<Rightarrow> nat \<Rightarrow> nat \<Rightarrow> string" where
  "substr s off len = take len (drop off s)"

text \<open>The capture group \<open>i\<close> of a match.\<close>

definition group :: "string \<Rightarrow> (nat \<Rightarrow> nat) \<Rightarrow> nat \<Rightarrow> string" where
  "group line ovector i = substr line (ovector (2 * i)) (ovector (2 * i + 1) - ovector (2 * i))"

definition parseLine ::
  "(string \<Rightarrow> pcre2_code option) \<Rightarrow> string \<Rightarrow> (PositionEntryKey \<times> int \<times> int) option" where
  "parseLine pcre2_compile line =
     (case pcre2_compile POSITION_PATTERN of
        None \<Rightarrow> None
      | Some re \<Rightarrow>
          (case re line of (rc, ovector) \<Rightarrow>
             if rc > 0 then
               Some (PositionEntryKey (group line ovector 1) (group line ovector 2),
                     hexstr2num (Some (group line ovector 3)) (- 1),
                     u64 (hexstr2num (Some (group line ovector 4)) 0))
             else None))"

section \<open>The object\<close>

definition UNWATCHED_POSITION :: int where
  "UNWATCHED_POSITION = s64 0xffffffffffffffff"

type_synonym FilePositionEntryMap = "(PositionEntryKey, nat) smap"

record PositionFile =
  m_pe_map :: FilePositionEntryMap
  m_last_pos :: nat

definition PositionFile_new :: "FilePositionEntryMap \<Rightarrow> nat \<Rightarrow> PositionFile" where
  "PositionFile_new pe_map last_pos = \<lparr>m_pe_map = pe_map, m_last_pos = last_pos\<rparr>"

text \<open>\<open>operator[]\<close>: the entry of a key, created at the end of the file when it is new.\<close>

definition PositionFile_index ::
  "PositionEntryKey \<Rightarrow> PositionFile \<times> pstream \<Rightarrow> nat \<times> (PositionFile \<times> pstream)" where
  "PositionFile_index pek st =
     (case st of (pf, f) \<Rightarrow>
        (case smap_find (m_pe_map pf) pek of
           Some e \<Rightarrow> (e, (pf, f))
         | None \<Rightarrow>
             (let f1 = p_fseek (m_last_pos pf) f;
                  f2 = p_fwrite [TAB] (p_fwrite (pe_path_pattern pek) f1);
                  f3 = p_fwrite [TAB] (p_fwrite (pe_path pek) f2);
                  seek = p_pos f3;
                  f4 = p_fwrite (''0000000000000000'' @ [TAB] @ ''00000000'' @ [NL]) f3
              in (seek, (pf\<lparr>m_last_pos := p_pos f4, m_pe_map := smap_put pek seek (m_pe_map pf)\<rparr>, f4)))))"

definition PositionFile_remove :: "PositionEntryKey \<Rightarrow> PositionFile \<Rightarrow> PositionFile" where
  "PositionFile_remove pek pf = pf\<lparr>m_pe_map := smap_erase pek (m_pe_map pf)\<rparr>"

text \<open>\<open>getPath\<close> searches from the greatest key down.\<close>

definition PositionFile_getPath :: "string \<Rightarrow> PositionFile \<Rightarrow> string option" where
  "PositionFile_getPath path_pattern pf =
     map_option (\<lambda>p. pe_path (fst p))
       (List.find (\<lambda>p. pe_path_pattern (fst p) = path_pattern) (rev (m_pe_map pf)))"

text \<open>
  \<open>compact\<close> rewrites the file with the last watched entry of every pattern. Its
  parameters tell whether the buffer can be allocated and the file truncated.
\<close>

function compact_loop ::
  "(string \<Rightarrow> pcre2_code option) \<Rightarrow> nat \<Rightarrow> pstream \<Rightarrow> (string, string) smap \<Rightarrow>
     pstream \<times> (string, string) smap" where
  "compact_loop re n f existent_entries =
     (case fgets n f of
        None \<Rightarrow> (f, existent_entries)
      | Some (raw, f') \<Rightarrow>
          (let line_str = cstr raw
           in if line_str = [] then (f', existent_entries)
              else case parseLine re line_str of
                     None \<Rightarrow> compact_loop re n f' existent_entries
                   | Some (pek, pos, inode) \<Rightarrow>
                       if UNWATCHED_POSITION = pos then compact_loop re n f' existent_entries
                       else compact_loop re n f'
                              (smap_put (pe_path_pattern pek)
                                 (drop (length (pe_path_pattern pek)) line_str) existent_entries)))"
  by pat_completeness auto
termination
  by (relation "measure (\<lambda>(re, n, f, m). length (p_data f) - p_pos f)")
    (simp, insert fgets_progress, fastforce+)

declare compact_loop.simps [simp del]

definition PositionFile_compact ::
  "bool \<Rightarrow> bool \<Rightarrow> (string \<Rightarrow> pcre2_code option) \<Rightarrow> pstream \<Rightarrow> bool \<times> pstream" where
  "PositionFile_compact malloc_ok ftruncate_ok re file =
     (let f0 = p_fseek 0 file
      in if \<not> malloc_ok then (False, f0)
         else case compact_loop re (length (p_data f0) + 1) f0 [] of
                (f1, existent_entries) \<Rightarrow>
                  if \<not> ftruncate_ok then (False, f1)
                  else (True, fold (\<lambda>(k, v). p_fwrite (k @ v)) existent_entries
                                (p_fseek 0 (f1\<lparr>p_data := []\<rparr>))))"

function parse_loop ::
  "(string \<Rightarrow> pcre2_code option) \<Rightarrow> nat \<Rightarrow> pstream \<Rightarrow> FilePositionEntryMap \<Rightarrow>
     pstream \<times> FilePositionEntryMap" where
  "parse_loop re n f pe_map =
     (case fgets n f of
        None \<Rightarrow> (f, pe_map)
      | Some (raw, f') \<Rightarrow>
          (let line_str = cstr raw
           in if line_str = [] then (f', pe_map)
              else case parseLine re line_str of
                     None \<Rightarrow> parse_loop re n f' pe_map
                   | Some (pek, pos, inode) \<Rightarrow>
                       parse_loop re n f'
                         (smap_put pek
                            (p_pos f' - length line_str + length (pe_path_pattern pek) + 1
                              + length (pe_path pek) + 1) pe_map)))"
  by pat_completeness auto
termination
  by (relation "measure (\<lambda>(re, n, f, m). length (p_data f) - p_pos f)")
    (simp, insert fgets_progress, fastforce+)

declare parse_loop.simps [simp del]

definition PositionFile_parse ::
  "bool \<Rightarrow> bool \<Rightarrow> (string \<Rightarrow> pcre2_code option) \<Rightarrow> pstream \<Rightarrow> PositionFile option \<times> pstream" where
  "PositionFile_parse malloc_ok ftruncate_ok re file =
     (let f0 = p_fseek 0 (snd (PositionFile_compact malloc_ok ftruncate_ok re file))
      in if \<not> malloc_ok then (None, f0)
         else case parse_loop re (length (p_data f0) + 1) f0 [] of
                (f1, pe_map) \<Rightarrow> (Some (PositionFile_new pe_map (p_pos f1)), f1))"

section \<open>The file as a list of entries\<close>

text \<open>
  The abstract content of the file: one entry (key, position, inode) per line, oldest
  first. A key can occur more than once, since removing it from the map keeps its line.
\<close>

type_synonym pentry = "PositionEntryKey \<times> int \<times> int"

abbreviation e_key :: "pentry \<Rightarrow> PositionEntryKey" where "e_key e \<equiv> fst e"
abbreviation e_pos :: "pentry \<Rightarrow> int" where "e_pos e \<equiv> fst (snd e)"
abbreviation e_ino :: "pentry \<Rightarrow> int" where "e_ino e \<equiv> snd (snd e)"

definition entry_prefix :: "PositionEntryKey \<Rightarrow> string" where
  "entry_prefix k = pe_path_pattern k @ [TAB] @ pe_path k @ [TAB]"

definition entry_body :: "pentry \<Rightarrow> string" where
  "entry_body e = entry_prefix (e_key e) @ pos_field (e_pos e) @ [TAB] @ ino_field (e_ino e)"

definition entry_line :: "pentry \<Rightarrow> string" where
  "entry_line e = entry_body e @ [NL]"

definition image_of :: "pentry list \<Rightarrow> char list" where
  "image_of es = concat (map entry_line es)"

definition seek_at :: "pentry list \<Rightarrow> nat \<Rightarrow> nat" where
  "seek_at es i = length (image_of (take i es)) + length (entry_prefix (e_key (es ! i)))"

definition pf_rep :: "pentry list \<Rightarrow> PositionFile \<Rightarrow> pstream \<Rightarrow> bool" where
  "pf_rep es pf f \<longleftrightarrow>
     p_data f = image_of es \<and> m_last_pos pf = length (p_data f) \<and> smap_ok (m_pe_map pf) \<and>
     (\<forall>k s. smap_find (m_pe_map pf) k = Some s \<longrightarrow>
        (\<exists>i < length es. e_key (es ! i) = k \<and> s = seek_at es i))"

lemma image_of_simps [simp]:
  "image_of [] = []"
  "image_of (e # es) = entry_line e @ image_of es"
  "image_of (es @ es') = image_of es @ image_of es'"
  by (simp_all add: image_of_def)

lemma entry_line_length: "length (entry_line e) = length (entry_prefix (e_key e)) + 26"
  by (simp add: entry_line_def entry_body_def)

lemma image_of_length: "length (image_of es) = sum_list (map (\<lambda>e. length (entry_prefix (e_key e)) + 26) es)"
  by (induction es) (simp_all add: entry_line_length)

lemma image_of_length_keys: "map fst es = map fst es' \<Longrightarrow> length (image_of es) = length (image_of es')"
proof -
  assume "map fst es = map fst es'"
  then have "map (\<lambda>k. length (entry_prefix k) + 26) (map fst es)
      = map (\<lambda>k. length (entry_prefix k) + 26) (map fst es')"
    by (rule arg_cong)
  then show ?thesis by (simp add: image_of_length comp_def)
qed

lemma seek_at_keys:
  assumes "map fst es = map fst es'" and "i < length es"
  shows "seek_at es i = seek_at es' i"
proof -
  have "map fst (take i es) = map fst (take i es')" using assms(1) by (simp flip: take_map)
  then have "length (image_of (take i es)) = length (image_of (take i es'))"
    by (rule image_of_length_keys)
  moreover have "fst (es ! i) = fst (es' ! i)"
    using assms by (metis length_map nth_map)
  ultimately show ?thesis by (simp add: seek_at_def)
qed

lemma image_of_split:
  "i < length es \<Longrightarrow> image_of es = image_of (take i es) @ entry_line (es ! i) @ image_of (drop (Suc i) es)"
  using arg_cong [OF id_take_nth_drop [of i es], of image_of] by simp

lemma image_of_at:
  "i < length es \<Longrightarrow> image_of es =
     (image_of (take i es) @ entry_prefix (e_key (es ! i))) @
     (pos_field (e_pos (es ! i)) @ [TAB] @ ino_field (e_ino (es ! i))) @ [NL] @ image_of (drop (Suc i) es)"
  by (simp add: image_of_split [of i es] entry_line_def entry_body_def)

lemma write_entry:
  assumes "i < length es"
  shows "write_at (seek_at es i) (pos_field p @ [TAB] @ ino_field n) (image_of es)
      = image_of (es[i := (e_key (es ! i), p, n)])"
proof -
  let ?es' = "es[i := (e_key (es ! i), p, n)]"
  have "write_at (seek_at es i) (pos_field p @ [TAB] @ ino_field n) (image_of es)
      = (image_of (take i es) @ entry_prefix (e_key (es ! i))) @ (pos_field p @ [TAB] @ ino_field n)
          @ [NL] @ image_of (drop (Suc i) es)"
    unfolding image_of_at [OF assms] seek_at_def length_append [symmetric]
    by (rule write_at_append) simp
  also have "\<dots> = image_of ?es'"
    using image_of_at [of i ?es'] assms by simp
  finally show ?thesis .
qed

lemma write_entry_pos:
  assumes "i < length es"
  shows "write_at (seek_at es i) (pos_field p) (image_of es)
      = image_of (es[i := (e_key (es ! i), p, e_ino (es ! i))])"
proof -
  let ?es' = "es[i := (e_key (es ! i), p, e_ino (es ! i))]"
  have split: "image_of es = (image_of (take i es) @ entry_prefix (e_key (es ! i))) @
     pos_field (e_pos (es ! i)) @ ([TAB] @ ino_field (e_ino (es ! i)) @ [NL] @ image_of (drop (Suc i) es))"
    by (subst image_of_at [OF assms]) simp
  have "write_at (seek_at es i) (pos_field p) (image_of es)
      = (image_of (take i es) @ entry_prefix (e_key (es ! i))) @ pos_field p
          @ ([TAB] @ ino_field (e_ino (es ! i)) @ [NL] @ image_of (drop (Suc i) es))"
    unfolding split seek_at_def length_append [symmetric] by (rule write_at_append) simp
  also have "\<dots> = image_of ?es'"
    using image_of_at [of i ?es'] assms by simp
  finally show ?thesis .
qed

lemma map_fst_update: "i < length es \<Longrightarrow> map fst (es[i := (e_key (es ! i), x)]) = map fst es"
  by (simp add: map_update list_update_same_conv)

lemma pf_rep_keys:
  assumes "pf_rep es pf f" and "map fst es' = map fst es" and "p_data f' = image_of es'"
  shows "pf_rep es' pf f'"
proof -
  have len: "length es' = length es" using assms(2) by (metis length_map)
  have ent: "e_key (es' ! i) = e_key (es ! i) \<and> seek_at es' i = seek_at es i" if "i < length es" for i
    using assms(2) that len seek_at_keys [OF assms(2)] by (metis nth_map)
  have "\<exists>i < length es'. e_key (es' ! i) = k \<and> s = seek_at es' i"
    if "smap_find (m_pe_map pf) k = Some s" for k s
  proof -
    obtain i where "i < length es" "e_key (es ! i) = k" "s = seek_at es i"
      using assms(1) \<open>smap_find (m_pe_map pf) k = Some s\<close> unfolding pf_rep_def by blast
    then show ?thesis using ent len by (intro exI [of _ i]) simp
  qed
  then show ?thesis
    using assms(1,3) image_of_length_keys [OF assms(2)] by (simp add: pf_rep_def)
qed

lemma entry_at_rep:
  assumes "pf_rep es pf f" and "i < length es"
  shows "entry_at (seek_at es i) f" and "pos_text (seek_at es i) f = pos_field (e_pos (es ! i))"
    and "ino_text (seek_at es i) f = ino_field (e_ino (es ! i))"
proof -
  have d: "p_data f = (image_of (take i es) @ entry_prefix (e_key (es ! i))) @
     (pos_field (e_pos (es ! i)) @ [TAB] @ ino_field (e_ino (es ! i))) @ [NL] @ image_of (drop (Suc i) es)"
    using assms image_of_at [of i es] by (simp add: pf_rep_def)
  show "entry_at (seek_at es i) f" by (simp add: entry_at_def LN_OFFSET_def seek_at_def d)
  show "pos_text (seek_at es i) f = pos_field (e_pos (es ! i))"
    by (simp add: pos_text_def seek_at_def d)
  show "ino_text (seek_at es i) f = ino_field (e_ino (es ! i))"
    by (simp add: ino_text_def seek_at_def d)
qed

lemma read_rep:
  assumes "pf_rep es pf f" and "i < length es"
  shows "storable_pos (e_pos (es ! i)) \<Longrightarrow> fst (FilePE_readPos (seek_at es i) f) = e_pos (es ! i)"
    and "storable_ino (e_ino (es ! i)) \<Longrightarrow> fst (FilePE_readInode (seek_at es i) f) = e_ino (es ! i)"
  using entry_at_rep [OF assms]
  by (simp_all add: readPos_text readInode_text read_pos_field_storable read_ino_field u32_storable)

section \<open>Operations on the list\<close>

lemma update_rep:
  assumes "pf_rep es pf f" and "i < length es"
  shows "pf_rep (es[i := (e_key (es ! i), p, n)]) pf (FilePE_update (seek_at es i) n p f)"
proof (rule pf_rep_keys [OF assms(1)])
  show "map fst (es[i := (e_key (es ! i), p, n)]) = map fst es"
    using assms(2) by (rule map_fst_update)
  show "p_data (FilePE_update (seek_at es i) n p f) = image_of (es[i := (e_key (es ! i), p, n)])"
    using assms write_entry by (simp add: FilePE_update_def p_fwrite_def p_fseek_def pf_rep_def)
qed

lemma updatePos_rep:
  assumes "pf_rep es pf f" and "i < length es"
  shows "pf_rep (es[i := (e_key (es ! i), p, e_ino (es ! i))]) pf (FilePE_updatePos (seek_at es i) p f)"
proof (rule pf_rep_keys [OF assms(1)])
  show "map fst (es[i := (e_key (es ! i), p, e_ino (es ! i))]) = map fst es"
    using assms(2) by (rule map_fst_update)
  show "p_data (FilePE_updatePos (seek_at es i) p f) = image_of (es[i := (e_key (es ! i), p, e_ino (es ! i))])"
    using assms write_entry_pos by (simp add: FilePE_updatePos_def p_fwrite_def p_fseek_def pf_rep_def)
qed

lemma seek_at_append: "i < length es \<Longrightarrow> seek_at (es @ es') i = seek_at es i"
  by (simp add: seek_at_def nth_append)

lemma pf_rep_snoc:
  assumes "pf_rep es pf f"
  shows "pf_rep (es @ [(k, p, n)])
      (pf\<lparr>m_last_pos := length (image_of (es @ [(k, p, n)])),
          m_pe_map := smap_put k (seek_at (es @ [(k, p, n)]) (length es)) (m_pe_map pf)\<rparr>)
      \<lparr>p_data = image_of (es @ [(k, p, n)]), p_pos = off\<rparr>"
proof -
  let ?es' = "es @ [(k, p, n)]"
  have "\<exists>i < length ?es'. e_key (?es' ! i) = j \<and> s = seek_at ?es' i"
    if "smap_find (smap_put k (seek_at ?es' (length es)) (m_pe_map pf)) j = Some s" for j s
  proof (cases "j = k")
    case True
    with that show ?thesis by (intro exI [of _ "length es"]) (simp add: smap_simps)
  next
    case False
    with that have "smap_find (m_pe_map pf) j = Some s" by (simp add: smap_simps)
    then obtain i where "i < length es" "e_key (es ! i) = j" "s = seek_at es i"
      using assms by (auto simp: pf_rep_def)
    then show ?thesis by (intro exI [of _ i]) (simp add: seek_at_append nth_append)
  qed
  then show ?thesis using assms by (simp add: pf_rep_def sm.ok_put)
qed

lemma zero_fields: "pos_field 0 = ''0000000000000000''" "ino_field 0 = ''00000000''"
  by code_simp+

lemma p_fwrite_end: "p_pos f = length (p_data f) \<Longrightarrow>
    p_fwrite bs f = \<lparr>p_data = p_data f @ bs, p_pos = length (p_data f @ bs)\<rparr>"
  by (simp add: p_fwrite_def write_at_def)

lemma index_new:
  assumes "pf_rep es pf f" and "smap_find (m_pe_map pf) k = None"
  shows "\<exists>pf' f'. PositionFile_index k (pf, f) = (seek_at (es @ [(k, 0, 0)]) (length es), (pf', f'))
      \<and> pf_rep (es @ [(k, 0, 0)]) pf' f'
      \<and> smap_find (m_pe_map pf') k = Some (seek_at (es @ [(k, 0, 0)]) (length es))"
proof -
  let ?es' = "es @ [(k, 0, 0)]"
  let ?pf' = "pf\<lparr>m_last_pos := length (image_of ?es'),
      m_pe_map := smap_put k (seek_at ?es' (length es)) (m_pe_map pf)\<rparr>"
  let ?f' = "\<lparr>p_data = image_of ?es', p_pos = length (image_of ?es')\<rparr>"
  have "m_last_pos pf = length (p_data f)" "p_data f = image_of es"
    using assms(1) by (simp_all add: pf_rep_def)
  then have "PositionFile_index k (pf, f) = (seek_at ?es' (length es), (?pf', ?f'))"
    using assms(2)
    by (simp add: PositionFile_index_def p_fseek_def p_fwrite_end Let_def seek_at_def
        entry_prefix_def entry_line_def entry_body_def zero_fields)
  then show ?thesis using pf_rep_snoc [OF assms(1)] by (simp add: smap_simps)
qed

lemma index_old:
  "smap_find (m_pe_map pf) k = Some s \<Longrightarrow> PositionFile_index k (pf, f) = (s, (pf, f))"
  by (simp add: PositionFile_index_def)

lemma remove_rep: "pf_rep es pf f \<Longrightarrow> pf_rep es (PositionFile_remove k pf) f"
  by (auto simp: pf_rep_def PositionFile_remove_def smap_simps sm.ok_erase split: if_splits)

section \<open>Reading the file back\<close>

text \<open>
  The strings the pattern of \<open>parseLine\<close> describes, with its four groups: two non-empty
  fields without tabs and two fields of hexadecimal digits, separated by tabs, to the end
  of the subject or to a newline that ends it. \<open>pcre2_position_ok\<close> is the documented
  behaviour of PCRE2 on this pattern.
\<close>

definition position_fields :: "string \<Rightarrow> string \<Rightarrow> string \<Rightarrow> string \<Rightarrow> string \<Rightarrow> bool" where
  "position_fields line a b c d \<longleftrightarrow>
     (line = a @ [TAB] @ b @ [TAB] @ c @ [TAB] @ d \<or>
      line = a @ [TAB] @ b @ [TAB] @ c @ [TAB] @ d @ [NL]) \<and>
     a \<noteq> [] \<and> b \<noteq> [] \<and> c \<noteq> [] \<and> d \<noteq> [] \<and> TAB \<notin> set a \<and> TAB \<notin> set b \<and>
     (\<forall>x \<in> set c. is_digit_of 16 x) \<and> (\<forall>x \<in> set d. is_digit_of 16 x)"

definition ovector_ok :: "(nat \<Rightarrow> nat) \<Rightarrow> string \<Rightarrow> string \<Rightarrow> string \<Rightarrow> string \<Rightarrow> bool" where
  "ovector_ok ov a b c d \<longleftrightarrow>
     ov 2 = 0 \<and> ov 3 = length a \<and>
     ov 4 = length a + 1 \<and> ov 5 = length a + 1 + length b \<and>
     ov 6 = length a + 1 + length b + 1 \<and> ov 7 = length a + 1 + length b + 1 + length c \<and>
     ov 8 = length a + 1 + length b + 1 + length c + 1 \<and>
     ov 9 = length a + 1 + length b + 1 + length c + 1 + length d"

definition pcre2_position_ok :: "(string \<Rightarrow> pcre2_code option) \<Rightarrow> bool" where
  "pcre2_position_ok pcre2_compile \<longleftrightarrow>
     (\<exists>re. pcre2_compile POSITION_PATTERN = Some re \<and>
        (\<forall>line a b c d. position_fields line a b c d \<longrightarrow>
           fst (re line) > 0 \<and> ovector_ok (snd (re line)) a b c d) \<and>
        (\<forall>line. (\<nexists>a b c d. position_fields line a b c d) \<longrightarrow> fst (re line) \<le> 0))"

text \<open>Keys the format can carry.\<close>

definition key_ok :: "PositionEntryKey \<Rightarrow> bool" where
  "key_ok k \<longleftrightarrow>
     pe_path_pattern k \<noteq> [] \<and> pe_path k \<noteq> [] \<and>
     set (pe_path_pattern k @ pe_path k) \<inter> {TAB, NL, NUL} = {}"

lemma key_okD:
  assumes "key_ok k"
  shows "pe_path_pattern k \<noteq> []" "pe_path k \<noteq> []"
    "c \<in> set (pe_path_pattern k) \<union> set (pe_path k) \<Longrightarrow> c \<noteq> TAB \<and> c \<noteq> NL \<and> c \<noteq> NUL"
  using assms by (auto simp: key_ok_def)

lemma entry_line_fields:
  "key_ok (e_key e) \<Longrightarrow>
    position_fields (entry_line e) (pe_path_pattern (e_key e)) (pe_path (e_key e))
      (pos_field (e_pos e)) (ino_field (e_ino e))"
  using fmt_hex_digits
  by (auto simp: position_fields_def entry_line_def entry_body_def entry_prefix_def
      pos_field_def ino_field_def dest: key_okD)

lemma substr_mid: "substr (x @ y @ z) (length x) (length y) = y"
  by (simp add: substr_def)

lemma groups:
  assumes "ovector_ok ov a b c d" and line: "line = a @ [TAB] @ b @ [TAB] @ c @ [TAB] @ d @ r"
  shows "group line ov 1 = a" "group line ov 2 = b" "group line ov 3 = c" "group line ov 4 = d"
  using assms(1) substr_mid [of "[]" a "[TAB] @ b @ [TAB] @ c @ [TAB] @ d @ r"]
    substr_mid [of "a @ [TAB]" b "[TAB] @ c @ [TAB] @ d @ r"]
    substr_mid [of "a @ [TAB] @ b @ [TAB]" c "[TAB] @ d @ r"]
    substr_mid [of "a @ [TAB] @ b @ [TAB] @ c @ [TAB]" d r]
  by (simp_all add: group_def ovector_ok_def line add.assoc)

definition dec_pos :: "int \<Rightarrow> int" where
  "dec_pos p = (if u64 p < LONG_MAX then u64 p else - 1)"

lemma parseLine_entry:
  assumes "pcre2_position_ok re" and "key_ok (e_key e)"
  shows "parseLine re (entry_line e) = Some (e_key e, dec_pos (e_pos e), u32 (e_ino e))"
proof -
  let ?a = "pe_path_pattern (e_key e)" and ?b = "pe_path (e_key e)"
  let ?c = "pos_field (e_pos e)" and ?d = "ino_field (e_ino e)"
  obtain m where m: "re POSITION_PATTERN = Some m"
    and ok: "fst (m (entry_line e)) > 0" "ovector_ok (snd (m (entry_line e))) ?a ?b ?c ?d"
    using assms entry_line_fields unfolding pcre2_position_ok_def by blast
  have pre: "entry_line e = ?a @ [TAB] @ ?b @ [TAB] @ ?c @ [TAB] @ ?d @ [NL]"
    by (simp add: entry_line_def entry_body_def entry_prefix_def)
  have "hexstr2num (Some ?c) (- 1) = dec_pos (e_pos e)"
    using u64_range by (simp add: pos_field_def hexstr2num_fmt_hex dec_pos_def)
  moreover have "u64 (hexstr2num (Some ?d) 0) = u32 (e_ino e)"
    using u32_range [of "e_ino e"] by (simp add: ino_field_def hexstr2num_fmt_hex u64_id)
  ultimately show ?thesis
    using m ok groups [OF ok(2) pre] by (simp add: parseLine_def case_prod_beta)
qed

lemma entry_body_clean: "key_ok (e_key e) \<Longrightarrow> NL \<notin> set (entry_body e) \<and> NUL \<notin> set (entry_body e)"
  using key_okD(3) [of "e_key e"] fmt_hex_clean
  by (fastforce simp: entry_body_def entry_prefix_def pos_field_def ino_field_def)

lemma entry_line_cstr: "key_ok (e_key e) \<Longrightarrow> cstr (entry_line e) = entry_line e"
  using entry_body_clean [of e] by (intro cstr_id) (simp add: entry_line_def)

lemma entry_line_nonempty [simp]: "entry_line e \<noteq> []"
  by (simp add: entry_line_def)

lemma next_line_entry: "key_ok (e_key e) \<Longrightarrow> next_line (entry_line e @ r) = entry_line e"
  using entry_body_clean [of e]
  by (simp add: next_line_def entry_line_def takeWhile_neq dropWhile_neq)

lemma fgets_entry:
  assumes "key_ok (e_key e)" and "p_data f = pre @ entry_line e @ post" and "p_pos f = length pre"
    and "n = length (p_data f) + 1"
  shows "fgets n f = Some (entry_line e, f\<lparr>p_pos := length (pre @ entry_line e)\<rparr>)"
proof -
  have "drop (p_pos f) (p_data f) = entry_line e @ post" using assms(2,3) by simp
  moreover have "n \<noteq> 0" "n \<noteq> 1" "take (n - 1) (entry_line e) = entry_line e"
    using assms(2,4) by simp_all
  ultimately show ?thesis
    using next_line_entry [OF assms(1)] assms(3) by (simp add: fgets_def Let_def)
qed

lemma fgets_end:
  assumes "p_pos f = length (p_data f)" and "n = length (p_data f) + 1"
  shows "fgets n f = None \<or> fgets n f = Some ([], f)"
  using assms by (simp add: fgets_def)

text \<open>The map the parsing loop builds, and that it is the map of the entries.\<close>

fun entries_map :: "nat \<Rightarrow> pentry list \<Rightarrow> FilePositionEntryMap \<Rightarrow> FilePositionEntryMap" where
  "entries_map off [] m = m"
| "entries_map off (e # es) m =
     entries_map (off + length (entry_line e)) es
       (smap_put (e_key e) (off + length (entry_prefix (e_key e))) m)"

lemma parse_loop_entries:
  assumes "pcre2_position_ok re" and "\<forall>e \<in> set es. key_ok (e_key e)"
    and "p_data f = pre @ image_of es" and "p_pos f = length pre" and "n = length (p_data f) + 1"
  shows "parse_loop re n f m = (f\<lparr>p_pos := length (p_data f)\<rparr>, entries_map (length pre) es m)"
  using assms(2-5)
proof (induction es arbitrary: f pre m)
  case Nil
  then have "f\<lparr>p_pos := length (p_data f)\<rparr> = f" by simp
  then show ?case
    using fgets_end [of f n] Nil by (subst parse_loop.simps) (auto simp: cstr_def)
next
  case (Cons e es)
  let ?f' = "f\<lparr>p_pos := length (pre @ entry_line e)\<rparr>"
  have k: "key_ok (e_key e)" using Cons.prems(1) by simp
  have "fgets n f = Some (entry_line e, ?f')"
    using Cons.prems by (intro fgets_entry [OF k, where post = "image_of es"]) simp_all
  then have "parse_loop re n f m = parse_loop re n ?f'
      (smap_put (e_key e) (length pre + length (entry_prefix (e_key e))) m)"
    using parseLine_entry [OF assms(1) k] entry_line_cstr [OF k]
    by (subst parse_loop.simps) (simp add: entry_prefix_def add.assoc)
  also have "\<dots> = (f\<lparr>p_pos := length (p_data f)\<rparr>, entries_map (length pre) (e # es) m)"
    using Cons.prems Cons.IH [of ?f' "pre @ entry_line e"] by simp
  finally show ?case .
qed

lemma entries_map_rep:
  assumes "pf_rep done (PositionFile_new m (length (image_of done))) \<lparr>p_data = image_of done, p_pos = x\<rparr>"
  shows "pf_rep (done @ es)
      (PositionFile_new (entries_map (length (image_of done)) es m) (length (image_of (done @ es))))
      \<lparr>p_data = image_of (done @ es), p_pos = y\<rparr>"
  using assms
proof (induction es arbitrary: "done" m x)
  case Nil
  then show ?case by (simp add: pf_rep_def)
next
  case (Cons e es)
  obtain k p n where e: "e = (k, p, n)" by (cases e)
  have "pf_rep (done @ [e])
      (PositionFile_new (smap_put k (length (image_of done) + length (entry_prefix k)) m)
        (length (image_of (done @ [e])))) \<lparr>p_data = image_of (done @ [e]), p_pos = x\<rparr>"
    using pf_rep_snoc [OF Cons.prems, of k p n x] by (simp add: PositionFile_new_def seek_at_def e)
  from Cons.IH [OF this] show ?case by (simp add: e)
qed

section \<open>Compaction\<close>

text \<open>
  An entry is watched unless its position reads as the unwatched mark. Compaction keeps
  the last watched entry of every pattern, in the order of the patterns.
\<close>

definition watched :: "pentry \<Rightarrow> bool" where
  "watched e \<longleftrightarrow> dec_pos (e_pos e) \<noteq> UNWATCHED_POSITION"

definition e_pattern :: "pentry \<Rightarrow> string" where
  "e_pattern e = pe_path_pattern (e_key e)"

definition keep_entry :: "pentry \<Rightarrow> (string, pentry) smap \<Rightarrow> (string, pentry) smap" where
  "keep_entry e m = (if watched e then smap_put (e_pattern e) e m else m)"

definition compacted :: "pentry list \<Rightarrow> pentry list" where
  "compacted es = map snd (fold keep_entry es [])"

definition last_watched :: "string \<Rightarrow> pentry list \<Rightarrow> pentry option" where
  "last_watched q es = List.find (\<lambda>e. e_pattern e = q \<and> watched e) (rev es)"

text \<open>The loop's map holds each kept line without its pattern.\<close>

definition rest_of_line :: "string \<times> pentry \<Rightarrow> string \<times> string" where
  "rest_of_line ke = (fst ke, drop (length (fst ke)) (entry_line (snd ke)))"

lemma smap_put_map:
  "(\<And>k v. fst (g (k, v)) = k) \<Longrightarrow> map g (smap_put k v m) = smap_put k (snd (g (k, v))) (map g m)"
proof (induction m)
  case Nil
  then show ?case by (metis list.simps(8,9) prod.collapse smap_put.simps(1))
next
  case (Cons p m)
  obtain a b where p: "p = (a, b)" by (cases p)
  obtain b' where "g (a, b) = (a, b')" using Cons.prems by (metis prod.collapse)
  moreover have "g (k, v) = (k, snd (g (k, v)))" using Cons.prems by (metis prod.collapse)
  ultimately show ?case using Cons by (simp add: p)
qed

lemma map_rest_of_line_keep:
  "map rest_of_line (keep_entry e m) =
    (if watched e then smap_put (e_pattern e) (drop (length (e_pattern e)) (entry_line e)) (map rest_of_line m)
     else map rest_of_line m)"
  using smap_put_map [of rest_of_line "e_pattern e" e m]
  by (simp add: keep_entry_def rest_of_line_def)

lemma compact_loop_entries:
  assumes "pcre2_position_ok re" and "\<forall>e \<in> set es. key_ok (e_key e)"
    and "p_data f = pre @ image_of es" and "p_pos f = length pre" and "n = length (p_data f) + 1"
  shows "compact_loop re n f (map rest_of_line m)
      = (f\<lparr>p_pos := length (p_data f)\<rparr>, map rest_of_line (fold keep_entry es m))"
  using assms(2-5)
proof (induction es arbitrary: f pre m)
  case Nil
  then have "f\<lparr>p_pos := length (p_data f)\<rparr> = f" by simp
  then show ?case
    using fgets_end [of f n] Nil by (subst compact_loop.simps) (auto simp: cstr_def)
next
  case (Cons e es)
  let ?f' = "f\<lparr>p_pos := length (pre @ entry_line e)\<rparr>"
  have k: "key_ok (e_key e)" using Cons.prems(1) by simp
  have "fgets n f = Some (entry_line e, ?f')"
    using Cons.prems by (intro fgets_entry [OF k, where post = "image_of es"]) simp_all
  then have "compact_loop re n f (map rest_of_line m)
      = compact_loop re n ?f' (map rest_of_line (keep_entry e m))"
    using parseLine_entry [OF assms(1) k] entry_line_cstr [OF k] map_rest_of_line_keep [of e m]
    by (subst compact_loop.simps) (simp add: watched_def e_pattern_def)
  also have "\<dots> = (f\<lparr>p_pos := length (p_data f)\<rparr>, map rest_of_line (fold keep_entry (e # es) m))"
    using Cons.prems Cons.IH [of ?f' "pre @ entry_line e" "keep_entry e m"] by simp
  finally show ?case .
qed

lemma smap_put_mem: "x \<in> set (smap_put k v m) \<Longrightarrow> x = (k, v) \<or> x \<in> set m"
  by (induction m) (auto split: if_splits)

lemma keep_entry_mem: "ke \<in> set (keep_entry e m) \<Longrightarrow> ke = (e_pattern e, e) \<or> ke \<in> set m"
  by (cases "watched e") (auto simp: keep_entry_def dest: smap_put_mem)

lemma keep_entries_mem:
  "ke \<in> set (fold keep_entry es m) \<Longrightarrow> (\<exists>e \<in> set es. ke = (e_pattern e, e)) \<or> ke \<in> set m"
proof (induction es arbitrary: m)
  case (Cons e es)
  then have "(\<exists>e \<in> set es. ke = (e_pattern e, e)) \<or> ke \<in> set (keep_entry e m)" by simp
  then show ?case using keep_entry_mem [of ke e m] by auto
qed simp

lemma write_all:
  "p_pos f = length (p_data f) \<Longrightarrow>
    fold (\<lambda>(k, v). p_fwrite (k @ v)) m f
      = \<lparr>p_data = p_data f @ concat (map (\<lambda>(k, v). k @ v) m),
         p_pos = length (p_data f @ concat (map (\<lambda>(k, v). k @ v) m))\<rparr>"
  by (induction m arbitrary: f) (auto simp: p_fwrite_end)

lemma line_of_rest: "fst ke = e_pattern (snd ke) \<Longrightarrow> (\<lambda>(k, v). k @ v) (rest_of_line ke) = entry_line (snd ke)"
  by (simp add: rest_of_line_def entry_line_def entry_body_def entry_prefix_def e_pattern_def)

lemma compact_entries:
  assumes "pcre2_position_ok re" and "\<forall>e \<in> set es. key_ok (e_key e)" and "p_data file = image_of es"
  shows "\<exists>x. PositionFile_compact True True re file = (True, \<lparr>p_data = image_of (compacted es), p_pos = x\<rparr>)"
proof -
  let ?m = "fold keep_entry es []"
  have "compact_loop re (length (p_data file) + 1) (p_fseek 0 file) (map rest_of_line [])
      = ((p_fseek 0 file)\<lparr>p_pos := length (p_data file)\<rparr>, map rest_of_line ?m)"
    using assms by (subst compact_loop_entries [where pre = "[]"]) (simp_all add: p_fseek_def)
  moreover have "concat (map (\<lambda>(k, v). k @ v) (map rest_of_line ?m)) = image_of (compacted es)"
  proof -
    have "map (\<lambda>(k, v). k @ v) (map rest_of_line ?m) = map (\<lambda>ke. entry_line (snd ke)) ?m"
      unfolding map_map
    proof (rule map_cong)
      fix ke assume "ke \<in> set ?m"
      then have "fst ke = e_pattern (snd ke)" using keep_entries_mem [of ke es "[]"] by auto
      then show "((\<lambda>(k, v). k @ v) \<circ> rest_of_line) ke = entry_line (snd ke)"
        using line_of_rest by simp
    qed simp
    from arg_cong [OF this, of concat] show ?thesis
      by (simp only: image_of_def compacted_def map_map comp_def)
  qed
  ultimately show ?thesis
    using write_all [of "file\<lparr>p_data := [], p_pos := 0\<rparr>" "map rest_of_line ?m"]
    by (simp add: PositionFile_compact_def p_fseek_def Let_def)
qed

lemma find_keep_entries:
  "smap_find (fold keep_entry es m) q = (case last_watched q es of Some e \<Rightarrow> Some e | None \<Rightarrow> smap_find m q)"
proof (induction es rule: rev_induct)
  case (snoc e es)
  then show ?case by (simp add: keep_entry_def last_watched_def smap_simps)
qed (simp add: last_watched_def)

lemma ok_keep_entries: "smap_ok m \<Longrightarrow> smap_ok (fold keep_entry es m)"
  by (induction es arbitrary: m) (simp_all add: keep_entry_def sm.ok_put)

lemma compacted_mem: "e \<in> set (compacted es) \<longleftrightarrow> last_watched (e_pattern e) es = Some e"
proof
  let ?m = "fold keep_entry es []"
  assume "e \<in> set (compacted es)"
  then obtain q where "(q, e) \<in> set ?m" by (auto simp: compacted_def)
  moreover from this have "q = e_pattern e" using keep_entries_mem [of "(q, e)" es "[]"] by auto
  ultimately have "smap_find ?m (e_pattern e) = Some e"
    by (simp add: smap_mem_find ok_keep_entries)
  then show "last_watched (e_pattern e) es = Some e"
    by (simp add: find_keep_entries split: option.splits)
next
  assume "last_watched (e_pattern e) es = Some e"
  then have "smap_find (fold keep_entry es []) (e_pattern e) = Some e"
    by (simp add: find_keep_entries)
  then show "e \<in> set (compacted es)" by (force simp: compacted_def dest: smap_find_mem)
qed

lemma find_SomeD: "List.find P xs = Some x \<Longrightarrow> x \<in> set xs \<and> P x"
  by (induction xs) (auto split: if_splits)

lemma last_watched_SomeD: "last_watched q es = Some e \<Longrightarrow> e \<in> set es \<and> e_pattern e = q \<and> watched e"
  unfolding last_watched_def by (drule find_SomeD) simp

lemma compacted_subset: "e \<in> set (compacted es) \<Longrightarrow> e \<in> set es"
  by (auto simp: compacted_mem dest: last_watched_SomeD)

lemma compacted_patterns: "e \<in> set (compacted es) \<Longrightarrow> e' \<in> set (compacted es) \<Longrightarrow>
    e_pattern e = e_pattern e' \<Longrightarrow> e = e'"
  by (simp add: compacted_mem)

lemma entries_map_keys:
  "smap_find (entries_map off es m) k \<noteq> None \<longleftrightarrow> k \<in> fst ` set es \<or> smap_find m k \<noteq> None"
  by (induction es arbitrary: off m) (auto simp: smap_simps)

lemma parse_entries:
  assumes "pcre2_position_ok re" and "\<forall>e \<in> set es. key_ok (e_key e)" and "p_data file = image_of es"
  shows "\<exists>pf f. PositionFile_parse True True re file = (Some pf, f) \<and> pf_rep (compacted es) pf f \<and>
    (\<forall>k. smap_find (m_pe_map pf) k \<noteq> None \<longleftrightarrow> k \<in> fst ` set (compacted es))"
proof -
  let ?es = "compacted es"
  obtain x where c: "PositionFile_compact True True re file = (True, \<lparr>p_data = image_of ?es, p_pos = x\<rparr>)"
    using compact_entries [OF assms] by blast
  let ?f0 = "\<lparr>p_data = image_of ?es, p_pos = 0\<rparr>"
  let ?f1 = "\<lparr>p_data = image_of ?es, p_pos = length (image_of ?es)\<rparr>"
  let ?pf = "PositionFile_new (entries_map 0 ?es []) (length (image_of ?es))"
  have "parse_loop re (length (image_of ?es) + 1) ?f0 [] = (?f1, entries_map 0 ?es [])"
    using assms compacted_subset by (subst parse_loop_entries [where pre = "[]" and es = ?es]) auto
  then have "PositionFile_parse True True re file = (Some ?pf, ?f1)"
    by (simp add: PositionFile_parse_def c p_fseek_def Let_def)
  moreover have "pf_rep ?es ?pf ?f1"
    using entries_map_rep [of "[]" "[]" 0 ?es] by (simp add: pf_rep_def PositionFile_new_def smap_ok_def)
  moreover have "smap_find (m_pe_map ?pf) k \<noteq> None \<longleftrightarrow> k \<in> fst ` set ?es" for k
    using entries_map_keys [of 0 ?es "[]" k] by (simp add: PositionFile_new_def)
  ultimately show ?thesis by blast
qed

section \<open>The greatest path of a pattern\<close>

lemma find_rev_sorted:
  assumes "smap_ok m" and "List.find P (rev m) = Some x" and "y \<in> set m" and "P y"
  shows "fst y \<le> fst x"
  using assms
proof (induction m rule: rev_induct)
  case (snoc z m)
  show ?case
  proof (cases "P z")
    case True
    then show ?thesis using snoc.prems by (auto simp: smap_ok_def sorted_wrt_append)
  next
    case False
    then show ?thesis using snoc by (auto simp: smap_ok_def sorted_wrt_append)
  qed
qed simp

lemma key_le_path: "PositionEntryKey q p \<le> PositionEntryKey q p' \<longleftrightarrow> p \<le> p'"
  by (auto simp: less_eq_PositionEntryKey_def less_PositionEntryKey_def key_less_def)

lemma getPath_Some:
  assumes "PositionFile_getPath q pf = Some p"
  shows "\<exists>x. List.find (\<lambda>p. pe_path_pattern (fst p) = q) (rev (m_pe_map pf)) = Some x
    \<and> x \<in> set (m_pe_map pf) \<and> fst x = PositionEntryKey q p"
proof -
  obtain x where x: "List.find (\<lambda>p. pe_path_pattern (fst p) = q) (rev (m_pe_map pf)) = Some x"
    and p: "p = pe_path (fst x)"
    using assms by (auto simp: PositionFile_getPath_def)
  moreover have "x \<in> set (m_pe_map pf) \<and> pe_path_pattern (fst x) = q"
    using find_SomeD [OF x] by simp
  ultimately show ?thesis by (cases "fst x") auto
qed

lemma getPath_None: "PositionFile_getPath q pf = None \<longleftrightarrow> (\<forall>k \<in> fst ` set (m_pe_map pf). pe_path_pattern k \<noteq> q)"
  by (auto simp: PositionFile_getPath_def find_None_iff)

text \<open>
  C22: \<open>PositionFile::getPath\<close> answers, for a path pattern that has entries, the path of one of
  them and no entry of the pattern has a greater path; it answers nothing exactly when the
  pattern has no entry.
\<close>

theorem getPath_greatest:
  assumes "smap_ok (m_pe_map pf)"
  shows "case PositionFile_getPath q pf of
      None \<Rightarrow> \<forall>p. smap_find (m_pe_map pf) (PositionEntryKey q p) = None
    | Some p \<Rightarrow> smap_find (m_pe_map pf) (PositionEntryKey q p) \<noteq> None \<and>
        (\<forall>p'. smap_find (m_pe_map pf) (PositionEntryKey q p') \<noteq> None \<longrightarrow> p' \<le> p)"
proof (cases "PositionFile_getPath q pf")
  case None
  then have "PositionEntryKey q p \<notin> set (smap_keys (m_pe_map pf))" for p
    by (force simp: getPath_None smap_keys_def)
  with None show ?thesis by (simp add: sm.set_keys)
next
  case (Some p)
  then obtain x where x: "List.find (\<lambda>p. pe_path_pattern (fst p) = q) (rev (m_pe_map pf)) = Some x"
    and mem: "x \<in> set (m_pe_map pf)" and k: "fst x = PositionEntryKey q p"
    using getPath_Some by blast
  have "smap_find (m_pe_map pf) (PositionEntryKey q p) \<noteq> None"
    using smap_mem_find [OF assms, of "fst x" "snd x"] mem k by (cases x) simp
  moreover have "p' \<le> p" if "smap_find (m_pe_map pf) (PositionEntryKey q p') \<noteq> None" for p'
  proof -
    from that obtain s where "smap_find (m_pe_map pf) (PositionEntryKey q p') = Some s" by auto
    then have "(PositionEntryKey q p', s) \<in> set (m_pe_map pf)" by (rule smap_find_mem)
    from find_rev_sorted [OF assms x this] show ?thesis by (simp add: k key_le_path)
  qed
  ultimately show ?thesis using Some by simp
qed

definition sample_keys :: FilePositionEntryMap where
  "sample_keys = smap_put (PositionEntryKey ''/a.%d'' ''/a.2'') 40
     (smap_put (PositionEntryKey ''/a.%d'' ''/a.1'') 10 (smap_put (PositionEntryKey ''/b'' ''/b'') 70 []))"

lemma sample_keys_ok: "smap_ok sample_keys"
  unfolding sample_keys_def by (intro sm.ok_put smap_ok_Nil)

theorem getPath_greatest_witness:
  "PositionFile_getPath ''/a.%d'' (PositionFile_new sample_keys 96) = Some ''/a.2'' \<and>
   smap_find sample_keys (PositionEntryKey ''/a.%d'' ''/a.2'') \<noteq> None \<and> ''/a.1'' \<le> ''/a.2''"
proof -
  have "PositionFile_getPath ''/a.%d'' (PositionFile_new sample_keys 96) = Some ''/a.2''"
    "smap_find sample_keys (PositionEntryKey ''/a.%d'' ''/a.1'') = Some 10" by code_simp+
  then show ?thesis
    using getPath_greatest [of "PositionFile_new sample_keys 96" "''/a.%d''"] sample_keys_ok
    by (simp add: PositionFile_new_def)
qed

section \<open>Restart\<close>

lemma rep_lookup:
  assumes rep: "pf_rep es pf f" and uniq: "\<And>e'. e' \<in> set es \<Longrightarrow> e_key e' = e_key e \<Longrightarrow> e' = e"
    and find: "smap_find (m_pe_map pf) (e_key e) = Some s"
    and store: "storable_pos (e_pos e)" "storable_ino (e_ino e)"
  shows "fst (FilePE_readPos s f) = e_pos e \<and> fst (FilePE_readInode s f) = e_ino e"
proof -
  obtain i where i: "i < length es" "e_key (es ! i) = e_key e" "s = seek_at es i"
    using rep find unfolding pf_rep_def by blast
  then have "es ! i = e" using uniq by simp
  then show ?thesis using read_rep [OF rep i(1)] i(3) store by simp
qed

lemma getPath_compacted:
  assumes keys: "\<And>k. smap_find (m_pe_map pf) k \<noteq> None \<longleftrightarrow> k \<in> fst ` set (compacted es)"
  shows "PositionFile_getPath q pf = map_option (\<lambda>e. pe_path (e_key e)) (last_watched q es)"
proof (cases "last_watched q es")
  case None
  have "pe_path_pattern k \<noteq> q" if "k \<in> fst ` set (m_pe_map pf)" for k
  proof -
    have "k \<in> set (smap_keys (m_pe_map pf))" using that by (simp add: smap_keys_def)
    then obtain e where "e \<in> set (compacted es)" "e_key e = k" using keys by (auto simp: sm.set_keys)
    then show ?thesis using None by (auto simp: compacted_mem e_pattern_def)
  qed
  then show ?thesis using None getPath_None [of q pf] by simp
next
  case (Some e)
  then have e: "e \<in> set (compacted es)" "e_pattern e = q"
    using last_watched_SomeD [OF Some] by (simp_all add: compacted_mem)
  then have "e_key e \<in> set (smap_keys (m_pe_map pf))" using keys by (auto simp: sm.set_keys)
  then have "\<not> (\<forall>k \<in> fst ` set (m_pe_map pf). pe_path_pattern k \<noteq> q)"
    using e(2) by (auto simp: smap_keys_def e_pattern_def simp del: ball_simps)
  then have "PositionFile_getPath q pf \<noteq> None" using getPath_None by blast
  then obtain p x where p: "PositionFile_getPath q pf = Some p" and x: "x \<in> set (m_pe_map pf)"
      "fst x = PositionEntryKey q p"
    using getPath_Some by blast
  then have "PositionEntryKey q p \<in> set (smap_keys (m_pe_map pf))" by (force simp: smap_keys_def)
  then obtain e' where e': "e' \<in> set (compacted es)" "e_key e' = PositionEntryKey q p"
    using keys by (auto simp: sm.set_keys)
  then have "e' = e" using compacted_patterns [OF e'(1) e(1)] e(2) by (simp add: e_pattern_def)
  then show ?thesis using p Some e'(2) by simp
qed

text \<open>
  C8: When the position file holds any list of entries whose keys the format can carry,
  opening it at start-up (\<open>PositionFile::parse\<close>, with the compaction it starts with)
  succeeds and gives exactly the latest watched entry of every path pattern:
  \<open>getPath\<close> answers its path, and reading the entry gives back the position and the inode that
  were stored. The regular expression engine is assumed to do what it documents for the
  pattern of \<open>parseLine\<close>.
\<close>

theorem restart_recovers:
  assumes "pcre2_position_ok re" and "\<forall>e \<in> set es. key_ok (e_key e)" and "p_data file = image_of es"
  shows "\<exists>pf f. PositionFile_parse True True re file = (Some pf, f) \<and> pf_rep (compacted es) pf f \<and>
    (\<forall>q. PositionFile_getPath q pf = map_option (\<lambda>e. pe_path (e_key e)) (last_watched q es)) \<and>
    (\<forall>q e. last_watched q es = Some e \<and> storable_pos (e_pos e) \<and> storable_ino (e_ino e) \<longrightarrow>
      (\<exists>s. smap_find (m_pe_map pf) (e_key e) = Some s \<and>
        fst (FilePE_readPos s f) = e_pos e \<and> fst (FilePE_readInode s f) = e_ino e))"
proof -
  obtain pf f where parse: "PositionFile_parse True True re file = (Some pf, f)"
    and rep: "pf_rep (compacted es) pf f"
    and keys: "\<And>k. smap_find (m_pe_map pf) k \<noteq> None \<longleftrightarrow> k \<in> fst ` set (compacted es)"
    using parse_entries [OF assms] by blast
  have "\<exists>s. smap_find (m_pe_map pf) (e_key e) = Some s \<and>
        fst (FilePE_readPos s f) = e_pos e \<and> fst (FilePE_readInode s f) = e_ino e"
    if e: "last_watched q es = Some e" "storable_pos (e_pos e)" "storable_ino (e_ino e)" for q e
  proof -
    have mem: "e \<in> set (compacted es)" using e(1) last_watched_SomeD by (auto simp: compacted_mem)
    then obtain s where s: "smap_find (m_pe_map pf) (e_key e) = Some s" using keys [of "e_key e"] by auto
    have "e' = e" if "e' \<in> set (compacted es)" "e_key e' = e_key e" for e'
      using compacted_patterns [OF that(1) mem] that(2) by (simp add: e_pattern_def)
    from rep_lookup [OF rep this s e(2,3)] s show ?thesis by simp
  qed
  with parse rep getPath_compacted [OF keys] show ?thesis by blast
qed

text \<open>A matcher for the pattern, to instantiate the hypothesis.\<close>

definition position_split :: "string \<Rightarrow> string \<times> string \<times> string \<times> string" where
  "position_split line =
     (let a = takeWhile (\<lambda>c. c \<noteq> TAB) line; r = drop (length a + 1) line;
          b = takeWhile (\<lambda>c. c \<noteq> TAB) r; r' = drop (length b + 1) r;
          c = takeWhile (\<lambda>c. c \<noteq> TAB) r'; r'' = drop (length c + 1) r'
      in (a, b, c, takeWhile (\<lambda>c. c \<noteq> NL) r''))"

definition position_ovector :: "string \<times> string \<times> string \<times> string \<Rightarrow> nat \<Rightarrow> nat" where
  "position_ovector g i =
     (case g of (a, b, c, d) \<Rightarrow>
        (let o2 = length a + 1; o3 = o2 + length b + 1; o4 = o3 + length c + 1
         in if i = 3 then length a else if i = 4 then o2 else if i = 5 then o2 + length b
            else if i = 6 then o3 else if i = 7 then o3 + length c
            else if i = 8 then o4 else if i = 9 then o4 + length d else 0))"

definition position_match :: pcre2_code where
  "position_match line =
     (case position_split line of (a, b, c, d) \<Rightarrow>
        if position_fields line a b c d then (5, position_ovector (a, b, c, d)) else (- 1, \<lambda>i. 0))"

lemma digit_not_sep: "is_digit_of 16 x \<Longrightarrow> x \<noteq> TAB \<and> x \<noteq> NL"
proof -
  have "\<not> is_digit_of 16 TAB" "\<not> is_digit_of 16 NL" by code_simp+
  then show "is_digit_of 16 x \<Longrightarrow> x \<noteq> TAB \<and> x \<noteq> NL" by auto
qed

lemma position_split_fields:
  assumes "position_fields line a b c d"
  shows "position_split line = (a, b, c, d)"
proof -
  obtain r where line: "line = a @ TAB # b @ TAB # c @ TAB # d @ r" and r: "r = [] \<or> r = [NL]"
    using assms by (auto simp: position_fields_def)
  have "TAB \<notin> set a" "TAB \<notin> set b" "TAB \<notin> set c" "NL \<notin> set d"
    using assms digit_not_sep by (auto simp: position_fields_def)
  moreover from this(4) r have "takeWhile (\<lambda>c. c \<noteq> NL) (d @ r) = d"
    by (auto simp: takeWhile_neq takeWhile_eq_all_conv)
  ultimately show ?thesis by (simp add: position_split_def line takeWhile_neq Let_def)
qed

lemma position_match_ok: "pcre2_position_ok (\<lambda>_. Some position_match)"
proof -
  have "fst (position_match line) > 0 \<and> ovector_ok (snd (position_match line)) a b c d"
    if "position_fields line a b c d" for line a b c d
    using that position_split_fields [OF that]
    by (simp add: position_match_def ovector_ok_def position_ovector_def Let_def)
  moreover have "fst (position_match line) \<le> 0" if "\<nexists>a b c d. position_fields line a b c d" for line
    using that by (auto simp: position_match_def split: prod.splits)
  ultimately show ?thesis by (simp add: pcre2_position_ok_def)
qed

definition sample_entries :: "pentry list" where
  "sample_entries =
     [(PositionEntryKey ''/a.%d'' ''/a.1'', 100, 7), (PositionEntryKey ''/a.%d'' ''/a.2'', 255, 8)]"

lemma sample_entries_facts:
  "\<forall>e \<in> set sample_entries. key_ok (e_key e)"
  "last_watched ''/a.%d'' sample_entries = Some (PositionEntryKey ''/a.%d'' ''/a.2'', 255, 8)"
  by code_simp+

theorem restart_recovers_witness:
  "\<exists>pf f s. PositionFile_parse True True (\<lambda>_. Some position_match)
        \<lparr>p_data = image_of sample_entries, p_pos = 0\<rparr> = (Some pf, f) \<and>
     PositionFile_getPath ''/a.%d'' pf = Some ''/a.2'' \<and>
     smap_find (m_pe_map pf) (PositionEntryKey ''/a.%d'' ''/a.2'') = Some s \<and>
     fst (FilePE_readPos s f) = 255 \<and> fst (FilePE_readInode s f) = 8"
proof -
  let ?e = "(PositionEntryKey ''/a.%d'' ''/a.2'', 255, 8)"
  have "storable_pos 255" "storable_ino 8" by (simp_all add: storable_pos_def storable_ino_def)
  then show ?thesis
    using restart_recovers [OF position_match_ok sample_entries_facts(1),
        of "\<lparr>p_data = image_of sample_entries, p_pos = 0\<rparr>"] sample_entries_facts(2)
    by fastforce
qed

section \<open>The file refines the list of entries\<close>

text \<open>
  C9: The byte-level position file implements a list of (key, position, inode) entries:
  \<open>operator[]\<close> appends a zero entry for a key that is not in the map and changes nothing
  otherwise, \<open>update\<close> and \<open>updatePos\<close> on the entry of a list index replace exactly that
  element, and \<open>remove\<close> keeps the list.
\<close>

theorem position_file_refines:
  assumes "pf_rep es pf f"
  shows "(smap_find (m_pe_map pf) k = None \<longrightarrow>
      (\<exists>pf' f'. PositionFile_index k (pf, f) = (seek_at (es @ [(k, 0, 0)]) (length es), (pf', f'))
        \<and> pf_rep (es @ [(k, 0, 0)]) pf' f')) \<and>
    (\<forall>s. smap_find (m_pe_map pf) k = Some s \<longrightarrow> PositionFile_index k (pf, f) = (s, (pf, f))) \<and>
    (\<forall>i < length es.
      pf_rep (es[i := (e_key (es ! i), p, n)]) pf (FilePE_update (seek_at es i) n p f) \<and>
      pf_rep (es[i := (e_key (es ! i), p, e_ino (es ! i))]) pf (FilePE_updatePos (seek_at es i) p f)) \<and>
    pf_rep es (PositionFile_remove k pf) f"
proof (intro conjI allI impI)
qed (use assms index_new [OF assms, of k] index_old update_rep updatePos_rep remove_rep in auto)

lemma pf_rep_empty: "pf_rep [] (PositionFile_new [] 0) \<lparr>p_data = [], p_pos = x\<rparr>"
  by (simp add: pf_rep_def PositionFile_new_def)

theorem position_file_refines_witness:
  "\<exists>pf f. PositionFile_index (PositionEntryKey ''/a'' ''/a'') (PositionFile_new [] 0, \<lparr>p_data = [], p_pos = 0\<rparr>)
      = (seek_at [(PositionEntryKey ''/a'' ''/a'', 0, 0)] 0, (pf, f)) \<and>
     pf_rep [(PositionEntryKey ''/a'' ''/a'', 0, 0)] pf f"
  using position_file_refines [OF pf_rep_empty [of 0], of "PositionEntryKey ''/a'' ''/a''"]
  by (simp add: PositionFile_new_def)

text \<open>
  C21: Writing the position and the inode of one entry of the position file leaves what is
  read of every other entry unchanged and is read back from the entry itself.
\<close>

theorem entry_update_frame:
  assumes "pf_rep es pf f" and "i < length es" and "j < length es"
    and "\<forall>e \<in> set es. storable_pos (e_pos e) \<and> storable_ino (e_ino e)"
    and "storable_pos p" and "storable_ino n"
  shows "let f' = FilePE_update (seek_at es i) n p f in
    fst (FilePE_readPos (seek_at es j) f') = (if j = i then p else fst (FilePE_readPos (seek_at es j) f)) \<and>
    fst (FilePE_readInode (seek_at es j) f') = (if j = i then n else fst (FilePE_readInode (seek_at es j) f))"
proof -
  let ?es' = "es[i := (e_key (es ! i), p, n)]"
  have rep: "pf_rep ?es' pf (FilePE_update (seek_at es i) n p f)"
    using assms(1,2) by (rule update_rep)
  have "seek_at ?es' j = seek_at es j"
    using map_fst_update [OF assms(2)] assms(3) by (intro seek_at_keys) simp_all
  moreover have "storable_pos (e_pos (?es' ! j)) \<and> storable_ino (e_ino (?es' ! j))"
    using assms(3-6) by (cases "j = i") simp_all
  moreover have "storable_pos (e_pos (es ! j)) \<and> storable_ino (e_ino (es ! j))"
    using assms(3,4) by simp
  ultimately show ?thesis
    using read_rep [OF rep, of j] read_rep [OF assms(1,3)] assms(2,3) by (cases "j = i") simp_all
qed

theorem entry_update_frame_witness:
  "\<exists>pf f. pf_rep sample_entries pf f \<and>
     fst (FilePE_readPos (seek_at sample_entries 1) (FilePE_update (seek_at sample_entries 0) 9 4096 f)) =
     fst (FilePE_readPos (seek_at sample_entries 1) f)"
proof -
  let ?pf = "PositionFile_new [] (length (image_of sample_entries))"
  let ?f = "\<lparr>p_data = image_of sample_entries, p_pos = 0\<rparr>"
  have "pf_rep sample_entries ?pf ?f" by (simp add: pf_rep_def PositionFile_new_def)
  then show ?thesis
    using entry_update_frame [of sample_entries ?pf ?f 0 1 4096 9]
    by (force simp: sample_entries_def storable_pos_def storable_ino_def Let_def)
qed

end
