(* ===== verification/TaskConf.thy ===== *)
theory TaskConf
  imports Tools
begin

text \<open>
  The configuration and the queue of a collecting task, \<open>src/logkafka/task_conf.h\<close>.
  \<open>TaskConf\<close> has no constructor, so the \<open>valid\<close> flag of a fresh one has an
  indeterminate value, a parameter here.
\<close>

section \<open>Configuration\<close>

record LogConf =
  log_path :: string
  follow_last :: bool
  batchsize :: int
  read_from_head :: bool
  line_delimiter :: char
  remove_delimiter :: bool

record FilterConf =
  regex_filter_pattern :: string

record KafkaTopicConf =
  brokers :: string
  topic :: string
  compression_codec :: string
  required_acks :: int
  key :: string
  partition :: int
  message_timeout_ms :: int

record TaskConf =
  valid :: bool
  log_conf :: LogConf
  kafka_topic_conf :: KafkaTopicConf
  filter_conf :: FilterConf

definition LogConf_new :: LogConf where
  "LogConf_new =
     \<lparr>log_path = [], follow_last = True, batchsize = 200, read_from_head = True,
      line_delimiter = CHR 0x0A, remove_delimiter = True\<rparr>"

definition FilterConf_new :: FilterConf where
  "FilterConf_new = \<lparr>regex_filter_pattern = []\<rparr>"

definition KafkaTopicConf_new :: KafkaTopicConf where
  "KafkaTopicConf_new =
     \<lparr>brokers = [], topic = [], compression_codec = ''none'', required_acks = 1,
      key = [], partition = - 1, message_timeout_ms = 0\<rparr>"

definition TaskConf_new :: "bool \<Rightarrow> TaskConf" where
  "TaskConf_new junk =
     \<lparr>valid = junk, log_conf = LogConf_new, kafka_topic_conf = KafkaTopicConf_new,
      filter_conf = FilterConf_new\<rparr>"

definition LogConf_eq :: "LogConf \<Rightarrow> LogConf \<Rightarrow> bool" where
  "LogConf_eq a hs \<longleftrightarrow>
     log_path a = log_path hs \<and>
     follow_last a = follow_last hs \<and>
     batchsize a = batchsize hs \<and>
     line_delimiter a = line_delimiter hs \<and>
     remove_delimiter a = remove_delimiter hs"

definition FilterConf_eq :: "FilterConf \<Rightarrow> FilterConf \<Rightarrow> bool" where
  "FilterConf_eq a hs \<longleftrightarrow> regex_filter_pattern a = regex_filter_pattern hs"

definition KafkaTopicConf_eq :: "KafkaTopicConf \<Rightarrow> KafkaTopicConf \<Rightarrow> bool" where
  "KafkaTopicConf_eq a hs \<longleftrightarrow>
     brokers a = brokers hs \<and>
     topic a = topic hs \<and>
     compression_codec a = compression_codec hs \<and>
     required_acks a = required_acks hs \<and>
     key a = key hs \<and>
     partition a = partition hs \<and>
     message_timeout_ms a = message_timeout_ms hs"

definition TaskConf_eq :: "TaskConf \<Rightarrow> TaskConf \<Rightarrow> bool" where
  "TaskConf_eq a hs \<longleftrightarrow>
     valid a = valid hs \<and>
     LogConf_eq (log_conf a) (log_conf hs) \<and>
     KafkaTopicConf_eq (kafka_topic_conf a) (kafka_topic_conf hs) \<and>
     FilterConf_eq (filter_conf a) (filter_conf hs)"

definition isPathPatternLegal :: "LogConf \<Rightarrow> bool" where
  "isPathPatternLegal lc = (case str_find (log_path lc) ''*'' 0 of None \<Rightarrow> True | Some _ \<Rightarrow> False)"

definition LogConf_isLegal :: "LogConf \<Rightarrow> bool" where
  "LogConf_isLegal lc = isPathPatternLegal lc"

definition KafkaTopicConf_isLegal :: "KafkaTopicConf \<Rightarrow> bool" where
  "KafkaTopicConf_isLegal kc = True"

definition TaskConf_isLegal :: "TaskConf \<Rightarrow> bool" where
  "TaskConf_isLegal tc \<longleftrightarrow>
     LogConf_isLegal (log_conf tc) \<and> KafkaTopicConf_isLegal (kafka_topic_conf tc)"

section \<open>The task and its queue of paths\<close>

record TaskStat =
  first_update_paths :: bool
  paths :: "string list"

definition TaskStat_new :: TaskStat where
  "TaskStat_new = \<lparr>first_update_paths = True, paths = []\<rparr>"

definition TaskStat_getPath :: "TaskStat \<Rightarrow> string" where
  "TaskStat_getPath st = (case paths st of [] \<Rightarrow> [] | p # _ \<Rightarrow> p)"

record Task =
  path_queue_max_size :: int
  conf :: TaskConf
  stat :: TaskStat

definition Task_new :: "bool \<Rightarrow> int \<Rightarrow> Task" where
  "Task_new junk max_size =
     \<lparr>path_queue_max_size = max_size, conf = TaskConf_new junk, stat = TaskStat_new\<rparr>"

definition getFirstPath :: "Task \<Rightarrow> string" where
  "getFirstPath t = TaskStat_getPath (stat t)"

definition Task_getPath :: "Task \<Rightarrow> string" where
  "Task_getPath t = getFirstPath t"

text \<open>\<open>std::queue::pop\<close> on an empty queue is undefined; its callers test \<open>hasPath\<close>.\<close>

definition delFirstPath :: "Task \<Rightarrow> Task res" where
  "delFirstPath t =
     (case paths (stat t) of
        [] \<Rightarrow> Inl Out_of_bounds
      | _ # ps \<Rightarrow> Inr (t\<lparr>stat := (stat t)\<lparr>paths := ps\<rparr>\<rparr>))"

definition addPath :: "Task \<Rightarrow> string \<Rightarrow> bool \<times> Task" where
  "addPath t path =
     (if paths (stat t) = [] then
        (True, t\<lparr>stat := (stat t)\<lparr>paths := [path]\<rparr>\<rparr>)
      else
        (let last_path = last (paths (stat t))
         in if path \<noteq> last_path then
              if path_queue_max_size t \<le> int (length (paths (stat t))) then (False, t)
              else (True, t\<lparr>stat := (stat t)\<lparr>paths := paths (stat t) @ [path]\<rparr>\<rparr>)
            else (False, t)))"

definition hasPath :: "Task \<Rightarrow> bool" where
  "hasPath t \<longleftrightarrow> paths (stat t) \<noteq> []"

definition Task_getEnabled :: "Task \<Rightarrow> bool" where
  "Task_getEnabled t = valid (conf t)"

definition Task_getInode :: "filesystem \<Rightarrow> Task \<Rightarrow> int" where
  "Task_getInode fs t = getInode fs (cstr (Task_getPath t))"

section \<open>Comparison and legality\<close>

lemma LogConf_eq_iff:
  "LogConf_eq a b \<longleftrightarrow> a\<lparr>read_from_head := x\<rparr> = b\<lparr>read_from_head := x\<rparr>"
  by (cases a; cases b) (auto simp: LogConf_eq_def)

lemma KafkaTopicConf_eq_iff: "KafkaTopicConf_eq a b \<longleftrightarrow> a = b"
  by (cases a; cases b) (auto simp: KafkaTopicConf_eq_def)

lemma FilterConf_eq_iff: "FilterConf_eq a b \<longleftrightarrow> a = b"
  by (cases a; cases b) (auto simp: FilterConf_eq_def)

lemma prefixed_char: "prefixed [c] (drop i s) \<longleftrightarrow> i < length s \<and> s ! i = c"
  by (cases "i < length s") (auto simp: prefixed_def take_Suc hd_drop_conv_nth)

lemma str_find_char: "str_find s [c] 0 = None \<longleftrightarrow> c \<notin> set s"
  by (auto simp: str_find_def find_None_iff in_set_conv_nth prefixed_char simp del: upt_Suc)

lemma isPathPatternLegal_iff: "isPathPatternLegal lc \<longleftrightarrow> CHR ''*'' \<notin> set (log_path lc)"
  using str_find_char [of "log_path lc" "CHR ''*''"]
  by (auto simp: isPathPatternLegal_def split: option.splits)

section \<open>The queue's contract\<close>

text \<open>
  What a client of the queue relies on: adding never reorders or drops what is queued,
  never queues the same path twice in a row, and respects the bound.
\<close>

definition queue_ok :: "Task \<Rightarrow> bool" where
  "queue_ok t \<longleftrightarrow>
     int (length (paths (stat t))) \<le> max 1 (path_queue_max_size t) \<and>
     distinct_adj (paths (stat t))"

locale path_queue =
  fixes queued :: "'t \<Rightarrow> string list"
    and add :: "'t \<Rightarrow> string \<Rightarrow> bool \<times> 't"
    and del :: "'t \<Rightarrow> 't res"
    and capacity :: "'t \<Rightarrow> int"
    and ok :: "'t \<Rightarrow> bool"
  assumes add_queued: "queued (snd (add t p)) = (if fst (add t p) then queued t @ [p] else queued t)"
    and add_ok: "ok t \<Longrightarrow> ok (snd (add t p))"
    and add_refused: "\<not> fst (add t p) \<Longrightarrow>
      queued t \<noteq> [] \<and> (last (queued t) = p \<or> capacity t \<le> int (length (queued t)))"
    and add_capacity: "capacity (snd (add t p)) = capacity t"
    and del_queued: "queued t = q # qs \<Longrightarrow> \<exists>t'. del t = Inr t' \<and> queued t' = qs \<and> capacity t' = capacity t"
    and del_ok: "ok t \<Longrightarrow> del t = Inr t' \<Longrightarrow> ok t'"
begin

lemma add_all_ok: "ok t \<Longrightarrow> ok (fold (\<lambda>p t. snd (add t p)) ps t)"
  by (induction ps arbitrary: t) (auto intro: add_ok)

lemma add_all_extends: "\<exists>qs. queued (fold (\<lambda>p t. snd (add t p)) ps t) = queued t @ qs \<and> set qs \<subseteq> set ps"
proof (induction ps arbitrary: t)
  case (Cons p ps)
  obtain qs where "queued (fold (\<lambda>p t. snd (add t p)) ps (snd (add t p))) = queued (snd (add t p)) @ qs"
    and "set qs \<subseteq> set ps"
    using Cons.IH by blast
  then show ?case by (cases "fst (add t p)") (auto simp: add_queued)
qed simp

lemma add_last: "queued (snd (add t p)) \<noteq> []"
  using add_refused [of t p] by (auto simp: add_queued)

end

lemma distinct_adj_snoc:
  "xs \<noteq> [] \<Longrightarrow> distinct_adj (xs @ [x]) \<longleftrightarrow> distinct_adj xs \<and> last xs \<noteq> x"
  by (simp add: distinct_adj_append_iff)

interpretation pq: path_queue "\<lambda>t. paths (stat t)" addPath delFirstPath path_queue_max_size queue_ok
proof
  show "queue_ok (snd (addPath t p))" if "queue_ok t" for t p
    using that by (auto simp: queue_ok_def addPath_def Let_def distinct_adj_snoc)
  show "queue_ok t'" if "queue_ok t" "delFirstPath t = Inr t'" for t t'
  proof (cases "paths (stat t)")
    case (Cons p ps)
    with that have "t' = t\<lparr>stat := (stat t)\<lparr>paths := ps\<rparr>\<rparr>" by (simp add: delFirstPath_def)
    moreover have "distinct_adj ps" using that(1) Cons by (cases ps) (auto simp: queue_ok_def)
    ultimately show ?thesis using that(1) Cons by (auto simp: queue_ok_def)
  qed (use that in \<open>simp add: delFirstPath_def\<close>)
qed (auto simp: addPath_def delFirstPath_def Let_def split: if_splits)

end
