(* ===== verification/Output.thy ===== *)
theory Output
  imports PositionFile TaskConf "HOL-Library.Multiset"
begin

text \<open>
  From a batch of lines to Kafka: the regular expression filter
  (\<open>src/logkafka/filter_regex.cc\<close>), the producer (\<open>src/logkafka/producer.cc\<close>), the
  output that owns the producers (\<open>src/logkafka/output_kafka.cc\<close>), and the receive
  function that joins them (\<open>Manager::receiveLines\<close>).

  PCRE2 and librdkafka are parameters. A compiled pattern is a matcher. \<open>rdkafka\<close> holds what
  librdkafka answers: to configuration calls by their arguments, and to the \<open>n\<close>-th call of a
  kind by its number, so nothing is assumed about what the cluster does.
\<close>

section \<open>Filter\<close>

record FilterRegex =
  m_filter_conf :: FilterConf
  m_re :: "pcre2_code option"

definition FilterRegex_new :: "FilterConf \<Rightarrow> FilterRegex" where
  "FilterRegex_new c = \<lparr>m_filter_conf = c, m_re = None\<rparr>"

definition FilterRegex_init :: "(string \<Rightarrow> pcre2_code option) \<Rightarrow> FilterRegex \<Rightarrow> bool \<times> FilterRegex" where
  "FilterRegex_init pcre2_compile fr =
     (let pattern = regex_filter_pattern (m_filter_conf fr)
      in if pattern = [] then (False, fr)
         else case pcre2_compile (cstr pattern) of
                None \<Rightarrow> (False, fr\<lparr>m_re := None\<rparr>)
              | Some re \<Rightarrow> (True, fr\<lparr>m_re := Some re\<rparr>))"

text \<open>\<open>pcre2_match\<close> on a null pattern answers \<open>PCRE2_ERROR_NULL\<close>.\<close>

definition pcre2_rc :: "pcre2_code option \<Rightarrow> string \<Rightarrow> int" where
  "pcre2_rc re subject = (case re of None \<Rightarrow> - 51 | Some m \<Rightarrow> fst (m subject))"

text \<open>The loop over the lines by an index, erasing the ones the pattern matches.\<close>

function filter_loop :: "pcre2_code option \<Rightarrow> nat \<Rightarrow> string list \<Rightarrow> string list" where
  "filter_loop re i ls =
     (if i < length ls then
        if pcre2_rc re (cstr (ls ! i)) > 0 then filter_loop re i (take i ls @ drop (Suc i) ls)
        else filter_loop re (Suc i) ls
      else ls)"
  by pat_completeness auto
termination
  by (relation "measure (\<lambda>(re, i, ls). length ls - i)") (auto simp: min_def)

declare filter_loop.simps [simp del]

definition FilterRegex_filter :: "FilterRegex option \<Rightarrow> string list \<Rightarrow> bool \<times> string list" where
  "FilterRegex_filter arg ls =
     (case arg of None \<Rightarrow> (False, ls) | Some fr \<Rightarrow> (True, filter_loop (m_re fr) 0 ls))"

definition keeps :: "pcre2_code option \<Rightarrow> string \<Rightarrow> bool" where
  "keeps re l \<longleftrightarrow> \<not> pcre2_rc re (cstr l) > 0"

lemma filter_loop_spec:
  "i \<le> length ls \<Longrightarrow> filter_loop re i ls = take i ls @ filter (keeps re) (drop i ls)"
proof (induction re i ls rule: filter_loop.induct)
  case (1 re i ls)
  show ?case
  proof (cases "i < length ls")
    case True
    then have d: "drop i ls = ls ! i # drop (Suc i) ls" by (rule Cons_nth_drop_Suc [symmetric])
    show ?thesis
    proof (cases "pcre2_rc re (cstr (ls ! i)) > 0")
      case hit: True
      have "filter_loop re i ls = filter_loop re i (take i ls @ drop (Suc i) ls)"
        using True hit by (simp add: filter_loop.simps [of re i ls])
      then show ?thesis using "1.IH"(1) True hit by (simp add: d keeps_def)
    next
      case miss: False
      have "filter_loop re i ls = filter_loop re (Suc i) ls"
        using True miss by (simp add: filter_loop.simps [of re i ls])
      then show ?thesis using "1.IH"(2) True miss by (simp add: d keeps_def take_Suc_conv_app_nth)
    qed
  next
    case False
    then show ?thesis using 1 by (simp add: filter_loop.simps [of re "length ls" ls])
  qed
qed

text \<open>
  C26: \<open>FilterRegex::filter\<close> removes exactly the lines the pattern matches and keeps the
  others in order; the erasing loop terminates for every batch.
\<close>

theorem filter_drops_matches:
  "FilterRegex_filter (Some fr) ls = (True, filter (\<lambda>l. pcre2_rc (m_re fr) (cstr l) \<le> 0) ls)"
  using filter_loop_spec [of 0 ls "m_re fr"] by (simp add: FilterRegex_filter_def keeps_def [abs_def] not_less)

section \<open>librdkafka\<close>

type_synonym rd_kafka_resp_err = int

definition RD_KAFKA_RESP_ERR_NO_ERROR :: rd_kafka_resp_err where
  "RD_KAFKA_RESP_ERR_NO_ERROR = 0"

definition RD_KAFKA_RESP_ERR_QUEUE_FULL :: rd_kafka_resp_err where
  "RD_KAFKA_RESP_ERR_QUEUE_FULL = - 184"

record rdkafka =
  rd_conf_set :: "string \<Rightarrow> string \<Rightarrow> bool"
  rd_new :: "nat \<Rightarrow> bool"
  rd_brokers_add :: "string \<Rightarrow> nat"
  rd_topic_new :: "nat \<Rightarrow> string \<Rightarrow> bool"
  rd_err :: "nat \<Rightarrow> nat \<Rightarrow> rd_kafka_resp_err"
  rd_outq_len :: "nat \<Rightarrow> nat"

text \<open>A message as the program hands it over: blocks of memory with lengths.\<close>

record rd_kafka_message =
  rm_len :: nat
  rm_payload :: "char list"
  rm_key_len :: nat
  rm_key :: "char list"
  rm_private :: nat

text \<open>What the cluster is given: topic, partition, key and payload.\<close>

record kafka_record =
  kr_topic :: string
  kr_partition :: int
  kr_key :: string
  kr_payload :: string

section \<open>Producer\<close>

record KafkaConf =
  kc_message_max_bytes :: int
  kc_message_send_max_retries :: int
  kc_queue_buffering_max_messages :: int

record Producer =
  m_brokers :: string
  m_rk :: bool

type_synonym producer_map = "(string, Producer option) smap"

text \<open>
  The state the outputs share: the producers, the configuration of new ones, the
  numbers of calls made to librdkafka, and the log of what it accepted.
\<close>

record kafka =
  k_rd :: rdkafka
  k_tick :: nat
  k_log :: "kafka_record list"
  m_producer_map :: producer_map
  m_kafka_conf :: KafkaConf

definition k_step :: "kafka \<Rightarrow> kafka" where
  "k_step k = k\<lparr>k_tick := k_tick k + 1\<rparr>"

definition cc_map :: "(string, int) smap" where
  "cc_map = smap_put ''snappy'' 2 (smap_put ''gzip'' 1 (smap_put ''none'' 0 []))"

definition Producer_init :: "string \<Rightarrow> string \<Rightarrow> KafkaConf \<Rightarrow> kafka \<Rightarrow> Producer option \<times> kafka" where
  "Producer_init broker_urls codec kc k =
     (if \<not> rd_conf_set (k_rd k) ''compression.codec'' (cstr codec) then (None, k)
      else if \<not> rd_conf_set (k_rd k) ''message.max.bytes'' (int2Str (kc_message_max_bytes kc)) then (None, k)
      else if \<not> rd_conf_set (k_rd k) ''message.send.max.retries'' (int2Str (kc_message_send_max_retries kc))
        then (None, k)
      else if \<not> rd_conf_set (k_rd k) ''queue.buffering.max.messages''
                  (int2Str (kc_queue_buffering_max_messages kc)) then (None, k)
      else if \<not> rd_new (k_rd k) (k_tick k) then (None, k_step k)
      else if rd_brokers_add (k_rd k) (cstr broker_urls) = 0 then (None, k_step k)
      else (Some \<lparr>m_brokers = broker_urls, m_rk = True\<rparr>, k_step k))"

text \<open>\<open>Producer::close\<close> polls until the queue is empty, for as long as that takes.\<close>

definition poll_step :: "kafka \<Rightarrow> (bool \<times> kafka) res" where
  "poll_step k =
     Inr (if rd_outq_len (k_rd k) (k_tick k) > 0 then (True, k_step k) else (False, k))"

definition Producer_close :: "kafka \<Rightarrow> kafka res" where
  "Producer_close k = returns (loop poll_step k)"

text \<open>\<open>strndup\<close> copies up to the first NUL; reading past a block is out of bounds.\<close>

definition strndup :: "string \<Rightarrow> nat \<Rightarrow> char list" where
  "strndup s n = take n (cstr s) @ [NUL]"

definition read_block :: "char list \<Rightarrow> nat \<Rightarrow> string res" where
  "read_block b n = (if n \<le> length b then Inr (take n b) else Inl Out_of_bounds)"

definition make_message :: "string \<Rightarrow> nat \<times> string \<Rightarrow> rd_kafka_message" where
  "make_message k im =
     (case im of (i, m) \<Rightarrow>
        \<lparr>rm_len = length m, rm_payload = strndup m (length m),
         rm_key_len = length k, rm_key = strndup k (length k), rm_private = i\<rparr>)"

text \<open>
  \<open>rd_kafka_produce_batch\<close>: every message either gets an error code or is enqueued with the
  bytes its lengths tell.
\<close>

fun produce_batch ::
  "(nat \<Rightarrow> rd_kafka_resp_err) \<Rightarrow> string \<Rightarrow> int \<Rightarrow> rd_kafka_message list \<Rightarrow> kafka_record list res" where
  "produce_batch err tp part [] = Inr []"
| "produce_batch err tp part (m # ms) =
     (if err (rm_private m) \<noteq> RD_KAFKA_RESP_ERR_NO_ERROR then produce_batch err tp part ms
      else bindR (read_block (rm_payload m) (rm_len m)) (\<lambda>payload.
           bindR (read_block (rm_key m) (rm_key_len m)) (\<lambda>k.
           bindR (produce_batch err tp part ms) (\<lambda>rs.
             Inr (\<lparr>kr_topic = tp, kr_partition = part, kr_key = k, kr_payload = payload\<rparr> # rs)))))"

text \<open>The scan for errors keeps what the full queue refused.\<close>

fun scan_messages ::
  "(nat \<Rightarrow> rd_kafka_resp_err) \<Rightarrow> rd_kafka_message list \<Rightarrow> string list \<Rightarrow> string list res" where
  "scan_messages err [] unsent = Inr unsent"
| "scan_messages err (m # ms) unsent =
     (if err (rm_private m) \<noteq> 0 \<and> err (rm_private m) = RD_KAFKA_RESP_ERR_QUEUE_FULL
      then bindR (read_block (rm_payload m) (rm_len m)) (\<lambda>msg. scan_messages err ms (unsent @ [msg]))
      else scan_messages err ms unsent)"

definition Producer_send ::
  "string list \<Rightarrow> string list \<Rightarrow> string \<Rightarrow> string \<Rightarrow> int \<Rightarrow> int \<Rightarrow> int \<Rightarrow> kafka \<Rightarrow>
     (bool \<times> string list \<times> kafka) res" where
  "Producer_send messages unsent tp k acks part timeout_ms st =
     (let n = k_tick st;
          rkmessages = map (make_message k) (enumerate 0 messages)
      in if \<not> rd_topic_new (k_rd st) n (cstr tp) then Inl Null_deref
         else bindR (produce_batch (rd_err (k_rd st) n) (cstr tp) part rkmessages) (\<lambda>recs.
              bindR (scan_messages (rd_err (k_rd st) n) rkmessages unsent) (\<lambda>unsent'.
                Inr (True, unsent', (k_step st)\<lparr>k_log := k_log st @ recs\<rparr>))))"

section \<open>Output\<close>

record OutputKafka =
  m_kafka_topic_conf :: KafkaTopicConf

definition producer_of :: "string \<Rightarrow> kafka \<Rightarrow> Producer option" where
  "producer_of codec k = (case smap_find (m_producer_map k) codec of None \<Rightarrow> None | Some p \<Rightarrow> p)"

text \<open>\<open>m_producer_map[k]\<close> inserts a null pointer for a missing key.\<close>

definition touch_producer :: "string \<Rightarrow> kafka \<Rightarrow> kafka" where
  "touch_producer codec k =
     (case smap_find (m_producer_map k) codec of
        None \<Rightarrow> k\<lparr>m_producer_map := smap_put codec None (m_producer_map k)\<rparr>
      | Some _ \<Rightarrow> k)"

definition OutputKafka_output ::
  "OutputKafka \<Rightarrow> string list \<Rightarrow> string list \<Rightarrow> kafka \<Rightarrow> (bool \<times> string list \<times> kafka) res" where
  "OutputKafka_output ok ls unsent k =
     (let tc = m_kafka_topic_conf ok; k1 = touch_producer (compression_codec tc) k
      in case producer_of (compression_codec tc) k1 of
           None \<Rightarrow> Inl Null_deref
         | Some producer \<Rightarrow>
             Producer_send ls unsent (topic tc) (key tc) (required_acks tc) (partition tc)
               (message_timeout_ms tc) k1)"

definition initProducer :: "string \<Rightarrow> string \<Rightarrow> kafka \<Rightarrow> bool \<times> kafka" where
  "initProducer broker_urls codec k =
     (case smap_find cc_map codec of
        None \<Rightarrow> (False, k)
      | Some _ \<Rightarrow>
          (let k1 = touch_producer codec k
           in case producer_of codec k1 of
                Some _ \<Rightarrow> (True, k1)
              | None \<Rightarrow>
                  (case Producer_init broker_urls codec (m_kafka_conf k1) k1 of
                     (None, k2) \<Rightarrow> (False, k2)
                   | (Some p, k2) \<Rightarrow>
                       (True, k2\<lparr>m_producer_map := smap_put codec (Some p) (m_producer_map k2)\<rparr>))))"

definition setKafkaTopicConf :: "KafkaTopicConf \<Rightarrow> OutputKafka \<Rightarrow> OutputKafka" where
  "setKafkaTopicConf tc ok = ok\<lparr>m_kafka_topic_conf := tc\<rparr>"

definition setKafkaConf :: "KafkaConf \<Rightarrow> kafka \<Rightarrow> kafka" where
  "setKafkaConf kc k = k\<lparr>m_kafka_conf := kc\<rparr>"

fun stop_codecs :: "string list \<Rightarrow> kafka \<Rightarrow> kafka res" where
  "stop_codecs [] k = Inr k"
| "stop_codecs (c # cs) k =
     (let k1 = touch_producer c k
      in case producer_of c k1 of
           None \<Rightarrow> stop_codecs cs k1
         | Some p \<Rightarrow>
             bindR (Producer_close k1) (\<lambda>k2.
               stop_codecs cs (k2\<lparr>m_producer_map := smap_put c None (m_producer_map k2)\<rparr>)))"

definition stopProducers :: "kafka \<Rightarrow> kafka res" where
  "stopProducers k = stop_codecs (smap_keys cc_map) k"

section \<open>The receive function\<close>

type_synonym ReceiveFunc =
  "FilterRegex option \<Rightarrow> OutputKafka option \<Rightarrow> string list \<Rightarrow> kafka \<Rightarrow> (bool \<times> string list \<times> kafka) res"

definition receiveLines :: ReceiveFunc where
  "receiveLines flt out ls k =
     (case out of
        None \<Rightarrow> Inr (False, [], k)
      | Some ok \<Rightarrow>
          (let valid_lines = (case flt of None \<Rightarrow> ls | Some fr \<Rightarrow> snd (FilterRegex_filter flt ls))
           in if valid_lines = [] then Inr (True, [], k)
              else OutputKafka_output ok valid_lines [] k))"

section \<open>What happens to a batch\<close>

text \<open>The lines of a batch by the error code of their index.\<close>

definition with_err :: "(rd_kafka_resp_err \<Rightarrow> bool) \<Rightarrow> (nat \<Rightarrow> rd_kafka_resp_err) \<Rightarrow> string list \<Rightarrow> string list" where
  "with_err P err ms = map snd (filter (\<lambda>im. P (err (fst im))) (enumerate 0 ms))"

definition accepted :: "(nat \<Rightarrow> rd_kafka_resp_err) \<Rightarrow> string list \<Rightarrow> string list" where
  "accepted = with_err (\<lambda>e. e = RD_KAFKA_RESP_ERR_NO_ERROR)"

definition refused :: "(nat \<Rightarrow> rd_kafka_resp_err) \<Rightarrow> string list \<Rightarrow> string list" where
  "refused = with_err (\<lambda>e. e = RD_KAFKA_RESP_ERR_QUEUE_FULL)"

definition rejected :: "(nat \<Rightarrow> rd_kafka_resp_err) \<Rightarrow> string list \<Rightarrow> string list" where
  "rejected = with_err (\<lambda>e. e \<noteq> RD_KAFKA_RESP_ERR_NO_ERROR \<and> e \<noteq> RD_KAFKA_RESP_ERR_QUEUE_FULL)"

definition record_of :: "string \<Rightarrow> string \<Rightarrow> int \<Rightarrow> string \<Rightarrow> kafka_record" where
  "record_of tp k part m = \<lparr>kr_topic = tp, kr_partition = part, kr_key = k, kr_payload = m\<rparr>"

definition no_NUL :: "string list \<Rightarrow> bool" where
  "no_NUL ls \<longleftrightarrow> (\<forall>l \<in> set ls. NUL \<notin> set l)"

lemma read_dup [simp]: "NUL \<notin> set s \<Longrightarrow> read_block (strndup s (length s)) (length s) = Inr s"
  by (simp add: read_block_def strndup_def cstr_id)

lemma produce_batch_spec:
  "NUL \<notin> set k \<Longrightarrow> \<forall>im \<in> set ims. NUL \<notin> set (snd im) \<Longrightarrow>
    produce_batch err tp part (map (make_message k) ims)
      = Inr (map (record_of tp k part) (map snd (filter (\<lambda>im. err (fst im) = RD_KAFKA_RESP_ERR_NO_ERROR) ims)))"
  by (induction ims) (auto simp: make_message_def record_of_def)

lemma scan_messages_spec:
  "\<forall>im \<in> set ims. NUL \<notin> set (snd im) \<Longrightarrow>
    scan_messages err (map (make_message k) ims) unsent
      = Inr (unsent @ map snd (filter (\<lambda>im. err (fst im) = RD_KAFKA_RESP_ERR_QUEUE_FULL) ims))"
  by (induction ims arbitrary: unsent) (auto simp: make_message_def RD_KAFKA_RESP_ERR_QUEUE_FULL_def)

lemma enumerate_no_NUL: "no_NUL ms \<Longrightarrow> \<forall>im \<in> set (enumerate n ms). NUL \<notin> set (snd im)"
  by (auto simp: no_NUL_def in_set_enumerate_eq)

lemma Producer_send_spec:
  assumes "no_NUL ms" and "NUL \<notin> set k" and "rd_topic_new (k_rd st) (k_tick st) (cstr tp)"
  shows "Producer_send ms unsent tp k acks part tmo st =
    Inr (True, unsent @ refused (rd_err (k_rd st) (k_tick st)) ms,
         (k_step st)\<lparr>k_log := k_log st @
            map (record_of (cstr tp) k part) (accepted (rd_err (k_rd st) (k_tick st)) ms)\<rparr>)"
  using assms produce_batch_spec [OF assms(2) enumerate_no_NUL [OF assms(1), of 0]]
    scan_messages_spec [OF enumerate_no_NUL [OF assms(1), of 0]]
  by (simp add: Producer_send_def accepted_def refused_def with_err_def Let_def)

lemma with_err_partition:
  "mset ms = mset (accepted err ms) + mset (refused err ms) + mset (rejected err ms)"
proof -
  have "mset (map snd ims) =
      mset (map snd (filter (\<lambda>im. err (fst im) = RD_KAFKA_RESP_ERR_NO_ERROR) ims)) +
      mset (map snd (filter (\<lambda>im. err (fst im) = RD_KAFKA_RESP_ERR_QUEUE_FULL) ims)) +
      mset (map snd (filter (\<lambda>im. err (fst im) \<noteq> RD_KAFKA_RESP_ERR_NO_ERROR \<and>
        err (fst im) \<noteq> RD_KAFKA_RESP_ERR_QUEUE_FULL) ims))" for ims :: "(nat \<times> string) list"
    by (induction ims) (auto simp: RD_KAFKA_RESP_ERR_QUEUE_FULL_def RD_KAFKA_RESP_ERR_NO_ERROR_def)
  from this [of "enumerate 0 ms"] show ?thesis
    by (simp add: accepted_def refused_def rejected_def with_err_def)
qed

text \<open>
  C20: \<open>Producer::send\<close> answers true and every message of the batch has exactly one outcome, by
  the error code librdkafka gave it: without an error it is in the log with the topic, key and
  partition of the task; refused by the full queue it is returned as unsent, in order;
  with any other error it is given up.
\<close>

theorem send_outcome:
  assumes "no_NUL ms" and "NUL \<notin> set k" and "rd_topic_new (k_rd st) (k_tick st) (cstr tp)"
    and "err = rd_err (k_rd st) (k_tick st)"
  shows "\<exists>st'. Producer_send ms [] tp k acks part tmo st = Inr (True, refused err ms, st') \<and>
    k_log st' = k_log st @ map (record_of (cstr tp) k part) (accepted err ms) \<and>
    mset ms = mset (accepted err ms) + mset (refused err ms) + mset (rejected err ms)"
  using Producer_send_spec [OF assms(1-3), of "[]"] with_err_partition [of ms err] assms(4) by simp

definition sample_rdkafka :: rdkafka where
  "sample_rdkafka =
     \<lparr>rd_conf_set = (\<lambda>k v. True), rd_new = (\<lambda>n. True), rd_brokers_add = (\<lambda>b. 1),
      rd_topic_new = (\<lambda>n t. True), rd_err = (\<lambda>n i. if i = 1 then - 184 else 0), rd_outq_len = (\<lambda>n. 0)\<rparr>"

definition sample_state :: kafka where
  "sample_state =
     \<lparr>k_rd = sample_rdkafka, k_tick = 0, k_log = [], m_producer_map = [],
      m_kafka_conf = \<lparr>kc_message_max_bytes = 1000, kc_message_send_max_retries = 1, kc_queue_buffering_max_messages = 10\<rparr>\<rparr>"

theorem send_outcome_witness:
  "\<exists>st'. Producer_send [''a'', ''b'', ''c''] [] ''t'' [] 1 (- 1) 0 sample_state = Inr (True, [''b''], st') \<and>
    map kr_payload (k_log st') = [''a'', ''c'']"
proof -
  let ?err = "rd_err (k_rd sample_state) (k_tick sample_state)"
  have "refused ?err [''a'', ''b'', ''c''] = [''b'']" "accepted ?err [''a'', ''b'', ''c''] = [''a'', ''c'']"
    by (simp_all add: refused_def accepted_def with_err_def sample_state_def sample_rdkafka_def
        RD_KAFKA_RESP_ERR_NO_ERROR_def RD_KAFKA_RESP_ERR_QUEUE_FULL_def)
  moreover have "no_NUL [''a'', ''b'', ''c'']" by (simp add: no_NUL_def)
  ultimately show ?thesis
    using send_outcome [of "[''a'', ''b'', ''c'']" "[]" sample_state "''t''" ?err 1 "- 1" 0]
    by (auto simp: sample_state_def sample_rdkafka_def record_of_def)
qed

section \<open>Messages with a NUL byte\<close>

lemma produce_batch_faults: "produce_batch err tp part ms = Inl e \<Longrightarrow> e = Out_of_bounds"
  by (induction ms) (auto simp: read_block_def bindR_def split: if_splits sum.splits)

lemma scan_messages_faults: "scan_messages err ms unsent = Inl e \<Longrightarrow> e = Out_of_bounds"
  by (induction ms arbitrary: unsent) (auto simp: read_block_def bindR_def split: if_splits sum.splits)

lemma produce_batch_short:
  assumes "m \<in> set ms" and "length (rm_payload m) < rm_len m" and "err (rm_private m) = RD_KAFKA_RESP_ERR_NO_ERROR"
  shows "produce_batch err tp part ms = Inl Out_of_bounds"
  using assms
proof (induction ms)
  case (Cons a ms)
  show ?case
  proof (cases "m = a")
    case True
    then show ?thesis using Cons.prems by (simp add: read_block_def)
  next
    case False
    then have "produce_batch err tp part ms = Inl Out_of_bounds" using Cons by simp
    then show ?thesis by (simp add: read_block_def bindR_def)
  qed
qed simp

lemma scan_messages_short:
  assumes "m \<in> set ms" and "length (rm_payload m) < rm_len m" and "err (rm_private m) = RD_KAFKA_RESP_ERR_QUEUE_FULL"
  shows "scan_messages err ms unsent = Inl Out_of_bounds"
  using assms
proof (induction ms arbitrary: unsent)
  case (Cons a ms)
  show ?case
  proof (cases "m = a")
    case True
    then show ?thesis using Cons.prems by (simp add: read_block_def RD_KAFKA_RESP_ERR_QUEUE_FULL_def)
  next
    case False
    then have "scan_messages err ms u = Inl Out_of_bounds" for u using Cons by simp
    then show ?thesis by (simp add: read_block_def bindR_def)
  qed
qed simp

text \<open>
  C39: A message with a NUL byte before its last byte makes \<open>Producer::send\<close> read outside a block:
  \<open>strndup\<close> copies the bytes up to the NUL, but the length handed over with the copy is the
  length of the whole message.
\<close>

theorem send_NUL_overrun:
  assumes "i < length ms" and "Suc (length (cstr (ms ! i))) < length (ms ! i)"
    and "rd_topic_new (k_rd st) (k_tick st) (cstr tp)"
    and "rd_err (k_rd st) (k_tick st) i \<in> {RD_KAFKA_RESP_ERR_NO_ERROR, RD_KAFKA_RESP_ERR_QUEUE_FULL}"
  shows "Producer_send ms unsent tp k acks part tmo st = Inl Out_of_bounds"
proof -
  let ?err = "rd_err (k_rd st) (k_tick st)" and ?rk = "map (make_message k) (enumerate 0 ms)"
  let ?m = "make_message k (i, ms ! i)"
  have mem: "?m \<in> set ?rk"
    using assms(1) by (auto simp: in_set_enumerate_eq intro!: image_eqI [of _ _ "(i, ms ! i)"])
  have short: "length (rm_payload ?m) < rm_len ?m" and i: "rm_private ?m = i"
    using assms(2) by (simp_all add: make_message_def strndup_def)
  consider "?err i = RD_KAFKA_RESP_ERR_NO_ERROR" | "?err i = RD_KAFKA_RESP_ERR_QUEUE_FULL"
    using assms(4) by blast
  then show ?thesis
  proof cases
    case 1
    then show ?thesis
      using produce_batch_short [OF mem short] i assms(3) by (simp add: Producer_send_def)
  next
    case 2
    then have "scan_messages ?err ?rk unsent = Inl Out_of_bounds"
      using scan_messages_short [OF mem short] i by simp
    then show ?thesis
      using produce_batch_faults [of ?err "cstr tp" part ?rk] assms(3)
      by (cases "produce_batch ?err (cstr tp) part ?rk") (auto simp: Producer_send_def)
  qed
qed

theorem send_NUL_overrun_witness:
  "Producer_send [''a'' @ [NUL] @ ''bc''] [] ''t'' [] 1 0 0 sample_state = Inl Out_of_bounds"
  by (rule send_NUL_overrun [of 0])
    (simp_all add: cstr_def sample_state_def sample_rdkafka_def RD_KAFKA_RESP_ERR_NO_ERROR_def)

section \<open>Producers\<close>

lemma producer_of_touch: "producer_of c (touch_producer c' k) = producer_of c k"
  by (auto simp: producer_of_def touch_producer_def smap_simps split: option.splits)

lemma Producer_init_map: "Producer_init b c kc k = (p, k') \<Longrightarrow> m_producer_map k' = m_producer_map k"
  by (auto simp: Producer_init_def k_step_def split: if_splits)

lemma producer_of_put:
  "producer_of c (k\<lparr>m_producer_map := smap_put c' p (m_producer_map k)\<rparr>) = (if c = c' then p else producer_of c k)"
  by (simp add: producer_of_def smap_simps)

lemma producer_of_map: "m_producer_map k' = m_producer_map k \<Longrightarrow> producer_of c k' = producer_of c k"
  by (simp add: producer_of_def)

text \<open>
  C29: \<open>OutputKafka::initProducer\<close> answers true exactly when afterwards the codec is known and has a
  producer; it creates one only when there was none and never touches another codec's producer,
  so an output set up with success always finds its producer.
\<close>

theorem initProducer_spec:
  assumes "initProducer broker_urls codec k = (b, k')"
  shows "(b \<longleftrightarrow> codec \<in> set (smap_keys cc_map) \<and> producer_of codec k' \<noteq> None) \<and>
    (producer_of codec k \<noteq> None \<longrightarrow> producer_of codec k' = producer_of codec k) \<and>
    (\<forall>c. c \<noteq> codec \<longrightarrow> producer_of c k' = producer_of c k)"
proof (cases "smap_find cc_map codec")
  case None
  then show ?thesis using assms by (simp add: initProducer_def sm.set_keys)
next
  case (Some v)
  then have known: "codec \<in> set (smap_keys cc_map)" by (simp add: sm.set_keys)
  let ?k1 = "touch_producer codec k"
  show ?thesis
  proof (cases "producer_of codec ?k1")
    case None
    obtain p k2 where init: "Producer_init broker_urls codec (m_kafka_conf ?k1) ?k1 = (p, k2)" by fastforce
    have m: "producer_of c k2 = producer_of c k" for c
      using producer_of_map [OF Producer_init_map [OF init]] producer_of_touch by metis
    show ?thesis
      using assms Some None init known m producer_of_touch [of codec codec k]
      by (cases p) (auto simp: initProducer_def Let_def producer_of_put)
  next
    case (Some q)
    then show ?thesis
      using assms \<open>smap_find cc_map codec = Some v\<close> known producer_of_touch
      by (auto simp: initProducer_def Let_def)
  qed
qed

theorem initProducer_spec_witness:
  "\<exists>k'. initProducer ''b:9092'' ''gzip'' sample_state = (True, k') \<and> producer_of ''gzip'' k' \<noteq> None"
proof -
  obtain b k' where run: "initProducer ''b:9092'' ''gzip'' sample_state = (b, k')" by fastforce
  have "fst (initProducer ''b:9092'' ''gzip'' sample_state)"
    by code_simp
  then show ?thesis using initProducer_spec [OF run] run by auto
qed

definition drains :: "rdkafka \<Rightarrow> bool" where
  "drains rd \<longleftrightarrow> (\<forall>n. \<exists>m \<ge> n. rd_outq_len rd m = 0)"

lemma Producer_close_drained:
  assumes "drains (k_rd k)"
  shows "\<exists>n. Producer_close k = Inr (k\<lparr>k_tick := n\<rparr>)"
proof -
  obtain m where m: "k_tick k \<le> m" "rd_outq_len (k_rd k) m = 0" using assms by (auto simp: drains_def)
  let ?I = "\<lambda>s. \<exists>n \<le> m. s = k\<lparr>k_tick := n\<rparr>"
  have "\<exists>s. loop poll_step k = Some (Inr s) \<and> ?I s \<and> True"
  proof (rule loop_terminates [where I = ?I and m = "\<lambda>s. m - k_tick s" and R = "\<lambda>_ _. True"])
    show "?I k" using m by (intro exI [of _ "k_tick k"]) simp
    fix s assume "?I s"
    then obtain n where n: "n \<le> m" "s = k\<lparr>k_tick := n\<rparr>" by blast
    show "\<exists>again s'. poll_step s = Inr (again, s') \<and> True \<and>
        (if again then ?I s' \<and> m - k_tick s' < m - k_tick s else ?I s')"
    proof (cases "rd_outq_len (k_rd k) n > 0")
      case True
      then have "n < m" using n m by (cases "n = m") auto
      then show ?thesis using True n
        by (intro exI [of _ True] exI [of _ "k\<lparr>k_tick := n + 1\<rparr>"]) (auto simp: poll_step_def k_step_def intro!: exI [of _ "Suc n"])
    next
      case False
      then show ?thesis using n by (intro exI [of _ False] exI [of _ s]) (auto simp: poll_step_def)
    qed
  qed simp
  then show ?thesis by (auto simp: Producer_close_def)
qed

lemma touch_producer_rest [simp]:
  "k_rd (touch_producer c k) = k_rd k" "k_log (touch_producer c k) = k_log k"
  by (simp_all add: touch_producer_def split: option.split)

lemma stop_codecs_spec:
  "drains (k_rd k) \<Longrightarrow> \<exists>k'. stop_codecs cs k = Inr k' \<and> k_log k' = k_log k \<and>
    (\<forall>c. producer_of c k' = (if c \<in> set cs then None else producer_of c k))"
proof (induction cs arbitrary: k)
  case (Cons c cs)
  let ?k1 = "touch_producer c k"
  show ?case
  proof (cases "producer_of c ?k1")
    case None
    then show ?thesis using Cons.IH [of ?k1] Cons.prems producer_of_touch by (auto simp: Let_def)
  next
    case (Some p)
    obtain n where n: "Producer_close ?k1 = Inr (?k1\<lparr>k_tick := n\<rparr>)"
      using Producer_close_drained [of ?k1] Cons.prems by auto
    let ?k2 = "?k1\<lparr>k_tick := n, m_producer_map := smap_put c None (m_producer_map ?k1)\<rparr>"
    have "producer_of d ?k2 = (if d = c then None else producer_of d k)" for d
      using producer_of_touch [of d c k] by (simp add: producer_of_def smap_simps)
    moreover obtain k' where "stop_codecs cs ?k2 = Inr k' \<and> k_log k' = k_log k \<and>
        (\<forall>d. producer_of d k' = (if d \<in> set cs then None else producer_of d ?k2))"
      using Cons.IH [of ?k2] Cons.prems by auto
    ultimately show ?thesis using Some n by (intro exI [of _ k']) (simp add: Let_def)
  qed
qed simp

text \<open>
  C30: \<open>OutputKafka::stopProducers\<close> returns once the producers' queues have drained, leaves no
  producer behind, and loses nothing of what Kafka had accepted.
\<close>

theorem stopProducers_spec:
  assumes "drains (k_rd k)"
  shows "\<exists>k'. stopProducers k = Inr k' \<and> k_log k' = k_log k \<and>
    (\<forall>c \<in> set (smap_keys cc_map). producer_of c k' = None)"
  using stop_codecs_spec [OF assms, of "smap_keys cc_map"] by (auto simp: stopProducers_def)

theorem stopProducers_spec_witness:
  "\<exists>k'. stopProducers sample_state = Inr k' \<and> producer_of ''gzip'' k' = None"
proof -
  have "drains (k_rd sample_state)" by (auto simp: drains_def sample_state_def sample_rdkafka_def)
  moreover have "''gzip'' \<in> set (smap_keys cc_map)" by code_simp
  ultimately show ?thesis using stopProducers_spec by blast
qed

end
