(* ===== verification/IOHandler.thy ===== *)
theory IOHandler
  imports Output
begin

text \<open>
  Reading a log file and cutting it into lines, \<open>src/logkafka/io_handler.cc\<close>.

  The handler reads into a buffer of fixed size, cuts complete lines off its front, hands
  batches of lines to the receive function and records the position of the first byte that
  was not cut. The world it acts on has the operating system with the number of calls made so
  far, the position file with the position entries, and Kafka.
\<close>

section \<open>The world\<close>

datatype PositionEntryPtr = PE_null | PE_mem nat | PE_file nat

record world =
  w_os :: os
  w_tick :: nat
  w_mem :: "nat \<rightharpoonup> MemoryPositionEntry"
  w_posfile :: pstream
  w_kafka :: kafka

definition w_step :: "world \<Rightarrow> world" where
  "w_step w = w\<lparr>w_tick := w_tick w + 1\<rparr>"

text \<open>Virtual calls on a position entry.\<close>

definition pe_updatePos :: "PositionEntryPtr \<Rightarrow> int \<Rightarrow> world \<Rightarrow> world res" where
  "pe_updatePos pe pos w =
     (case pe of
        PE_null \<Rightarrow> Inl Null_deref
      | PE_mem a \<Rightarrow> (case w_mem w a of None \<Rightarrow> Inl Null_deref
                    | Some e \<Rightarrow> Inr (w\<lparr>w_mem := (w_mem w)(a \<mapsto> Mem_updatePos pos e)\<rparr>))
      | PE_file seek \<Rightarrow> Inr (w\<lparr>w_posfile := FilePE_updatePos seek pos (w_posfile w)\<rparr>))"

definition pe_update :: "PositionEntryPtr \<Rightarrow> int \<Rightarrow> int \<Rightarrow> world \<Rightarrow> world res" where
  "pe_update pe ino pos w =
     (case pe of
        PE_null \<Rightarrow> Inl Null_deref
      | PE_mem a \<Rightarrow> (case w_mem w a of None \<Rightarrow> Inl Null_deref
                    | Some e \<Rightarrow> Inr (w\<lparr>w_mem := (w_mem w)(a \<mapsto> Mem_update ino pos e)\<rparr>))
      | PE_file seek \<Rightarrow> Inr (w\<lparr>w_posfile := FilePE_update seek ino pos (w_posfile w)\<rparr>))"

definition pe_readInode :: "PositionEntryPtr \<Rightarrow> world \<Rightarrow> (int \<times> world) res" where
  "pe_readInode pe w =
     (case pe of
        PE_null \<Rightarrow> Inl Null_deref
      | PE_mem a \<Rightarrow> (case w_mem w a of None \<Rightarrow> Inl Null_deref | Some e \<Rightarrow> Inr (fst (Mem_readInode e), w))
      | PE_file seek \<Rightarrow> (case FilePE_readInode seek (w_posfile w) of (i, f) \<Rightarrow> Inr (i, w\<lparr>w_posfile := f\<rparr>)))"

definition pe_readPos :: "PositionEntryPtr \<Rightarrow> world \<Rightarrow> (int \<times> world) res" where
  "pe_readPos pe w =
     (case pe of
        PE_null \<Rightarrow> Inl Null_deref
      | PE_mem a \<Rightarrow> (case w_mem w a of None \<Rightarrow> Inl Null_deref | Some e \<Rightarrow> Inr (fst (Mem_readPos e), w))
      | PE_file seek \<Rightarrow> (case FilePE_readPos seek (w_posfile w) of (p, f) \<Rightarrow> Inr (p, w\<lparr>w_posfile := f\<rparr>)))"

section \<open>The handler\<close>

record IOHandler =
  m_file :: "stream option"
  m_position_entry :: PositionEntryPtr
  m_max_line_at_once :: nat
  m_line_max_bytes :: nat
  m_buffer_max_bytes :: nat
  m_buffer_stuck_max_ms :: int
  m_buffer_last_segment :: bool
  m_receive_func :: "ReceiveFunc option"
  m_filter :: "FilterRegex option"
  m_output :: "OutputKafka option"
  m_buffer :: "char list"
  m_buffer_len :: nat
  m_line_delimiter :: char
  m_remove_delimiter :: bool
  m_lines :: "string list"
  m_last_io_time :: int
  m_last_buffer_stuck_time :: int

text \<open>
  The constructor and \<open>init\<close>. The sizes are \<open>unsigned int\<close>, so the size of the block
  wraps around at \<open>2 ^ 32\<close>.
\<close>

definition IOHandler_init ::
  "stream option \<Rightarrow> PositionEntryPtr \<Rightarrow> int \<Rightarrow> int \<Rightarrow> int \<Rightarrow> char \<Rightarrow> bool \<Rightarrow> FilterRegex option \<Rightarrow>
     OutputKafka option \<Rightarrow> ReceiveFunc option \<Rightarrow> world \<Rightarrow> IOHandler option \<times> world" where
  "IOHandler_init file pe max_line_at_once line_max_bytes buffer_max_bytes delim rm flt out recv w =
     (if \<not> os_malloc (w_os w) (w_tick w) then (None, w_step w)
      else case os_time (w_os w) (w_tick w + 1) of
             None \<Rightarrow> (None, w_step (w_step w))
           | Some now \<Rightarrow>
               (Some \<lparr>m_file = file, m_position_entry = pe,
                      m_max_line_at_once = nat (u32 max_line_at_once),
                      m_line_max_bytes = nat (u32 line_max_bytes),
                      m_buffer_max_bytes = nat (u32 buffer_max_bytes),
                      m_buffer_stuck_max_ms = 10000, m_buffer_last_segment = False,
                      m_receive_func = recv, m_filter = flt, m_output = out,
                      m_buffer = replicate (nat (u32 (buffer_max_bytes + 1))) NUL, m_buffer_len = 0,
                      m_line_delimiter = delim, m_remove_delimiter = rm, m_lines = [],
                      m_last_io_time = now, m_last_buffer_stuck_time = 0\<rparr>, w_step (w_step w)))"

section \<open>Times\<close>

definition updateLastIOTime :: "IOHandler \<Rightarrow> world \<Rightarrow> IOHandler \<times> world" where
  "updateLastIOTime h w =
     ((if os_trylock (w_os w) (w_tick w)
       then case os_time (w_os w) (w_tick w) of None \<Rightarrow> h | Some now \<Rightarrow> h\<lparr>m_last_io_time := now\<rparr>
       else h), w_step w)"

definition getLastIOTime :: "IOHandler \<Rightarrow> world \<Rightarrow> int option \<times> world" where
  "getLastIOTime h w =
     ((if os_trylock (w_os w) (w_tick w) then Some (m_last_io_time h) else None), w_step w)"

definition updateLastBufferStuckTime :: "IOHandler \<Rightarrow> world \<Rightarrow> IOHandler \<times> world" where
  "updateLastBufferStuckTime h w =
     ((if os_trylock (w_os w) (w_tick w)
       then case os_time (w_os w) (w_tick w) of None \<Rightarrow> h | Some now \<Rightarrow> h\<lparr>m_last_buffer_stuck_time := now\<rparr>
       else h), w_step w)"

definition getLastBufferStuckTime :: "IOHandler \<Rightarrow> world \<Rightarrow> int option \<times> world" where
  "getLastBufferStuckTime h w =
     ((if os_trylock (w_os w) (w_tick w) then Some (m_last_buffer_stuck_time h) else None), w_step w)"

text \<open>Seconds are multiplied by \<open>1000UL\<close>, so the difference is taken modulo \<open>2 ^ 64\<close>.\<close>

definition elapsed_ms :: "int \<Rightarrow> int \<Rightarrow> int" where
  "elapsed_ms now before = u64 ((now - before) * 1000)"

definition isBufferStuck :: "IOHandler \<Rightarrow> world \<Rightarrow> bool \<times> world" where
  "isBufferStuck h w =
     (case os_time (w_os w) (w_tick w) of
        None \<Rightarrow> (False, w_step w)
      | Some now \<Rightarrow>
          (case getLastBufferStuckTime h (w_step w) of
             (None, w') \<Rightarrow> (False, w')
           | (Some before, w') \<Rightarrow> (elapsed_ms now before > m_buffer_stuck_max_ms h, w')))"

section \<open>The file\<close>

definition IOHandler_close :: "IOHandler \<Rightarrow> IOHandler" where
  "IOHandler_close h = h\<lparr>m_file := None\<rparr>"

definition getFileInode :: "IOHandler \<Rightarrow> world \<Rightarrow> int" where
  "getFileInode h w =
     (case m_file h of None \<Rightarrow> INO_NONE | Some f \<Rightarrow> getInode_file (os_fs (w_os w) (w_tick w)) (Some f))"

definition getFileSize :: "IOHandler \<Rightarrow> world \<Rightarrow> int" where
  "getFileSize h w =
     (case m_file h of None \<Rightarrow> 0 | Some f \<Rightarrow> getFsize_file (os_fs (w_os w) (w_tick w)) (Some f))"

definition getFilePos :: "IOHandler \<Rightarrow> int" where
  "getFilePos h = (case m_file h of None \<Rightarrow> 0 | Some f \<Rightarrow> ftell f)"

section \<open>Cutting lines\<close>

text \<open>The bytes \<open>from\<close> up to \<open>from + len\<close> of the buffer as a string.\<close>

definition buf_str :: "IOHandler \<Rightarrow> nat \<Rightarrow> nat \<Rightarrow> string" where
  "buf_str h from len = take len (drop from (m_buffer h))"

text \<open>The \<open>for\<close> loop: index, start of the current line, lines, and whether it broke off.\<close>

function split_loop ::
  "IOHandler \<Rightarrow> nat \<Rightarrow> nat \<Rightarrow> string list \<Rightarrow> nat \<times> nat \<times> string list \<times> bool" where
  "split_loop h i cur_buf_pos ls =
     (if i < m_buffer_len h then
        if length ls \<ge> m_max_line_at_once h then (i, cur_buf_pos, ls, True)
        else let cur_line_len = i + 1 - cur_buf_pos in
          if m_buffer h ! i = m_line_delimiter h then
            split_loop h (i + 1) (i + 1)
              (ls @ [buf_str h cur_buf_pos (if m_remove_delimiter h then cur_line_len - 1 else cur_line_len)])
          else if cur_line_len \<ge> m_line_max_bytes h then
            split_loop h (i + 1) (i + 1) (ls @ [buf_str h cur_buf_pos cur_line_len])
          else split_loop h (i + 1) cur_buf_pos ls
      else (i, cur_buf_pos, ls, False))"
  by pat_completeness auto
termination
  by (relation "measure (\<lambda>(h, i, c, ls). m_buffer_len h - i)") auto

declare split_loop.simps [simp del]

text \<open>
  What follows a read: cut the buffer and move the rest to its head. The \<open>memcpy\<close> is taken
  to copy forwards.
\<close>

definition split_buffer :: "IOHandler \<Rightarrow> world \<Rightarrow> bool \<times> IOHandler \<times> world" where
  "split_buffer h w =
     (if m_buffer_len h = 0 then (False, h, w)
      else case split_loop h 0 0 (m_lines h) of
             (i, cur_buf_pos, ls, broke) \<Rightarrow>
               (let left_bytes = m_buffer_len h - cur_buf_pos;
                    h1 = h\<lparr>m_lines := ls, m_buffer_last_segment := (i = m_buffer_len h), m_buffer_len := left_bytes\<rparr>
                in if left_bytes > 0 then
                     case updateLastBufferStuckTime
                            (h1\<lparr>m_buffer := buf_str h cur_buf_pos left_bytes @ drop left_bytes (m_buffer h)\<rparr>) w of
                       (h2, w2) \<Rightarrow> (broke, h2, w2)
                   else (broke, h1, w)))"

text \<open>
  Reading into the buffer behind the bytes it has; the difference of the sizes is a \<open>size_t\<close>.
\<close>

definition read_buffer :: "IOHandler \<Rightarrow> world \<Rightarrow> (nat \<times> IOHandler \<times> world) res" where
  "read_buffer h w =
     (case m_file h of
        None \<Rightarrow> Inr (0, h, w)
      | Some f \<Rightarrow>
          (case fread (w_os w) (w_tick w) (nat (u64 (int (m_buffer_max_bytes h) - int (m_buffer_len h)))) f of
             (got, f') \<Rightarrow>
               if m_buffer_len h + length got > length (m_buffer h) then Inl Out_of_bounds
               else Inr (length got,
                 h\<lparr>m_file := Some f', m_buffer_len := m_buffer_len h + length got,
                   m_buffer := take (m_buffer_len h) (m_buffer h) @ got @
                                 drop (m_buffer_len h + length got) (m_buffer h)\<rparr>, w_step w)))"

section \<open>Notification\<close>

type_synonym io_state = "bool \<times> IOHandler \<times> world"

text \<open>The body of the inner loop; the first component of the state is \<open>read_more\<close>.\<close>

definition read_step :: "io_state \<Rightarrow> (bool \<times> io_state) res" where
  "read_step st =
     (case st of (read_more, h, w) \<Rightarrow>
        bindR (read_buffer h w) (\<lambda>(read_len, h1, w1).
          case split_buffer h1 w1 of (broke, h2, w2) \<Rightarrow>
            (let read_more = (read_more \<or> broke)
             in if read_len = 0 then
                  if m_file h2 = None then Inl Null_deref else Inr (False, (read_more, h2, w2))
                else if length (m_lines h2) \<ge> m_max_line_at_once h2 then Inr (False, (True, h2, w2))
                else Inr (True, (read_more, h2, w2)))))"

text \<open>
  Handing the lines over: the position is committed when the receive function returns true,
  and the lines it could not send are kept.
\<close>

definition receive_step :: "IOHandler \<Rightarrow> world \<Rightarrow> (string list \<times> IOHandler \<times> world) res" where
  "receive_step h w =
     (if m_lines h = [] then Inr ([], h, w)
      else case m_receive_func h of
             None \<Rightarrow> Inl Null_deref
           | Some recv \<Rightarrow>
               (case updateLastIOTime h w of (h1, w1) \<Rightarrow>
                  bindR (recv (m_filter h1) (m_output h1) (m_lines h1) (w_kafka w1)) (\<lambda>(ok, unsent, k).
                    let w2 = w1\<lparr>w_kafka := k\<rparr>
                    in if ok then
                         bindR (pe_updatePos (m_position_entry h1)
                                  (s64 (u64 (getFilePos h1 - int (m_buffer_len h1)))) w2) (\<lambda>w3.
                           Inr (unsent, h1\<lparr>m_lines := unsent\<rparr>, w3))
                       else Inr (unsent, h1, w2))))"

text \<open>The body of the outer loop.\<close>

definition notify_step :: "IOHandler \<times> world \<Rightarrow> (bool \<times> IOHandler \<times> world) res" where
  "notify_step st =
     bindR (returns (loop read_step (False, fst st, snd st))) (\<lambda>(read_more, h1, w1).
     bindR (receive_step h1 w1) (\<lambda>(unsent, h2, w2).
       Inr (read_more \<and> unsent = [], h2, w2)))"

text \<open>A buffer whose last bytes made no line for ten seconds is taken as a line.\<close>

definition flush_stuck :: "IOHandler \<Rightarrow> world \<Rightarrow> IOHandler \<times> world" where
  "flush_stuck h w =
     (if m_buffer_len h = 0 then (h, w)
      else case updateLastIOTime h w of (h1, w1) \<Rightarrow>
             if length (m_lines h1) < m_max_line_at_once h1 then
               case isBufferStuck h1 w1 of (stuck, w2) \<Rightarrow>
                 if stuck \<and> m_buffer_last_segment h1
                 then (h1\<lparr>m_lines := m_lines h1 @ [buf_str h1 0 (m_buffer_len h1)], m_buffer_len := 0\<rparr>, w2)
                 else (h1, w2)
             else (h1, w1))"

definition IOHandler_onNotify :: "IOHandler option \<Rightarrow> world \<Rightarrow> (IOHandler option \<times> world) res" where
  "IOHandler_onNotify ioh w =
     (case ioh of
        None \<Rightarrow> Inr (None, w)
      | Some h \<Rightarrow>
          if m_receive_func h = None then Inr (Some h, w)
          else if m_file h = None then Inr (Some h, w)
          else case flush_stuck h w of (h1, w1) \<Rightarrow>
            bindR (receive_step h1 w1) (\<lambda>(unsent, h2, w2).
              if unsent \<noteq> [] then Inr (Some h2, w2)
              else bindR (returns (loop notify_step (h2, w2))) (\<lambda>(h3, w3). Inr (Some h3, w3))))"

end
