(* ===== verification/Watchers.thy ===== *)
theory Watchers
  imports IOHandler
begin

text \<open>
  The libuv handles the program waits on, \<open>src/base/timer_watcher.cc\<close> and
  \<open>src/base/stat_watcher.cc\<close>. A handle is absent, or present and active or not; whether libuv
  can initialise or start one is the operating system's answer. The event loop itself is not
  modelled: a watcher that is active may call its function at any time.
\<close>

section \<open>Timer\<close>

record TimerWatcher =
  tmw_timeout :: int
  tmw_repeat :: int
  tmw_handle :: "bool option"

definition TimerWatcher_init :: "int \<Rightarrow> int \<Rightarrow> world \<Rightarrow> bool \<times> TimerWatcher \<times> world" where
  "TimerWatcher_init timeout repeat w =
     (let t = \<lparr>tmw_timeout = timeout, tmw_repeat = repeat, tmw_handle = None\<rparr>
      in if \<not> os_uv (w_os w) (w_tick w) then (False, t, w_step w)
         else if \<not> os_uv (w_os w) (w_tick w + 1) then (False, t\<lparr>tmw_handle := Some False\<rparr>, w_step (w_step w))
         else (True, t\<lparr>tmw_handle := Some True\<rparr>, w_step (w_step w)))"

text \<open>The callback of the handle: nothing when there is no function.\<close>

definition TimerWatcher_cb_func :: "('s \<Rightarrow> 's res) option \<Rightarrow> 's \<Rightarrow> 's res" where
  "TimerWatcher_cb_func event_cb_func s = (case event_cb_func of None \<Rightarrow> Inr s | Some f \<Rightarrow> f s)"

definition TimerWatcher_stop :: "TimerWatcher \<Rightarrow> TimerWatcher" where
  "TimerWatcher_stop t = t\<lparr>tmw_handle := map_option (\<lambda>_. False) (tmw_handle t)\<rparr>"

definition TimerWatcher_start :: "TimerWatcher \<Rightarrow> world \<Rightarrow> TimerWatcher \<times> world" where
  "TimerWatcher_start t w =
     ((if os_uv (w_os w) (w_tick w) then t\<lparr>tmw_handle := map_option (\<lambda>_. True) (tmw_handle t)\<rparr> else t), w_step w)"

text \<open>\<open>uv_close\<close> makes the handle inactive, so the wait for that ends at once.\<close>

definition TimerWatcher_close :: "TimerWatcher \<Rightarrow> TimerWatcher" where
  "TimerWatcher_close t = t\<lparr>tmw_handle := map_option (\<lambda>_. False) (tmw_handle t)\<rparr>"

section \<open>Stat\<close>

record StatWatcher =
  stw_path :: string
  stw_interval :: int
  stw_handle :: "bool option"

definition StatWatcher_init :: "string \<Rightarrow> int \<Rightarrow> world \<Rightarrow> bool \<times> StatWatcher \<times> world" where
  "StatWatcher_init path interval w =
     (let s = \<lparr>stw_path = path, stw_interval = interval, stw_handle = Some False\<rparr>
      in if \<not> os_uv (w_os w) (w_tick w) then (False, s, w_step w)
         else if \<not> os_uv (w_os w) (w_tick w + 1) then (False, s, w_step (w_step w))
         else (True, s\<lparr>stw_handle := Some True\<rparr>, w_step (w_step w)))"

definition StatWatcher_cb_func :: "('s \<Rightarrow> 's res) option \<Rightarrow> 's \<Rightarrow> 's res" where
  "StatWatcher_cb_func event_cb_func s = (case event_cb_func of None \<Rightarrow> Inr s | Some f \<Rightarrow> f s)"

definition StatWatcher_stop :: "StatWatcher \<Rightarrow> StatWatcher" where
  "StatWatcher_stop s = s\<lparr>stw_handle := map_option (\<lambda>_. False) (stw_handle s)\<rparr>"

text \<open>A restart polls every 3000 ms, whatever the interval was.\<close>

definition StatWatcher_start :: "StatWatcher \<Rightarrow> world \<Rightarrow> StatWatcher \<times> world" where
  "StatWatcher_start s w =
     ((if os_uv (w_os w) (w_tick w)
       then s\<lparr>stw_interval := 3000, stw_handle := map_option (\<lambda>_. True) (stw_handle s)\<rparr> else s), w_step w)"

definition StatWatcher_close :: "StatWatcher \<Rightarrow> StatWatcher" where
  "StatWatcher_close s = s\<lparr>stw_handle := map_option (\<lambda>_. False) (stw_handle s)\<rparr>"

end
