(* ===== verification/Json.thy ===== *)
theory Json
  imports Tools
begin

text \<open>
  Typed access to the members of a JSON object, \<open>src/base/json.cc\<close>. A parsed value of
  rapidjson is a \<open>json\<close>; an integral number carries its exact value, and the
  \<open>IsInt\<close> family tests the range of that value. \<open>JsonErr\<close> is the error string the
  functions throw, here the left result.
\<close>

datatype json =
    JNull
  | JBool bool
  | JObject "(string \<times> json) list"
  | JArray "json list"
  | JString string
  | JInt int
  | JDouble

type_synonym JsonErr = string

fun IsObject :: "json \<Rightarrow> bool" where
  "IsObject (JObject ms) = True"
| "IsObject _ = False"

fun IsInt :: "json \<Rightarrow> bool" where
  "IsInt (JInt n) = (- (2 ^ 31) \<le> n \<and> n < 2 ^ 31)"
| "IsInt _ = False"

fun IsUint :: "json \<Rightarrow> bool" where
  "IsUint (JInt n) = (0 \<le> n \<and> n < 2 ^ 32)"
| "IsUint _ = False"

fun IsInt64 :: "json \<Rightarrow> bool" where
  "IsInt64 (JInt n) = (- (2 ^ 63) \<le> n \<and> n < 2 ^ 63)"
| "IsInt64 _ = False"

fun IsUint64 :: "json \<Rightarrow> bool" where
  "IsUint64 (JInt n) = (0 \<le> n \<and> n < 2 ^ 64)"
| "IsUint64 _ = False"

fun IsString :: "json \<Rightarrow> bool" where
  "IsString (JString s) = True"
| "IsString _ = False"

fun IsBool :: "json \<Rightarrow> bool" where
  "IsBool (JBool b) = True"
| "IsBool _ = False"

fun GetInteger :: "json \<Rightarrow> int" where
  "GetInteger (JInt n) = n"
| "GetInteger _ = 0"

text \<open>\<open>GetString\<close> answers a C string, so a text with NUL is cut there.\<close>

fun GetString :: "json \<Rightarrow> string" where
  "GetString (JString s) = cstr s"
| "GetString _ = []"

fun GetBool :: "json \<Rightarrow> bool" where
  "GetBool (JBool b) = b"
| "GetBool _ = False"

fun FindMember :: "json \<Rightarrow> string \<Rightarrow> json option" where
  "FindMember (JObject ms) name = map_of ms name"
| "FindMember _ name = None"

text \<open>Index of a value's type in \<open>Json::TypeNames\<close>.\<close>

definition TypeNames :: "string list" where
  "TypeNames = [''Null'', ''False'', ''True'', ''Object'', ''Array'', ''String'', ''Number'']"

fun GetType :: "json \<Rightarrow> nat" where
  "GetType JNull = 0"
| "GetType (JBool b) = (if b then 2 else 1)"
| "GetType (JObject ms) = 3"
| "GetType (JArray vs) = 4"
| "GetType (JString s) = 5"
| "GetType (JInt n) = 6"
| "GetType JDouble = 6"

text \<open>
  The six overloads of \<open>Json::getValue\<close>; a null name is no value. They share the
  checks before the member is found.
\<close>

definition getMember :: "json \<Rightarrow> string option \<Rightarrow> JsonErr + string \<times> json" where
  "getMember obj name =
     (case name of
        None \<Rightarrow> Inl ''name is NULL''
      | Some nm \<Rightarrow>
          if \<not> IsObject obj then Inl ''obj is not a valid json object''
          else case FindMember obj nm of
                 Some v \<Rightarrow> Inr (nm, v)
               | None \<Rightarrow> Inl (''json object do not have name ('' @ nm @ '')''))"

definition getValue_int32 :: "json \<Rightarrow> string option \<Rightarrow> JsonErr + int" where
  "getValue_int32 obj name =
     (case getMember obj name of
        Inl e \<Rightarrow> Inl e
      | Inr (nm, v) \<Rightarrow>
          if IsInt v then Inr (GetInteger v)
          else Inl (''the value of '' @ nm @ '' is not int32_t''))"

definition getValue_uint32 :: "json \<Rightarrow> string option \<Rightarrow> JsonErr + int" where
  "getValue_uint32 obj name =
     (case getMember obj name of
        Inl e \<Rightarrow> Inl e
      | Inr (nm, v) \<Rightarrow>
          if IsUint v then Inr (GetInteger v)
          else Inl (''the value of '' @ nm @ '' is not uint32_t''))"

definition getValue_int64 :: "json \<Rightarrow> string option \<Rightarrow> JsonErr + int" where
  "getValue_int64 obj name =
     (case getMember obj name of
        Inl e \<Rightarrow> Inl e
      | Inr (nm, v) \<Rightarrow>
          if IsInt64 v then Inr (GetInteger v)
          else Inl (''the value of '' @ nm @ '' is not int64_t''))"

definition getValue_uint64 :: "json \<Rightarrow> string option \<Rightarrow> JsonErr + int" where
  "getValue_uint64 obj name =
     (case getMember obj name of
        Inl e \<Rightarrow> Inl e
      | Inr (nm, v) \<Rightarrow>
          if IsUint64 v then Inr (GetInteger v)
          else Inl (''the value of '' @ nm @ '' is not uint64_t''))"

definition getValue_string :: "json \<Rightarrow> string option \<Rightarrow> JsonErr + string" where
  "getValue_string obj name =
     (case getMember obj name of
        Inl e \<Rightarrow> Inl e
      | Inr (nm, v) \<Rightarrow>
          if IsString v then Inr (GetString v)
          else Inl (''the value of '' @ nm @ '' is not string''))"

definition getValue_bool :: "json \<Rightarrow> string option \<Rightarrow> JsonErr + bool" where
  "getValue_bool obj name =
     (case getMember obj name of
        Inl e \<Rightarrow> Inl e
      | Inr (nm, v) \<Rightarrow>
          if IsBool v then Inr (GetBool v)
          else Inl (''the value of '' @ nm @ '' is not bool''))"

text \<open>\<open>Json::serialize\<close>; the writer of rapidjson is a parameter, and its text is read as a C string.\<close>

definition serialize :: "(json \<Rightarrow> string) \<Rightarrow> json \<Rightarrow> string" where
  "serialize accept v = cstr (accept v)"

lemma getValue_string_Inr:
  "getValue_string obj (Some nm) = Inr s \<longleftrightarrow>
    (\<exists>ms t. obj = JObject ms \<and> map_of ms nm = Some (JString t) \<and> s = cstr t)"
  by (cases obj) (auto simp: getValue_string_def getMember_def split: option.splits elim!: IsString.elims)

lemma getValue_int32_Inr:
  "getValue_int32 obj (Some nm) = Inr n \<longleftrightarrow>
    (\<exists>ms. obj = JObject ms \<and> map_of ms nm = Some (JInt n) \<and> - (2 ^ 31) \<le> n \<and> n < 2 ^ 31)"
  by (cases obj) (auto simp: getValue_int32_def getMember_def split: option.splits elim!: IsInt.elims)

lemma getValue_string_clean: "getValue_string obj nm = Inr s \<Longrightarrow> NUL \<notin> set s"
  by (auto simp: getValue_string_def split: sum.splits if_splits elim!: IsString.elims)

end
