(* ===== verification/Config.thy ===== *)
theory Config
  imports Tools
begin

text \<open>
  The process configuration, \<open>src/logkafka/config.cc\<close>. The constructor declares the
  options with their defaults; \<open>init\<close> parses the file, copies the options into the
  object and checks them. The parser of libconfuse is a parameter: its return code and
  the options the file sets.
\<close>

section \<open>The option table\<close>

datatype cfg_value = CfgStr string | CfgInt int

definition CFG_SUCCESS :: int where "CFG_SUCCESS = 0"
definition CFG_FILE_ERROR :: int where "CFG_FILE_ERROR = - 1"
definition CFG_PARSE_ERROR :: int where "CFG_PARSE_ERROR = 1"

definition DEFAULT_LINE_MAX_BYTES :: int where "DEFAULT_LINE_MAX_BYTES = 1048576"
definition DEFAULT_READ_MAX_BYTES :: int where "DEFAULT_READ_MAX_BYTES = 1048576"
definition DEFAULT_KEY_MAX_BYTES :: int where "DEFAULT_KEY_MAX_BYTES = 1024"
definition DEFAULT_STAT_SILENT_MAX_MS :: int where "DEFAULT_STAT_SILENT_MAX_MS = 10000"
definition HARD_LIMIT_LINE_MAX_BYTES :: int where "HARD_LIMIT_LINE_MAX_BYTES = 1073741824"
definition HARD_LIMIT_READ_MAX_BYTES :: int where "HARD_LIMIT_READ_MAX_BYTES = 1073741824"
definition HARD_LIMIT_KEY_MAX_BYTES :: int where "HARD_LIMIT_KEY_MAX_BYTES = 10240"
definition HARD_LIMIT_ZOOKEEPER_UPLOAD_INTERVAL :: int where
  "HARD_LIMIT_ZOOKEEPER_UPLOAD_INTERVAL = 60000"

definition TIMER_WATCHER_DEFAULT_REPEAT :: int where "TIMER_WATCHER_DEFAULT_REPEAT = 3000"
definition STAT_WATCHER_DEFAULT_INTERVAL :: int where "STAT_WATCHER_DEFAULT_INTERVAL = 1000"

definition config_opts :: "(string \<times> cfg_value) list" where
  "config_opts =
     [(''zookeeper.connect'', CfgStr ''127.0.0.1:2181''),
      (''pos.path'', CfgStr ''logkafka.pos''),
      (''logkafka.id'', CfgStr ''''),
      (''line.max.bytes'', CfgInt DEFAULT_LINE_MAX_BYTES),
      (''read.max.bytes'', CfgInt DEFAULT_READ_MAX_BYTES),
      (''key.max.bytes'', CfgInt DEFAULT_KEY_MAX_BYTES),
      (''stat.silent.max.ms'', CfgInt DEFAULT_STAT_SILENT_MAX_MS),
      (''zookeeper.upload.interval'', CfgInt 10000),
      (''refresh.interval'', CfgInt 60000),
      (''path.queue.max.size'', CfgInt 100),
      (''message.send.max.retries'', CfgInt 10000),
      (''queue.buffering.max.messages'', CfgInt 10000)]"

type_synonym cfg = "string \<Rightarrow> cfg_value option"

text \<open>An option the file does not set keeps its default; an unknown name answers 0 or the null string.\<close>

definition cfg_lookup :: "cfg \<Rightarrow> string \<Rightarrow> cfg_value option" where
  "cfg_lookup cfg name =
     (case map_of config_opts name of
        None \<Rightarrow> None
      | Some d \<Rightarrow> (case cfg name of Some v \<Rightarrow> Some v | None \<Rightarrow> Some d))"

definition cfg_getstr :: "cfg \<Rightarrow> string \<Rightarrow> string" where
  "cfg_getstr cfg name = (case cfg_lookup cfg name of Some (CfgStr s) \<Rightarrow> s | _ \<Rightarrow> [])"

definition cfg_getint :: "cfg \<Rightarrow> string \<Rightarrow> int" where
  "cfg_getint cfg name = (case cfg_lookup cfg name of Some (CfgInt n) \<Rightarrow> n | _ \<Rightarrow> 0)"

section \<open>The object\<close>

record config =
  zookeeper_connect :: string
  zookeeper_urls :: string
  kafka_chroot_path :: string
  pos_path :: string
  logkafka_id :: string
  line_max_bytes :: int
  read_max_bytes :: int
  key_max_bytes :: int
  zookeeper_upload_interval :: int
  refresh_interval :: int
  stat_silent_max_ms :: int
  cfg_path_queue_max_size :: int
  message_send_max_retries :: int
  queue_buffering_max_messages :: int

text \<open>\<open>TailWatcher::isStateSilentMaxMsValid\<close>.\<close>

definition isStateSilentMaxMsValid :: "int \<Rightarrow> bool" where
  "isStateSilentMaxMsValid ms =
     (let lower_limit = max STAT_WATCHER_DEFAULT_INTERVAL TIMER_WATCHER_DEFAULT_REPEAT
      in \<not> ms \<le> lower_limit)"

text \<open>The copy of the options into the fields; the numbers become \<open>unsigned long\<close>.\<close>

definition config_read :: "cfg \<Rightarrow> string option \<Rightarrow> config" where
  "config_read cfg hostname =
     \<lparr>zookeeper_connect = cfg_getstr cfg ''zookeeper.connect'',
      zookeeper_urls = [],
      kafka_chroot_path = [],
      pos_path = cfg_getstr cfg ''pos.path'',
      logkafka_id =
        (let i = cfg_getstr cfg ''logkafka.id'' in if i = [] then getHostname hostname else i),
      line_max_bytes = u64 (cfg_getint cfg ''line.max.bytes''),
      read_max_bytes = u64 (cfg_getint cfg ''read.max.bytes''),
      key_max_bytes = u64 (cfg_getint cfg ''key.max.bytes''),
      zookeeper_upload_interval = u64 (cfg_getint cfg ''zookeeper.upload.interval''),
      refresh_interval = u64 (cfg_getint cfg ''refresh.interval''),
      stat_silent_max_ms = u64 (cfg_getint cfg ''stat.silent.max.ms''),
      cfg_path_queue_max_size = u64 (cfg_getint cfg ''path.queue.max.size''),
      message_send_max_retries = u64 (cfg_getint cfg ''message.send.max.retries''),
      queue_buffering_max_messages = u64 (cfg_getint cfg ''queue.buffering.max.messages'')\<rparr>"

text \<open>The connection string is cut at its first slash.\<close>

definition split_chroot :: "config \<Rightarrow> config" where
  "split_chroot c =
     (let zc = zookeeper_connect c
      in case str_find zc ''/'' 0 of
           Some first_slash \<Rightarrow>
             c\<lparr>zookeeper_urls := take first_slash zc, kafka_chroot_path := drop first_slash zc\<rparr>
         | None \<Rightarrow> c\<lparr>zookeeper_urls := zc, kafka_chroot_path := []\<rparr>)"

definition config_check :: "config \<Rightarrow> bool" where
  "config_check c =
     (if logkafka_id c = [] then False
      else if line_max_bytes c > HARD_LIMIT_LINE_MAX_BYTES then False
      else if read_max_bytes c > HARD_LIMIT_READ_MAX_BYTES then False
      else if key_max_bytes c > HARD_LIMIT_KEY_MAX_BYTES then False
      else if read_max_bytes c < line_max_bytes c then False
      else if \<not> isStateSilentMaxMsValid (stat_silent_max_ms c) then False
      else if zookeeper_upload_interval c > HARD_LIMIT_ZOOKEEPER_UPLOAD_INTERVAL then False
      else True)"

text \<open>A relative position path is relative to the directory of the configuration file.\<close>

definition absolute_pos_path :: "string \<Rightarrow> config \<Rightarrow> config" where
  "absolute_pos_path realdir c =
     (if \<not> isAbsPath (pos_path c) then c\<lparr>pos_path := realdir @ ''/'' @ pos_path c\<rparr> else c)"

text \<open>
  \<open>Config::init\<close>. The parameters after the object stand for libconfuse's parser, the
  platform's \<open>realpath\<close> and its \<open>gethostname\<close>. The object is left unchanged when
  the file cannot be parsed.
\<close>

definition Config_init ::
  "(string \<Rightarrow> int \<times> cfg) \<Rightarrow> (string \<Rightarrow> string option) \<Rightarrow> string option \<Rightarrow>
     config \<Rightarrow> string \<Rightarrow> bool \<times> config" where
  "Config_init cfg_parse realpath hostname c0 filepath =
     (case cfg_parse filepath of (ret, cfg) \<Rightarrow>
        if ret = CFG_PARSE_ERROR then (False, c0)
        else if ret = CFG_FILE_ERROR then (False, c0)
        else
          (case realDir realpath filepath of
             None \<Rightarrow> (False, c0)
           | Some realdir \<Rightarrow>
               (let c = absolute_pos_path realdir (split_chroot (config_read cfg hostname))
                in (config_check c, c))))"

section \<open>What a successful initialisation guarantees\<close>

definition config_ok :: "config \<Rightarrow> bool" where
  "config_ok c \<longleftrightarrow>
     logkafka_id c \<noteq> [] \<and>
     0 \<le> line_max_bytes c \<and> line_max_bytes c \<le> read_max_bytes c \<and> read_max_bytes c \<le> 2 ^ 30 \<and>
     key_max_bytes c \<le> 10240 \<and> 3000 < stat_silent_max_ms c \<and> zookeeper_upload_interval c \<le> 60000"

lemma config_checkD: "config_check c \<Longrightarrow> 0 \<le> line_max_bytes c \<Longrightarrow> config_ok c"
  by (auto simp: config_check_def config_ok_def isStateSilentMaxMsValid_def Let_def
      HARD_LIMIT_LINE_MAX_BYTES_def HARD_LIMIT_READ_MAX_BYTES_def HARD_LIMIT_KEY_MAX_BYTES_def
      HARD_LIMIT_ZOOKEEPER_UPLOAD_INTERVAL_def STAT_WATCHER_DEFAULT_INTERVAL_def
      TIMER_WATCHER_DEFAULT_REPEAT_def split: if_splits)

lemma split_chroot_fields [simp]:
  "logkafka_id (split_chroot c) = logkafka_id c"
  "line_max_bytes (split_chroot c) = line_max_bytes c"
  "pos_path (split_chroot c) = pos_path c"
  "zookeeper_connect (split_chroot c) = zookeeper_connect c"
  by (simp_all add: split_chroot_def Let_def split: option.splits)

lemma split_chroot_spec:
  "zookeeper_urls (split_chroot c) @ kafka_chroot_path (split_chroot c) = zookeeper_connect c"
  "CHR ''/'' \<notin> set (zookeeper_urls (split_chroot c))"
  "kafka_chroot_path (split_chroot c) = [] \<or> hd (kafka_chroot_path (split_chroot c)) = CHR ''/''"
proof -
  let ?zc = "zookeeper_connect c"
  show "zookeeper_urls (split_chroot c) @ kafka_chroot_path (split_chroot c) = ?zc"
    by (simp add: split_chroot_def Let_def split: option.splits)
  have slash: "CHR ''/'' \<notin> set (take p ?zc) \<and> (drop p ?zc = [] \<or> hd (drop p ?zc) = CHR ''/'')"
    if "str_find ?zc ''/'' 0 = Some p" for p
  proof -
    note f = str_find_Some [OF that]
    have "?zc ! i \<noteq> CHR ''/''" if "i < p" for i
      using f(4) [of i] f(2) that by (auto simp: prefixed_def take_Suc hd_drop_conv_nth)
    then have "CHR ''/'' \<notin> set (take p ?zc)" using f(2) by (auto simp: in_set_conv_nth)
    moreover have "drop p ?zc = [] \<or> hd (drop p ?zc) = CHR ''/''"
      using f(3) by (cases "drop p ?zc") (auto simp: prefixed_def)
    ultimately show ?thesis ..
  qed
  have none: "CHR ''/'' \<notin> set ?zc" if "str_find ?zc ''/'' 0 = None"
  proof
    assume "CHR ''/'' \<in> set ?zc"
    then obtain i where "i < length ?zc" "?zc ! i = CHR ''/''" by (auto simp: in_set_conv_nth)
    then show False
      using str_find_None [OF that, of i] by (simp add: prefixed_def take_Suc hd_drop_conv_nth)
  qed
  show "CHR ''/'' \<notin> set (zookeeper_urls (split_chroot c))"
    using slash none by (auto simp: split_chroot_def Let_def split: option.splits)
  show "kafka_chroot_path (split_chroot c) = [] \<or> hd (kafka_chroot_path (split_chroot c)) = CHR ''/''"
    using slash by (auto simp: split_chroot_def Let_def split: option.splits)
qed

lemma absolute_pos_path_fields [simp]:
  "logkafka_id (absolute_pos_path d c) = logkafka_id c"
  "line_max_bytes (absolute_pos_path d c) = line_max_bytes c"
  "zookeeper_connect (absolute_pos_path d c) = zookeeper_connect c"
  "zookeeper_urls (absolute_pos_path d c) = zookeeper_urls c"
  "kafka_chroot_path (absolute_pos_path d c) = kafka_chroot_path c"
  by (simp_all add: absolute_pos_path_def)

lemma isAbsPath_append: "isAbsPath d \<Longrightarrow> isAbsPath (d @ s)"
  by (cases d) (auto simp: isAbsPath_def cstr_def split: list.splits if_splits)

lemma absolute_pos_path_abs: "isAbsPath d \<Longrightarrow> isAbsPath (pos_path (absolute_pos_path d c))"
  by (simp add: absolute_pos_path_def isAbsPath_append)

lemma Config_initE:
  assumes "Config_init cfg_parse realpath hostname c0 filepath = (True, c)"
  obtains cfg realdir where "realDir realpath filepath = Some realdir"
    and "c = absolute_pos_path realdir (split_chroot (config_read cfg hostname))"
    and "config_check c"
  using assms by (auto simp: Config_init_def Let_def split: prod.splits if_splits option.splits)

lemma Config_init_ok:
  assumes "Config_init cfg_parse realpath hostname c0 filepath = (True, c)"
  shows "config_ok c"
proof -
  obtain cfg realdir where c: "c = absolute_pos_path realdir (split_chroot (config_read cfg hostname))"
    and chk: "config_check c"
    using Config_initE [OF assms] by metis
  have "0 \<le> line_max_bytes c" by (simp add: c config_read_def u64_range)
  then show ?thesis using chk by (simp add: config_checkD)
qed

text \<open>
  C24: a configuration accepted by \<open>Config::init\<close> is within every limit (the buffer holds
  a line of maximal length, the silence bound exceeds the polling intervals), its
  connection string is exactly the server list followed by the chroot path, with no slash
  in the server list, and its position path is absolute when the platform resolves the
  configuration file to an absolute directory.
\<close>

theorem Config_init_guarantees:
  assumes "Config_init cfg_parse realpath hostname c0 filepath = (True, c)"
  shows "config_ok c
    \<and> zookeeper_urls c @ kafka_chroot_path c = zookeeper_connect c
    \<and> CHR ''/'' \<notin> set (zookeeper_urls c)
    \<and> (isAbsPath (the (realDir realpath filepath)) \<longrightarrow> isAbsPath (pos_path c))"
proof -
  obtain cfg realdir where rd: "realDir realpath filepath = Some realdir"
    and c: "c = absolute_pos_path realdir (split_chroot (config_read cfg hostname))"
    using Config_initE [OF assms] by metis
  show ?thesis
    using Config_init_ok [OF assms] split_chroot_spec [of "config_read cfg hostname"]
    by (auto simp: c rd intro: absolute_pos_path_abs)
qed

definition sample_cfg :: "cfg" where
  "sample_cfg =
     [''zookeeper.connect'' \<mapsto> CfgStr ''zk:2181/kafka'', ''logkafka.id'' \<mapsto> CfgStr ''h1'']"

theorem Config_init_guarantees_witness:
  "\<exists>c. Config_init (\<lambda>_. (CFG_SUCCESS, sample_cfg)) Some None (config_read Map.empty None) ''/etc/lk.conf''
         = (True, c) \<and> config_ok c \<and> zookeeper_urls c = ''zk:2181''"
proof -
  let ?i = "Config_init (\<lambda>_. (CFG_SUCCESS, sample_cfg)) Some None (config_read Map.empty None) ''/etc/lk.conf''"
  have run: "?i = (True, snd ?i)" "zookeeper_urls (snd ?i) = ''zk:2181''" by code_simp+
  show ?thesis using Config_init_guarantees [OF run(1)] run by blast
qed

end
