(* ===== verification/Tail.thy ===== *)
theory Tail
  imports Watchers Json Config
begin

text \<open>
  Following one log file: the rotate handler, \<open>src/logkafka/rotate_handler.cc\<close>, which notices
  that the path names another file or that the file shrank, and the tail watcher,
  \<open>src/logkafka/tail_watcher.cc\<close>, which owns the rotate handler, the io handler and the libuv
  watchers of a path.

  Tail watchers live on a heap, since the manager, the libuv callbacks and the list of
  watchers to be deleted all point to them. A pointer without an object on the heap is
  dangling, and using it a fault. The state record is open: the manager extends it. The
  function the watcher calls when its file was replaced is a parameter.
\<close>

section \<open>State\<close>

record RotateHandler =
  rh_path :: string
  rh_inode :: int
  rh_fsize :: int
  rh_last_rotate_time :: int

record TailWatcher =
  tw_unwatched :: bool
  tw_path_pattern :: string
  tw_path :: string
  tw_conf :: TaskConf
  tw_timer_trigger :: "TimerWatcher option"
  tw_stat_trigger :: "StatWatcher option"
  tw_rotate_handler :: "RotateHandler option"
  tw_io_handler :: "IOHandler option"
  tw_position_entry :: PositionEntryPtr
  tw_receive_func :: "ReceiveFunc option"
  tw_output :: "OutputKafka option"
  tw_read_from_head :: bool
  tw_max_line_at_once :: int
  tw_line_max_bytes :: int
  tw_read_max_bytes :: int
  tw_line_delimiter :: char
  tw_remove_delimiter :: bool
  tw_stat_silent_max_ms :: int
  tw_filter :: "FilterRegex option"

type_synonym tail_ptr = nat

record tstate =
  t_world :: world
  t_heap :: "tail_ptr \<rightharpoonup> TailWatcher"

definition deref :: "tail_ptr \<Rightarrow> 'a tstate_scheme \<Rightarrow> TailWatcher res" where
  "deref p s = (case t_heap s p of None \<Rightarrow> Inl Null_deref | Some tw \<Rightarrow> Inr tw)"

definition store :: "tail_ptr \<Rightarrow> TailWatcher \<Rightarrow> 'a tstate_scheme \<Rightarrow> 'a tstate_scheme" where
  "store p tw s = s\<lparr>t_heap := (t_heap s)(p \<mapsto> tw)\<rparr>"

definition set_world :: "world \<Rightarrow> 'a tstate_scheme \<Rightarrow> 'a tstate_scheme" where
  "set_world w s = s\<lparr>t_world := w\<rparr>"

section \<open>Rotate handler\<close>

definition RotateHandler_init :: "string \<Rightarrow> RotateHandler" where
  "RotateHandler_init path = \<lparr>rh_path = path, rh_inode = INO_NONE, rh_fsize = - 1, rh_last_rotate_time = 0\<rparr>"

definition updateLastRotateTime :: "RotateHandler \<Rightarrow> world \<Rightarrow> RotateHandler \<times> world" where
  "updateLastRotateTime rh w =
     ((if os_trylock (w_os w) (w_tick w)
       then case os_time (w_os w) (w_tick w) of None \<Rightarrow> rh | Some now \<Rightarrow> rh\<lparr>rh_last_rotate_time := now\<rparr>
       else rh), w_step w)"

definition getLastRotateTime :: "RotateHandler \<Rightarrow> world \<Rightarrow> int option \<times> world" where
  "getLastRotateTime rh w =
     ((if os_trylock (w_os w) (w_tick w) then Some (rh_last_rotate_time rh) else None), w_step w)"

text \<open>
  \<open>RotateHandler::onNotify\<close>. The size and the inode are the ones \<open>stat\<close> saw, the file is the
  one \<open>fopen\<close> finds afterwards. They are recorded only when the rotate function succeeds.
\<close>

definition RotateHandler_onNotify ::
  "(stream \<Rightarrow> 'a tstate_scheme \<Rightarrow> (bool \<times> 'a tstate_scheme) res) \<Rightarrow>
     RotateHandler \<Rightarrow> 'a tstate_scheme \<Rightarrow> (RotateHandler \<times> 'a tstate_scheme) res" where
  "RotateHandler_onNotify rotate_func rh s =
     (let w = t_world s;
          (fsize, inode) = (case os_stat (os_fs (w_os w) (w_tick w)) (rh_path rh) of
                              Some (fsize, inode) \<Rightarrow> (fsize, inode) | None \<Rightarrow> (0, INO_NONE));
          s1 = set_world (w_step w) s
      in if rh_inode rh \<noteq> inode \<or> fsize < rh_fsize rh then
           (case fopen_r (os_fs (w_os w) (w_tick w + 1)) (rh_path rh) of
              None \<Rightarrow> Inr (rh, set_world (w_step (w_step w)) s)
            | Some file \<Rightarrow>
                bindR (rotate_func file (set_world (w_step (w_step w)) s)) (\<lambda>(ok, s2).
                  if ok then
                    (case updateLastRotateTime rh (t_world s2) of
                       (rh', w') \<Rightarrow> Inr (rh'\<lparr>rh_inode := inode, rh_fsize := fsize\<rparr>, set_world w' s2))
                  else Inr (rh, s2)))
         else if fsize > rh_fsize rh then Inr (rh\<lparr>rh_fsize := fsize\<rparr>, s1)
         else Inr (rh, s1))"

section \<open>Tail watcher\<close>

definition TailWatcher_init ::
  "(string \<Rightarrow> pcre2_code option) \<Rightarrow> string \<Rightarrow> string \<Rightarrow> PositionEntryPtr \<Rightarrow> int \<Rightarrow> bool \<Rightarrow> int \<Rightarrow> int \<Rightarrow> int \<Rightarrow>
     char \<Rightarrow> bool \<Rightarrow> ReceiveFunc option \<Rightarrow> TaskConf \<Rightarrow> OutputKafka option \<Rightarrow> world \<Rightarrow> bool \<times> TailWatcher \<times> world" where
  "TailWatcher_init pcre2_compile path_pattern path pe silent_max_ms from_head max_line line_max read_max
     delim rm recv cf out w =
     (let flt = (case FilterRegex_init pcre2_compile (FilterRegex_new (filter_conf cf)) of
                   (True, fr) \<Rightarrow> Some fr | (False, _) \<Rightarrow> None);
          tw = \<lparr>tw_unwatched = False, tw_path_pattern = path_pattern, tw_path = path, tw_conf = cf,
                tw_timer_trigger = None, tw_stat_trigger = None, tw_rotate_handler = None,
                tw_io_handler = None, tw_position_entry = pe, tw_receive_func = recv, tw_output = out,
                tw_read_from_head = from_head, tw_max_line_at_once = max_line, tw_line_max_bytes = line_max,
                tw_read_max_bytes = read_max, tw_line_delimiter = delim, tw_remove_delimiter = rm,
                tw_stat_silent_max_ms = silent_max_ms, tw_filter = flt\<rparr>
      in case TimerWatcher_init 0 TIMER_WATCHER_DEFAULT_REPEAT w of
           (False, _, w1) \<Rightarrow> (False, tw, w1)
         | (True, tm, w1) \<Rightarrow>
             (case StatWatcher_init path STAT_WATCHER_DEFAULT_INTERVAL w1 of
                (False, _, w2) \<Rightarrow> (False, tw\<lparr>tw_timer_trigger := Some tm\<rparr>, w2)
              | (True, st, w2) \<Rightarrow>
                  (True, tw\<lparr>tw_timer_trigger := Some tm, tw_stat_trigger := Some st,
                           tw_rotate_handler := Some (RotateHandler_init path)\<rparr>, w2)))"

text \<open>The destructor closes both triggers without looking whether they are there.\<close>

definition TailWatcher_destroy :: "tail_ptr \<Rightarrow> 'a tstate_scheme \<Rightarrow> 'a tstate_scheme res" where
  "TailWatcher_destroy p s =
     bindR (deref p s) (\<lambda>tw.
       if tw_timer_trigger tw = None \<or> tw_stat_trigger tw = None then Inl Null_deref
       else Inr (s\<lparr>t_heap := (t_heap s)(p := None)\<rparr>))"

text \<open>A new io handler for a file, with the sizes of the watcher.\<close>

definition new_io :: "TailWatcher \<Rightarrow> stream \<Rightarrow> world \<Rightarrow> IOHandler option \<times> world" where
  "new_io tw file w =
     IOHandler_init (Some file) (tw_position_entry tw) (u32 (tw_max_line_at_once tw)) (u32 (tw_line_max_bytes tw))
       (u32 (tw_read_max_bytes tw)) (tw_line_delimiter tw) (tw_remove_delimiter tw) (tw_filter tw) (tw_output tw)
       (tw_receive_func tw) w"

definition replace_io :: "tail_ptr \<Rightarrow> TailWatcher \<Rightarrow> stream \<Rightarrow> 'a tstate_scheme \<Rightarrow> bool \<times> 'a tstate_scheme" where
  "replace_io p tw file s =
     (case new_io tw file (t_world s) of
        (None, w') \<Rightarrow> (False, set_world w' s)
      | (Some io, w') \<Rightarrow> (True, store p (tw\<lparr>tw_io_handler := Some io\<rparr>) (set_world w' s)))"

text \<open>The first open of the file: where to read from, as an \<open>int\<close>.\<close>

definition open_first :: "tail_ptr \<Rightarrow> TailWatcher \<Rightarrow> stream \<Rightarrow> 'a tstate_scheme \<Rightarrow> (bool \<times> 'a tstate_scheme) res" where
  "open_first p tw file s =
     (let w = t_world s; (fsize, inode) = os_fstat (os_fs (w_os w) (w_tick w)) (f_ino file);
          pe = tw_position_entry tw
      in bindR (pe_readInode pe (w_step w)) (\<lambda>(last_inode, w1).
         bindR (if inode = last_inode then
                  bindR (pe_readPos pe w1) (\<lambda>(stored, w2). Inr (s32 stored, w2))
                else if last_inode \<noteq> 0 then bindR (pe_update pe inode 0 w1) (\<lambda>w2. Inr (0, w2))
                else let pos = s32 (if tw_read_from_head tw then 0 else fsize)
                     in bindR (pe_update pe inode pos w1) (\<lambda>w2. Inr (pos, w2))) (\<lambda>(pos, w2).
           Inr (replace_io p tw (fseek_set file pos) (set_world w2 s)))))"

text \<open>The file while a handler is there: truncated, after a close, or replaced.\<close>

definition open_again ::
  "(string \<Rightarrow> string \<Rightarrow> PositionEntryPtr \<Rightarrow> 'a tstate_scheme \<Rightarrow> (bool \<times> 'a tstate_scheme) res) \<Rightarrow>
     tail_ptr \<Rightarrow> TailWatcher \<Rightarrow> IOHandler \<Rightarrow> stream \<Rightarrow> 'a tstate_scheme \<Rightarrow> (bool \<times> 'a tstate_scheme) res" where
  "open_again updateWatcher p tw io file s =
     (let w = t_world s; (fsize, inode) = os_fstat (os_fs (w_os w) (w_tick w)) (f_ino file);
          pe = tw_position_entry tw
      in bindR (pe_readInode pe (w_step w)) (\<lambda>(last_inode, w1).
           if inode = last_inode then
             bindR (pe_updatePos pe fsize w1) (\<lambda>w2. Inr (replace_io p tw file (set_world w2 s)))
           else if m_file io = None then
             bindR (pe_update pe inode (ftell file) w1) (\<lambda>w2. Inr (replace_io p tw file (set_world w2 s)))
           else updateWatcher (tw_path_pattern tw) (tw_path tw) pe (set_world w1 s)))"

definition TailWatcher_onRotate ::
  "(string \<Rightarrow> string \<Rightarrow> PositionEntryPtr \<Rightarrow> 'a tstate_scheme \<Rightarrow> (bool \<times> 'a tstate_scheme) res) \<Rightarrow>
     tail_ptr \<Rightarrow> stream \<Rightarrow> 'a tstate_scheme \<Rightarrow> (bool \<times> 'a tstate_scheme) res" where
  "TailWatcher_onRotate updateWatcher p file s =
     bindR (deref p s) (\<lambda>tw.
       case tw_io_handler tw of
         None \<Rightarrow> open_first p tw file s
       | Some io \<Rightarrow> open_again updateWatcher p tw io file s)"

definition notify_rotate ::
  "(string \<Rightarrow> string \<Rightarrow> PositionEntryPtr \<Rightarrow> 'a tstate_scheme \<Rightarrow> (bool \<times> 'a tstate_scheme) res) \<Rightarrow>
     tail_ptr \<Rightarrow> 'a tstate_scheme \<Rightarrow> 'a tstate_scheme res" where
  "notify_rotate updateWatcher p s =
     bindR (deref p s) (\<lambda>tw.
       case tw_rotate_handler tw of
         None \<Rightarrow> Inr s
       | Some rh \<Rightarrow>
           bindR (RotateHandler_onNotify (TailWatcher_onRotate updateWatcher p) rh s) (\<lambda>(rh', s1).
           bindR (deref p s1) (\<lambda>tw1. Inr (store p (tw1\<lparr>tw_rotate_handler := Some rh'\<rparr>) s1))))"

definition notify_io :: "tail_ptr \<Rightarrow> 'a tstate_scheme \<Rightarrow> 'a tstate_scheme res" where
  "notify_io p s =
     bindR (deref p s) (\<lambda>tw.
       case tw_io_handler tw of
         None \<Rightarrow> Inr s
       | Some io \<Rightarrow>
           bindR (IOHandler_onNotify (Some io) (t_world s)) (\<lambda>(io', w').
             Inr (store p (tw\<lparr>tw_io_handler := io'\<rparr>) (set_world w' s))))"

definition TailWatcher_onNotify ::
  "(string \<Rightarrow> string \<Rightarrow> PositionEntryPtr \<Rightarrow> 'a tstate_scheme \<Rightarrow> (bool \<times> 'a tstate_scheme) res) \<Rightarrow>
     tail_ptr \<Rightarrow> 'a tstate_scheme \<Rightarrow> 'a tstate_scheme res" where
  "TailWatcher_onNotify updateWatcher p s = bindR (notify_rotate updateWatcher p s) (notify_io p)"

text \<open>\<open>swapState\<close> moves the state of an entry into memory and answers the old entry.\<close>

definition swapState :: "nat \<Rightarrow> PositionEntryPtr \<Rightarrow> IOHandler \<Rightarrow> world \<Rightarrow> (PositionEntryPtr \<times> PositionEntryPtr \<times> IOHandler \<times> world) res" where
  "swapState fresh pe io w =
     bindR (pe_readInode pe w) (\<lambda>(ino, w1).
     bindR (pe_readPos pe w1) (\<lambda>(pos, w2).
       Inr (pe, PE_mem fresh, io\<lparr>m_position_entry := PE_mem fresh\<rparr>,
            w2\<lparr>w_mem := (w_mem w2)(fresh \<mapsto> \<lparr>m_inode = ino, m_pos = pos\<rparr>)\<rparr>)))"

definition TailWatcher_stop :: "bool \<Rightarrow> tail_ptr \<Rightarrow> 'a tstate_scheme \<Rightarrow> 'a tstate_scheme res" where
  "TailWatcher_stop close_io p s =
     bindR (deref p s) (\<lambda>tw.
       let tw1 = tw\<lparr>tw_timer_trigger := map_option TimerWatcher_stop (tw_timer_trigger tw),
                    tw_stat_trigger := map_option StatWatcher_stop (tw_stat_trigger tw)\<rparr>
       in if close_io \<and> tw_io_handler tw1 \<noteq> None then
            bindR (IOHandler_onNotify (tw_io_handler tw1) (t_world s)) (\<lambda>(io', w').
              Inr (store p (tw1\<lparr>tw_io_handler := map_option IOHandler_close io'\<rparr>) (set_world w' s)))
          else Inr (store p tw1 s))"

definition TailWatcher_start ::
  "(string \<Rightarrow> string \<Rightarrow> PositionEntryPtr \<Rightarrow> 'a tstate_scheme \<Rightarrow> (bool \<times> 'a tstate_scheme) res) \<Rightarrow>
     tail_ptr \<Rightarrow> 'a tstate_scheme \<Rightarrow> 'a tstate_scheme res" where
  "TailWatcher_start updateWatcher p s =
     bindR (deref p s) (\<lambda>tw.
       let (tm, w1) = (case tw_timer_trigger tw of None \<Rightarrow> (None, t_world s)
                       | Some t \<Rightarrow> (case TimerWatcher_start t (t_world s) of (t', w') \<Rightarrow> (Some t', w')));
           (st, w2) = (case tw_stat_trigger tw of None \<Rightarrow> (None, w1)
                       | Some t \<Rightarrow> (case StatWatcher_start t w1 of (t', w') \<Rightarrow> (Some t', w')))
       in TailWatcher_onNotify updateWatcher p
            (store p (tw\<lparr>tw_timer_trigger := tm, tw_stat_trigger := st\<rparr>) (set_world w2 s)))"

definition isActive :: "tail_ptr \<Rightarrow> 'a tstate_scheme \<Rightarrow> (bool \<times> 'a tstate_scheme) res" where
  "isActive p s =
     bindR (deref p s) (\<lambda>tw.
       let w = t_world s in
       case os_time (w_os w) (w_tick w) of
         None \<Rightarrow> Inr (True, set_world (w_step w) s)
       | Some now \<Rightarrow>
           (case tw_io_handler tw of
              None \<Rightarrow> Inr (False, set_world (w_step w) s)
            | Some io \<Rightarrow>
                (case getLastIOTime io (w_step w) of
                   (None, w') \<Rightarrow> Inr (True, set_world w' s)
                 | (Some before, w') \<Rightarrow>
                     Inr (\<not> elapsed_ms now before > tw_stat_silent_max_ms tw, set_world w' s))))"

definition TailWatcher_getEnabled :: "TailWatcher \<Rightarrow> bool" where
  "TailWatcher_getEnabled tw = valid (tw_conf tw)"

definition TailWatcher_setEnabled :: "bool \<Rightarrow> TailWatcher \<Rightarrow> TailWatcher" where
  "TailWatcher_setEnabled b tw = tw\<lparr>tw_conf := (tw_conf tw)\<lparr>valid := b\<rparr>\<rparr>"

text \<open>The state of the watcher as a JSON object.\<close>

definition TailWatcher_Serialize :: "TailWatcher \<Rightarrow> world \<Rightarrow> json \<times> world" where
  "TailWatcher_Serialize tw w =
     (let (inode, filepos, filesize) =
            (case tw_io_handler tw of None \<Rightarrow> (INO_NONE, - 1, 0)
             | Some io \<Rightarrow> (getFileInode io w, getFilePos io, getFileSize io w));
          (rotate_time, w') =
            (case tw_rotate_handler tw of None \<Rightarrow> (0, w)
             | Some rh \<Rightarrow> (case getLastRotateTime rh w of (None, w') \<Rightarrow> (0, w') | (Some t, w') \<Rightarrow> (t, w')))
      in (JObject
            [(''realpath'', JString (tw_path tw)), (''inode'', JString (int2Str inode)),
             (''filepos'', JString (int2Str filepos)), (''filesize'', JString (int2Str filesize)),
             (''last_rotate_time_sec'', JString (int2Str rotate_time))], w'))"

end
