(* ===== verification/Manager.thy ===== *)
theory Manager
  imports Tail
begin

text \<open>
  The manager, \<open>src/logkafka/manager.cc\<close>: it keeps the configured tasks, the queue of paths of each
  task, one tail watcher per task, and the position file, and brings them in line with the
  configuration whenever its timer fires.

  Library calls and what other threads decide are parameters, gathered in \<open>manager_lib\<close>: what
  PCRE2 compiles, what the JSON parser returns, \<open>strftime\<close>, \<open>glob\<close> and \<open>access\<close> at the
  \<open>n\<close>-th call, the configuration and broker list the ZooKeeper thread holds at that time, and
  the values of variables that were never set. The mutex of the tail watchers is held by the
  running thread or free; taking it twice blocks for ever.
\<close>

section \<open>State\<close>

record manager_lib =
  lib_pcre2 :: "string \<Rightarrow> pcre2_code option"
  lib_json :: "string \<Rightarrow> json option"
  lib_strftime :: "nat \<Rightarrow> string \<Rightarrow> string option"
  lib_glob :: "nat \<Rightarrow> string \<Rightarrow> int \<times> string list"
  lib_access :: "nat \<Rightarrow> string \<Rightarrow> bool"
  lib_log_config :: "nat \<Rightarrow> string"
  lib_broker_urls :: "nat \<Rightarrow> string"
  lib_junk :: "nat \<Rightarrow> string \<Rightarrow> string \<Rightarrow> bool"

record manager = tstate +
  mg_lib :: manager_lib
  mg_config :: config
  mg_kafka_conf :: KafkaConf
  m_task_confs :: "(string, TaskConf) smap"
  m_tasks :: "(string, Task option) smap"
  m_tails :: "(string, tail_ptr option) smap"
  m_tails_deleted :: "tail_ptr list"
  m_position_file :: "PositionFile option"
  mg_pos_file :: bool
  mg_zookeeper :: bool
  mg_refresh_trigger :: "TimerWatcher option"
  mg_locked :: bool
  mg_next :: tail_ptr

definition tick :: "manager \<Rightarrow> nat" where
  "tick m = w_tick (t_world m)"

definition next_tick :: "manager \<Rightarrow> manager" where
  "next_tick m = set_world (w_step (t_world m)) m"

section \<open>Paths\<close>

definition isTimeFormatConversionSpecifier :: "char \<Rightarrow> bool" where
  "isTimeFormatConversionSpecifier c = (islower c \<or> isupper c \<or> c = CHR ''+'')"

definition expandPath :: "string \<Rightarrow> manager \<Rightarrow> string \<times> manager" where
  "expandPath path_pattern m =
     ((case lib_strftime (mg_lib m) (tick m) (cstr path_pattern) of None \<Rightarrow> path_pattern | Some p \<Rightarrow> cstr p),
      next_tick m)"

text \<open>The inner loop: the end of the conversion specifiers that start at \<open>i\<close>.\<close>

function spec_end :: "string \<Rightarrow> nat \<Rightarrow> nat" where
  "spec_end s i =
     (if i < length s - 1 then
        if s ! i = CHR ''%'' \<and> isTimeFormatConversionSpecifier (s ! (i + 1)) then spec_end s (i + 2) else i
      else i)"
  by pat_completeness auto
termination
  by (relation "measure (\<lambda>(s, i). length s - i)") auto

declare spec_end.simps [simp del]

definition glob_step :: "string \<Rightarrow> (bool \<times> string) res" where
  "glob_step s =
     (case str_find s ''%'' 0 of
        None \<Rightarrow> Inr (False, s)
      | Some start \<Rightarrow>
          (let i = spec_end s start
           in Inr (True, if i \<noteq> start then take start s @ ''*'' @ drop i s else s)))"

definition getPathPatternGlobed :: "string \<Rightarrow> manager \<Rightarrow> (bool \<times> string list \<times> manager) res" where
  "getPathPatternGlobed path_pattern m =
     bindR (returns (loop glob_step path_pattern)) (\<lambda>g.
       case globPath (lib_glob (mg_lib m) (tick m)) g [] of (ok, ps) \<Rightarrow> Inr (ok, ps, next_tick m))"

section \<open>Task configurations\<close>

text \<open>A member that is missing or has another type leaves the default.\<close>

definition set_from :: "json \<Rightarrow> string \<Rightarrow> (string \<Rightarrow> TaskConf \<Rightarrow> TaskConf) \<Rightarrow> TaskConf \<Rightarrow> TaskConf" where
  "set_from v name f item = (case getValue_string v (Some name) of Inl err \<Rightarrow> item | Inr s \<Rightarrow> f s item)"

definition upd_log :: "(LogConf \<Rightarrow> LogConf) \<Rightarrow> TaskConf \<Rightarrow> TaskConf" where
  "upd_log f item = item\<lparr>log_conf := f (log_conf item)\<rparr>"

definition upd_topic :: "(KafkaTopicConf \<Rightarrow> KafkaTopicConf) \<Rightarrow> TaskConf \<Rightarrow> TaskConf" where
  "upd_topic f item = item\<lparr>kafka_topic_conf := f (kafka_topic_conf item)\<rparr>"

definition clamp_batch :: "int \<Rightarrow> int \<Rightarrow> int" where
  "clamp_batch limit b = (if b > s64 limit then s32 limit else b)"

text \<open>The optional members in the order they are read, with what they set.\<close>

definition task_members :: "config \<Rightarrow> (string \<Rightarrow> bool) \<Rightarrow> (string \<times> (string \<Rightarrow> TaskConf \<Rightarrow> TaskConf)) list" where
  "task_members c junk =
     [(''follow_last'', \<lambda>s. upd_log (\<lambda>l. l\<lparr>follow_last := str2Bool (junk ''follow_last'') s\<rparr>)),
      (''batchsize'', \<lambda>s. upd_log (\<lambda>l. l\<lparr>batchsize := clamp_batch (queue_buffering_max_messages c) (atoi s)\<rparr>)),
      (''line_delimiter'', \<lambda>s. upd_log (\<lambda>l. l\<lparr>line_delimiter := char_of (nat (atoi s mod 256))\<rparr>)),
      (''remove_delimiter'', \<lambda>s. upd_log (\<lambda>l. l\<lparr>remove_delimiter := str2Bool (junk ''remove_delimiter'') s\<rparr>)),
      (''read_from_head'', \<lambda>s. upd_log (\<lambda>l. l\<lparr>read_from_head := str2Bool (junk ''read_from_head'') s\<rparr>)),
      (''key'', \<lambda>s. upd_topic (\<lambda>k. k\<lparr>key := s\<rparr>)),
      (''partition'', \<lambda>s. upd_topic (\<lambda>k. k\<lparr>partition := atoi s\<rparr>)),
      (''compression_codec'', \<lambda>s. upd_topic (\<lambda>k. k\<lparr>compression_codec := s\<rparr>)),
      (''required_acks'', \<lambda>s. upd_topic (\<lambda>k. k\<lparr>required_acks := atoi s\<rparr>)),
      (''message_timeout_ms'', \<lambda>s. upd_topic (\<lambda>k. k\<lparr>message_timeout_ms := atoi s\<rparr>)),
      (''regex_filter_pattern'', \<lambda>s item. item\<lparr>filter_conf := \<lparr>regex_filter_pattern = s\<rparr>\<rparr>)]"

definition task_item :: "config \<Rightarrow> (string \<Rightarrow> bool) \<Rightarrow> string \<Rightarrow> json \<Rightarrow> TaskConf option" where
  "task_item c junk name log_item =
     (case getValue_string log_item (Some ''topic'') of
        Inl err \<Rightarrow> None
      | Inr tp \<Rightarrow>
          Some (fold (\<lambda>(member, f). set_from log_item member f) (task_members c junk)
            (upd_log (\<lambda>l. l\<lparr>log_path := name\<rparr>)
              (set_from log_item ''valid'' (\<lambda>s item. item\<lparr>valid := str2Bool (junk ''valid'') s\<rparr>)
                (upd_topic (\<lambda>k. k\<lparr>topic := tp\<rparr>) (TaskConf_new (junk ''TaskConf'')))))))"

definition add_task_conf ::
  "config \<Rightarrow> (string \<Rightarrow> string \<Rightarrow> bool) \<Rightarrow> string \<times> json \<Rightarrow> (string, TaskConf) smap \<Rightarrow> (string, TaskConf) smap" where
  "add_task_conf c junk itr confs =
     (case itr of (name, value) \<Rightarrow>
        (case task_item c (junk (cstr name)) (cstr name) value of
           None \<Rightarrow> confs
         | Some item \<Rightarrow> if TaskConf_isLegal item then smap_put (cstr name) item confs else confs))"

text \<open>The ZooKeeper client is dereferenced without a test.\<close>

definition refreshTaskConfs :: "manager \<Rightarrow> (bool \<times> manager) res" where
  "refreshTaskConfs m =
     (if \<not> mg_zookeeper m then Inl Null_deref
      else let text = lib_log_config (mg_lib m) (tick m);
               m1 = next_tick m
           in Inr (case lib_json (mg_lib m) (cstr (if length text \<le> 2 then ''{}'' else text)) of
                None \<Rightarrow> (False, m1)
              | Some doc \<Rightarrow>
                  (case doc of
                     JObject ms \<Rightarrow>
                       (True, m1\<lparr>m_task_confs :=
                                  fold (add_task_conf (mg_config m) (lib_junk (mg_lib m) (tick m))) ms []\<rparr>)
                   | _ \<Rightarrow> (False, m1\<lparr>m_task_confs := []\<rparr>))))"

section \<open>Looking up\<close>

definition getTasksKeys :: "manager \<Rightarrow> string sset" where
  "getTasksKeys m = sset_collect (smap_keys (m_tasks m))"

definition getTailsKeys :: "manager \<Rightarrow> string sset" where
  "getTailsKeys m = sset_collect (smap_keys (m_tails m))"

definition getTaskConfsKeys :: "manager \<Rightarrow> string sset" where
  "getTaskConfsKeys m = sset_collect (smap_keys (m_task_confs m))"

definition getTailWatcher :: "manager \<Rightarrow> string \<Rightarrow> tail_ptr option" where
  "getTailWatcher m path_pattern = (case smap_find (m_tails m) path_pattern of None \<Rightarrow> None | Some p \<Rightarrow> p)"

definition getTask :: "manager \<Rightarrow> string \<Rightarrow> Task option" where
  "getTask m path_pattern = (case smap_find (m_tasks m) path_pattern of None \<Rightarrow> None | Some p \<Rightarrow> p)"

text \<open>
  A member access through \<open>m_tasks[path_pattern]\<close> or \<open>m_tails[path_pattern]\<close>: a missing key
  gets a null pointer, and using it is a fault.
\<close>

definition task_at :: "string \<Rightarrow> manager \<Rightarrow> Task res" where
  "task_at path_pattern m = (case getTask m path_pattern of None \<Rightarrow> Inl Null_deref | Some t \<Rightarrow> Inr t)"

definition tail_at :: "string \<Rightarrow> manager \<Rightarrow> tail_ptr res" where
  "tail_at path_pattern m = (case getTailWatcher m path_pattern of None \<Rightarrow> Inl Null_deref | Some p \<Rightarrow> Inr p)"

definition put_task :: "string \<Rightarrow> Task \<Rightarrow> manager \<Rightarrow> manager" where
  "put_task path_pattern t m = m\<lparr>m_tasks := smap_put path_pattern (Some t) (m_tasks m)\<rparr>"

definition put_tail :: "string \<Rightarrow> tail_ptr option \<Rightarrow> manager \<Rightarrow> manager" where
  "put_tail path_pattern p m = m\<lparr>m_tails := smap_put path_pattern p (m_tails m)\<rparr>"

text \<open>\<open>m_task_confs[path_pattern]\<close>; a missing configuration is value-initialised.\<close>

definition task_conf_at :: "string \<Rightarrow> manager \<Rightarrow> TaskConf \<times> manager" where
  "task_conf_at path_pattern m =
     (case smap_find (m_task_confs m) path_pattern of
        Some c \<Rightarrow> (c, m)
      | None \<Rightarrow> (TaskConf_new False,
                 m\<lparr>m_task_confs := smap_put path_pattern (TaskConf_new False) (m_task_confs m)\<rparr>))"

section \<open>Tasks\<close>

text \<open>The paths the position file remembers, and the files between them and the current path.\<close>

definition first_update :: "string \<Rightarrow> string \<Rightarrow> Task \<Rightarrow> manager \<Rightarrow> (Task \<times> manager) res" where
  "first_update path_pattern expanded_path t m =
     (if first_update_paths (stat t) \<and> expanded_path \<noteq> path_pattern \<and> follow_last (log_conf (conf t)) then
        (case m_position_file m of
           None \<Rightarrow> Inl Null_deref
         | Some pf \<Rightarrow>
             bindR (case PositionFile_getPath path_pattern pf of
                      None \<Rightarrow> Inr (t, m)
                    | Some last_path \<Rightarrow>
                        (let t1 = snd (addPath t last_path)
                         in bindR (getPathPatternGlobed path_pattern m) (\<lambda>(ok, globed, m1).
                              Inr (if ok
                                   then fold (\<lambda>p t. snd (addPath t p))
                                          (filter (\<lambda>p. p > last_path \<and> p < expanded_path) globed) t1
                                   else t1, m1)))) (\<lambda>(t2, m2).
               Inr (t2\<lparr>stat := (stat t2)\<lparr>first_update_paths := False\<rparr>\<rparr>, m2)))
      else Inr (t, m))"

text \<open>One round of the loop that removes expired paths from the front of the queue.\<close>

definition expire_missing :: "string \<Rightarrow> Task \<Rightarrow> manager \<Rightarrow> (bool \<times> Task \<times> manager) res" where
  "expire_missing expanded_path t m =
     (if \<not> lib_access (mg_lib m) (tick m) (cstr (getFirstPath t)) \<and> getFirstPath t < expanded_path
      then bindR (delFirstPath t) (\<lambda>t'. Inr (True, t', next_tick m))
      else Inr (False, t, next_tick m))"

definition expire_step :: "string \<Rightarrow> string \<Rightarrow> Task \<times> manager \<Rightarrow> (bool \<times> Task \<times> manager) res" where
  "expire_step path_pattern expanded_path st =
     (case st of (t, m) \<Rightarrow>
        if \<not> hasPath t then Inr (False, t, m)
        else if smap_find (m_tails m) path_pattern = None then expire_missing expanded_path t m
        else bindR (tail_at path_pattern m) (\<lambda>p.
             bindR (deref p m) (\<lambda>tail.
               if tw_path tail = getFirstPath t then
                 bindR (isActive p m) (\<lambda>(active, m').
                   if active then Inr (False, t, m') else bindR (delFirstPath t) (\<lambda>t'. Inr (True, t', m')))
               else expire_missing expanded_path t m)))"

definition updateTaskPaths :: "string \<Rightarrow> manager \<Rightarrow> manager res" where
  "updateTaskPaths path_pattern m =
     (if smap_find (m_tasks m) path_pattern = None then Inl Assert_failed
      else bindR (task_at path_pattern m) (\<lambda>t.
        case expandPath path_pattern m of (expanded_path, m1) \<Rightarrow>
          bindR (first_update path_pattern expanded_path t m1) (\<lambda>(t1, m2).
          bindR (returns (loop (expire_step path_pattern expanded_path) (t1, m2))) (\<lambda>(t2, m3).
            Inr (put_task path_pattern (snd (addPath t2 expanded_path)) m3)))))"

definition add_task :: "string \<Rightarrow> manager \<Rightarrow> manager res" where
  "add_task path_pattern m =
     (case task_conf_at path_pattern m of (c, m1) \<Rightarrow>
        updateTaskPaths path_pattern
          (put_task path_pattern
            ((Task_new (lib_junk (mg_lib m) (tick m) path_pattern ''Task'') (cfg_path_queue_max_size (mg_config m)))
              \<lparr>conf := c\<rparr>) m1))"

definition addTasks :: "string sset \<Rightarrow> manager \<Rightarrow> manager res" where
  "addTasks path_patterns m = each add_task path_patterns m"

definition deleteTasks :: "string sset \<Rightarrow> manager \<Rightarrow> manager" where
  "deleteTasks path_patterns m = m\<lparr>m_tasks := fold smap_erase path_patterns (m_tasks m)\<rparr>"

definition update_task :: "string \<Rightarrow> manager \<Rightarrow> manager res" where
  "update_task path_pattern m =
     bindR (task_at path_pattern m) (\<lambda>t.
       case task_conf_at path_pattern m of (c, m1) \<Rightarrow>
         updateTaskPaths path_pattern (put_task path_pattern (t\<lparr>conf := c\<rparr>) m1))"

definition updateTasks :: "string sset \<Rightarrow> manager \<Rightarrow> manager res" where
  "updateTasks path_patterns m = each update_task path_patterns m"

definition delete_old_tails :: "manager \<Rightarrow> manager res" where
  "delete_old_tails m =
     bindR (each TailWatcher_destroy (m_tails_deleted m) m) (\<lambda>m1. Inr (m1\<lparr>m_tails_deleted := []\<rparr>))"

definition refreshTasks :: "manager \<Rightarrow> (bool \<times> manager) res" where
  "refreshTasks m =
     (let added = diff_set (getTaskConfsKeys m) (getTasksKeys m);
          deleted = diff_set (getTasksKeys m) (getTaskConfsKeys m);
          keeped = intersect_set (getTasksKeys m) (getTaskConfsKeys m)
      in bindR (addTasks added (deleteTasks deleted m)) (\<lambda>m1.
         bindR (updateTasks keeped m1) (\<lambda>m2.
         bindR (delete_old_tails m2) (\<lambda>m3. Inr (True, m3)))))"

section \<open>Watchers\<close>

text \<open>
  \<open>setupWatcher\<close>. The ZooKeeper client is used only when a producer has to be made. A watcher
  whose initialisation fails is deleted again.
\<close>

definition setupWatcher ::
  "TaskConf \<Rightarrow> string \<Rightarrow> string \<Rightarrow> PositionEntryPtr \<Rightarrow> manager \<Rightarrow> (tail_ptr option \<times> manager) res" where
  "setupWatcher cf path_pattern path pe m =
     (let codec = compression_codec (kafka_topic_conf cf);
          w = t_world m;
          k0 = setKafkaConf (mg_kafka_conf m) (w_kafka w)
      in if \<not> mg_zookeeper m \<and> smap_find cc_map codec \<noteq> None \<and> producer_of codec k0 = None then Inl Null_deref
         else case initProducer (lib_broker_urls (mg_lib m) (w_tick w)) codec k0 of
                (False, k1) \<Rightarrow> Inr (None, set_world (w_step (w\<lparr>w_kafka := k1\<rparr>)) m)
              | (True, k1) \<Rightarrow>
                  (case TailWatcher_init (lib_pcre2 (mg_lib m)) path_pattern path pe
                          (stat_silent_max_ms (mg_config m)) (read_from_head (log_conf cf))
                          (u64 (batchsize (log_conf cf))) (line_max_bytes (mg_config m))
                          (read_max_bytes (mg_config m)) (line_delimiter (log_conf cf))
                          (remove_delimiter (log_conf cf)) (Some receiveLines) cf
                          (Some (setKafkaTopicConf (kafka_topic_conf cf) \<lparr>m_kafka_topic_conf = KafkaTopicConf_new\<rparr>))
                          (w_step (w\<lparr>w_kafka := k1\<rparr>)) of
                     (ok, tw, w') \<Rightarrow>
                       (let p = mg_next m;
                            m1 = (store p tw (set_world w' m))\<lparr>mg_next := p + 1\<rparr>
                        in if ok then Inr (Some p, m1)
                           else bindR (TailWatcher_destroy p m1) (\<lambda>m2. Inr (None, m2)))))"

text \<open>\<open>(*m_position_file)[pek]\<close> on the manager's position file.\<close>

definition position_entry :: "PositionEntryKey \<Rightarrow> manager \<Rightarrow> (PositionEntryPtr \<times> manager) res" where
  "position_entry pek m =
     (case m_position_file m of
        None \<Rightarrow> Inl Null_deref
      | Some pf \<Rightarrow>
          (case PositionFile_index pek (pf, w_posfile (t_world m)) of
             (seek, (pf', f')) \<Rightarrow>
               Inr (PE_file seek, set_world ((t_world m)\<lparr>w_posfile := f'\<rparr>) (m\<lparr>m_position_file := Some pf'\<rparr>))))"

text \<open>The position entry of a new watcher; an unused one gets the inode of the file.\<close>

definition start_entry :: "string \<Rightarrow> Task \<Rightarrow> manager \<Rightarrow> (PositionEntryPtr \<times> manager) res" where
  "start_entry path_pattern t m =
     (if m_position_file m = None then Inr (PE_null, m)
      else bindR (position_entry (PositionEntryKey path_pattern (Task_getPath t)) m) (\<lambda>(pe, m1).
             if read_from_head (log_conf (conf t)) then
               bindR (pe_readInode pe (t_world m1)) (\<lambda>(ino, w).
                 if ino = INO_NONE then
                   bindR (pe_update pe (Task_getInode (os_fs (w_os w) (w_tick w)) t) 0 (w_step w)) (\<lambda>w'.
                     Inr (pe, set_world w' m1))
                 else Inr (pe, set_world w m1))
             else Inr (pe, m1)))"

text \<open>A task that is not valid, or whose watcher is there, ends the whole loop.\<close>

fun startWatchers :: "string sset \<Rightarrow> manager \<Rightarrow> manager res" where
  "startWatchers [] m = Inr m"
| "startWatchers (path_pattern # ps) m =
     bindR (task_at path_pattern m) (\<lambda>t.
       if \<not> valid (conf t) then Inr m
       else if smap_find (m_tails m) path_pattern \<noteq> None then Inr m
       else bindR (start_entry path_pattern t m) (\<lambda>(pe, m1).
            bindR (setupWatcher (conf t) path_pattern (Task_getPath t) pe m1) (\<lambda>(tw, m2).
              startWatchers ps (if tw = None then m2 else put_tail path_pattern tw m2))))"

definition closeWatcher :: "tail_ptr \<Rightarrow> bool \<Rightarrow> bool \<Rightarrow> manager \<Rightarrow> manager res" where
  "closeWatcher p close_io remove_pos_entry m =
     bindR (TailWatcher_stop close_io p m) (\<lambda>m1.
     bindR (deref p m1) (\<lambda>tw.
       let pek = PositionEntryKey (tw_path_pattern tw) (tw_path tw)
       in bindR (if tw_unwatched tw \<and> m_position_file m1 \<noteq> None then
                   bindR (position_entry pek m1) (\<lambda>(pe, m2).
                   bindR (pe_updatePos pe UNWATCHED_POSITION (t_world m2)) (\<lambda>w. Inr (set_world w m2)))
                 else Inr m1) (\<lambda>m3.
            if remove_pos_entry then
              (case m_position_file m3 of
                 None \<Rightarrow> Inl Null_deref
               | Some pf \<Rightarrow> Inr (m3\<lparr>m_position_file := Some (PositionFile_remove pek pf)\<rparr>))
            else Inr m3)))"

fun stopWatchers :: "string sset \<Rightarrow> bool \<Rightarrow> bool \<Rightarrow> manager \<Rightarrow> manager res" where
  "stopWatchers [] immediate unwatched m = Inr m"
| "stopWatchers (path_pattern # ps) immediate unwatched m =
     (case smap_find (m_tails m) path_pattern of
        None \<Rightarrow> stopWatchers ps immediate unwatched m
      | Some None \<Rightarrow> Inl Null_deref
      | Some (Some p) \<Rightarrow>
          bindR (deref p m) (\<lambda>tw.
            let m1 = store p (tw\<lparr>tw_unwatched := unwatched\<rparr>) m
            in if immediate then
                 bindR (closeWatcher p True True m1) (\<lambda>m2.
                 bindR (TailWatcher_destroy p m2) (\<lambda>m3.
                   stopWatchers ps immediate unwatched (m3\<lparr>m_tails := smap_erase path_pattern (m_tails m3)\<rparr>)))
               else stopWatchers ps immediate unwatched m1))"

text \<open>
  The function a tail watcher calls when its file was replaced. It looks the watcher up under
  the path, and stores the new one under the pattern.
\<close>

definition updateWatcherRotate :: "string \<Rightarrow> string \<Rightarrow> PositionEntryPtr \<Rightarrow> manager \<Rightarrow> (bool \<times> manager) res" where
  "updateWatcherRotate path_pattern path pe m =
     (if mg_locked m then Inl Hang
      else bindR (tail_at path m) (\<lambda>p.
           bindR (isActive p m) (\<lambda>(active, m1).
             if active then Inr (False, m1)
             else bindR (closeWatcher p True False m1) (\<lambda>m2.
                  bindR (pe_updatePos pe 0 (t_world m2)) (\<lambda>w.
                  bindR (deref p m2) (\<lambda>tw.
                  bindR (task_at path_pattern m2) (\<lambda>t.
                  bindR (setupWatcher (tw_conf tw) path_pattern path pe (set_world w m2)) (\<lambda>(tw_new, m3).
                    if tw_new = None then Inr (False, m3)
                    else Inr (True, (put_tail path_pattern tw_new m3)\<lparr>m_tails_deleted := m_tails_deleted m3 @ [p]\<rparr>)))))))))"

definition set_enabled :: "tail_ptr \<Rightarrow> bool \<Rightarrow> manager \<Rightarrow> manager res" where
  "set_enabled p b m = bindR (deref p m) (\<lambda>tw. Inr (store p (TailWatcher_setEnabled b tw) m))"

text \<open>A watcher whose configuration changed is closed and replaced; the old object stays.\<close>

definition replace_watcher :: "string \<Rightarrow> Task \<Rightarrow> tail_ptr \<Rightarrow> manager \<Rightarrow> manager res" where
  "replace_watcher path_pattern t p m =
     bindR (closeWatcher p True False m) (\<lambda>m1.
     bindR (deref p m1) (\<lambda>tail.
     bindR (position_entry (PositionEntryKey path_pattern (tw_path tail)) m1) (\<lambda>(pe, m2).
     bindR (setupWatcher (conf t) path_pattern (Task_getPath t) pe m2) (\<lambda>(tw, m3).
       Inr (put_tail path_pattern tw m3)))))"

definition update_watcher :: "string \<Rightarrow> manager \<Rightarrow> manager res" where
  "update_watcher path_pattern m =
     bindR (task_at path_pattern m) (\<lambda>t.
     bindR (tail_at path_pattern m) (\<lambda>p.
     bindR (deref p m) (\<lambda>tail.
       if TaskConf_eq (conf t) (tw_conf tail) then
         (if Task_getPath t \<noteq> tw_path tail
          then bindR (stopWatchers [path_pattern] True True m) (startWatchers [path_pattern])
          else Inr m)
       else
         bindR (if \<not> LogConf_eq (log_conf (conf t)) (log_conf (tw_conf tail))
                  \<or> \<not> KafkaTopicConf_eq (kafka_topic_conf (conf t)) (kafka_topic_conf (tw_conf tail))
                  \<or> \<not> FilterConf_eq (filter_conf (conf t)) (filter_conf (tw_conf tail))
                then replace_watcher path_pattern t p m else Inr m) (\<lambda>m1.
         bindR (if Task_getEnabled t \<and> \<not> TailWatcher_getEnabled tail
                then bindR (TailWatcher_start updateWatcherRotate p m1) (set_enabled p True)
                else Inr m1) (\<lambda>m2.
         bindR (deref p m2) (\<lambda>tail2.
           if \<not> Task_getEnabled t \<and> TailWatcher_getEnabled tail2
           then bindR (TailWatcher_stop False p m2) (set_enabled p False)
           else Inr m2))))))"

definition updateWatchers :: "string sset \<Rightarrow> manager \<Rightarrow> manager res" where
  "updateWatchers path_patterns m = each update_watcher path_patterns m"

section \<open>Refreshing\<close>

text \<open>The timer function; it holds the mutex of the watchers until it returns.\<close>

definition refreshWatchers :: "manager \<Rightarrow> manager res" where
  "refreshWatchers m0 =
     (if mg_locked m0 then Inl Hang
      else bindR (refreshTaskConfs (m0\<lparr>mg_locked := True\<rparr>)) (\<lambda>(ok, m1).
        if \<not> ok then Inr (m1\<lparr>mg_locked := False\<rparr>)
        else bindR (refreshTasks m1) (\<lambda>(ok2, m2).
          if \<not> ok2 then Inr (m2\<lparr>mg_locked := False\<rparr>)
          else
            (let added = diff_set (getTasksKeys m2) (getTailsKeys m2);
                 deleted = diff_set (getTailsKeys m2) (getTasksKeys m2);
                 keeped = intersect_set (getTailsKeys m2) (getTasksKeys m2)
             in bindR (stopWatchers deleted True True m2) (\<lambda>m3.
                bindR (startWatchers added m3) (\<lambda>m4.
                bindR (updateWatchers keeped m4) (\<lambda>m5. Inr (m5\<lparr>mg_locked := False\<rparr>))))))))"

section \<open>Start and stop\<close>

text \<open>The constructor: everything is empty, and every pointer null.\<close>

definition Manager_new :: "manager_lib \<Rightarrow> world \<Rightarrow> KafkaConf \<Rightarrow> config \<Rightarrow> manager" where
  "Manager_new lib w junk_conf c =
     \<lparr>t_world = w, t_heap = (\<lambda>_. None), mg_lib = lib, mg_config = c, mg_kafka_conf = junk_conf,
      m_task_confs = [], m_tasks = [], m_tails = [], m_tails_deleted = [], m_position_file = None,
      mg_pos_file = False, mg_zookeeper = False, mg_refresh_trigger = None, mg_locked = False, mg_next = 0\<rparr>"

text \<open>The sum is an \<open>unsigned long\<close>, the members are \<open>long long\<close>.\<close>

definition initKafkaConf :: "manager \<Rightarrow> bool \<times> manager" where
  "initKafkaConf m =
     (True, m\<lparr>mg_kafka_conf :=
        \<lparr>kc_message_max_bytes = s64 (u64 (line_max_bytes (mg_config m) + key_max_bytes (mg_config m))),
         kc_message_send_max_retries = s64 (message_send_max_retries (mg_config m)),
         kc_queue_buffering_max_messages = s64 (queue_buffering_max_messages (mg_config m))\<rparr>\<rparr>)"

text \<open>The parameter is what \<open>Zookeeper::init\<close> answers.\<close>

definition initZookeeper :: "bool \<Rightarrow> manager \<Rightarrow> (bool \<times> manager) res" where
  "initZookeeper zookeeper_init m =
     (if mg_zookeeper m then Inl Assert_failed else Inr (zookeeper_init, m\<lparr>mg_zookeeper := zookeeper_init\<rparr>))"

definition Manager_init :: "bool \<Rightarrow> manager \<Rightarrow> (bool \<times> manager) res" where
  "Manager_init zookeeper_init m =
     bindR (initZookeeper zookeeper_init (snd (initKafkaConf m))) (\<lambda>(_, m1). Inr (True, m1))"

text \<open>
  The position file is opened for reading and writing, or created. The parameters are the
  content found, whether it can be created, and whether it can be truncated.
\<close>

definition open_pos_file :: "char list option \<Rightarrow> bool \<Rightarrow> pstream option" where
  "open_pos_file content creatable =
     (case content of
        Some d \<Rightarrow> Some \<lparr>p_data = d, p_pos = 0\<rparr>
      | None \<Rightarrow> if creatable then Some \<lparr>p_data = [], p_pos = 0\<rparr> else None)"

definition Manager_start :: "char list option \<Rightarrow> bool \<Rightarrow> bool \<Rightarrow> manager \<Rightarrow> (bool \<times> manager) res" where
  "Manager_start content creatable ftruncate_ok m =
     (case open_pos_file content creatable of
        None \<Rightarrow> Inr (False, m)
      | Some f \<Rightarrow>
          (let w = t_world m
           in case PositionFile_parse (os_malloc (w_os w) (w_tick w)) ftruncate_ok (lib_pcre2 (mg_lib m)) f of
                (pf, f') \<Rightarrow>
                  bindR (refreshWatchers (set_world (w_step (w\<lparr>w_posfile := f'\<rparr>))
                           (m\<lparr>m_position_file := pf, mg_pos_file := True\<rparr>))) (\<lambda>m1.
                    case TimerWatcher_init 0 (s64 (refresh_interval (mg_config m1))) (t_world m1) of
                      (res, tm, w1) \<Rightarrow>
                        Inr (res, set_world w1 (m1\<lparr>mg_refresh_trigger := (if res then Some tm else None)\<rparr>)))))"

definition Manager_stop :: "manager \<Rightarrow> (bool \<times> manager) res" where
  "Manager_stop m =
     (let m1 = m\<lparr>mg_refresh_trigger := map_option TimerWatcher_stop (mg_refresh_trigger m)\<rparr>
      in if mg_locked m1 then Inl Hang
         else bindR (stopWatchers (getTailsKeys m1) True False m1) (\<lambda>m2.
                Inr (True, m2\<lparr>mg_pos_file := False\<rparr>)))"

definition Manager_destroy :: "manager \<Rightarrow> manager res" where
  "Manager_destroy m0 =
     (let m = m0\<lparr>mg_zookeeper := False, mg_refresh_trigger := None, m_position_file := None\<rparr>
      in if mg_locked m then Inl Hang
         else bindR (delete_old_tails m) (\<lambda>m1.
              bindR (each (\<lambda>(_, p) m. case p of None \<Rightarrow> Inr m | Some q \<Rightarrow> TailWatcher_destroy q m) (m_tails m1) m1) (\<lambda>m2.
              bindR (stopProducers (w_kafka (t_world m2))) (\<lambda>k.
                Inr (set_world ((t_world m2)\<lparr>w_kafka := k\<rparr>)
                       (m2\<lparr>m_tails := map (\<lambda>(path_pattern, _). (path_pattern, None)) (m_tails m2),
                           m_tasks := map (\<lambda>(path_pattern, _). (path_pattern, None)) (m_tasks m2)\<rparr>))))))"

section \<open>Reporting\<close>

fun collecting_members :: "(string \<times> tail_ptr option) list \<Rightarrow> manager \<Rightarrow> ((string \<times> json) list \<times> manager) res" where
  "collecting_members [] m = Inr ([], m)"
| "collecting_members ((path_pattern, tw) # rest) m =
     (case tw of
        None \<Rightarrow> collecting_members rest m
      | Some p \<Rightarrow>
          if path_pattern = [] then collecting_members rest m
          else bindR (deref p m) (\<lambda>tail.
                 case TailWatcher_Serialize tail (t_world m) of
                   (v, w) \<Rightarrow>
                     bindR (collecting_members rest (set_world w m)) (\<lambda>(vs, m').
                       Inr ((cstr path_pattern, v) # vs, m'))))"

definition getCollectingState :: "manager \<Rightarrow> (json \<times> manager) res" where
  "getCollectingState m =
     (if mg_locked m then Inl Hang
      else bindR (collecting_members (m_tails m) m) (\<lambda>(ms, m'). Inr (JObject ms, m')))"

text \<open>What is handed to \<open>Zookeeper::setLogState\<close>, if anything.\<close>

definition uploadCollectingState :: "manager option \<Rightarrow> (json option \<times> manager option) res" where
  "uploadCollectingState arg =
     (case arg of
        None \<Rightarrow> Inr (None, None)
      | Some m \<Rightarrow>
          if \<not> mg_zookeeper m then Inr (None, Some m)
          else bindR (getCollectingState m) (\<lambda>(info, m'). Inr (Some info, Some m')))"

end
