(* ===== verification/Paths.thy ===== *)
theory Paths
  imports Manager
begin

text \<open>
  Properties of the path handling of the manager: the pattern that stands for all files of a
  task, and the queue of paths of a task.
\<close>

section \<open>Turning a pattern into a glob\<close>

text \<open>
  A pattern is well formed when every percent sign starts a conversion specifier. Its glob has
  one star for every maximal run of specifiers.
\<close>

fun conv_ok :: "string \<Rightarrow> bool" where
  "conv_ok [] = True"
| "conv_ok [c] = (c \<noteq> CHR ''%'')"
| "conv_ok (c # d # s) =
     (if c = CHR ''%'' then isTimeFormatConversionSpecifier d \<and> conv_ok s else conv_ok (d # s))"

fun globed :: "bool \<Rightarrow> string \<Rightarrow> string" where
  "globed run [] = []"
| "globed run [c] = [c]"
| "globed run (c # d # s) =
     (if c = CHR ''%'' then if run then globed True s else CHR ''*'' # globed True s
      else c # globed False (d # s))"

text \<open>The length of the run of specifiers at the front.\<close>

fun spec_run :: "string \<Rightarrow> nat" where
  "spec_run [] = 0"
| "spec_run [c] = 0"
| "spec_run (c # d # s) =
     (if c = CHR ''%'' \<and> isTimeFormatConversionSpecifier d then 2 + spec_run s else 0)"

lemma spec_end_run: "spec_end (pre @ r) (length pre) = length pre + spec_run r"
proof (induction r arbitrary: pre rule: spec_run.induct)
  case 1
  then show ?case by (subst spec_end.simps) auto
next
  case (2 c)
  then show ?case by (subst spec_end.simps) simp
next
  case (3 c d s)
  have IH: "spec_end ((pre @ [c, d]) @ s) (length (pre @ [c, d])) = length (pre @ [c, d]) + spec_run s"
    if "c = CHR ''%'' \<and> isTimeFormatConversionSpecifier d"
    using "3.IH" [OF that] .
  then show ?case
    by (subst spec_end.simps) (auto simp: nth_append)
qed

lemma percent_not_spec [simp]: "\<not> isTimeFormatConversionSpecifier (CHR ''%'')"
  by (simp add: isTimeFormatConversionSpecifier_def islower_def isupper_def)

lemma conv_ok_Cons: "c \<noteq> CHR ''%'' \<Longrightarrow> conv_ok (c # s) = conv_ok s"
  by (cases s) auto

lemma globed_Cons: "c \<noteq> CHR ''%'' \<Longrightarrow> globed run (c # s) = c # globed False s"
  by (cases s) auto

lemma conv_ok_append: "CHR ''%'' \<notin> set p \<Longrightarrow> conv_ok (p @ s) = conv_ok s"
  by (induction p) (auto simp: conv_ok_Cons)

lemma globed_append: "CHR ''%'' \<notin> set p \<Longrightarrow> globed False (p @ s) = p @ globed False s"
  by (induction p) (auto simp: globed_Cons)

lemma spec_run_conv: "conv_ok r \<Longrightarrow> conv_ok (drop (spec_run r) r)"
  by (induction r rule: spec_run.induct) auto

lemma spec_run_le: "spec_run r \<le> length r"
  by (induction r rule: spec_run.induct) auto

lemma globed_run: "conv_ok r \<Longrightarrow> globed True r = globed False (drop (spec_run r) r)"
proof (induction r rule: spec_run.induct)
  case (3 c d s)
  then show ?case by (cases "c = CHR ''%''") auto
qed auto

lemma percent_split:
  assumes "CHR ''%'' \<in> set s"
  obtains p r where "s = p @ CHR ''%'' # r" and "CHR ''%'' \<notin> set p"
  using assms split_list_first [of "CHR ''%''" s] by blast

lemma str_find_first:
  assumes "c \<notin> set p"
  shows "str_find (p @ c # r) [c] 0 = Some (length p)"
proof -
  obtain i where i: "str_find (p @ c # r) [c] 0 = Some i"
    using str_find_char [of "p @ c # r" c] by auto
  then have at: "prefixed [c] (drop i (p @ c # r))" and first: "\<forall>j < i. \<not> prefixed [c] (drop j (p @ c # r))"
    using str_find_Some [OF i] by auto
  have "\<not> i < length p" using at assms unfolding prefixed_char by (auto simp: nth_append)
  moreover have "\<not> length p < i" using first unfolding prefixed_char by auto
  ultimately show ?thesis using i by simp
qed

lemma glob_step_run:
  assumes "CHR ''%'' \<notin> set p"
  shows "glob_step (p @ CHR ''%'' # r) =
    (let n = spec_run (CHR ''%'' # r)
     in Inr (True, if n = 0 then p @ CHR ''%'' # r else p @ CHR ''*'' # drop n (CHR ''%'' # r)))"
  by (simp add: glob_step_def str_find_first [OF assms] spec_end_run Let_def)

lemma glob_step_done: "CHR ''%'' \<notin> set s \<Longrightarrow> glob_step s = Inr (False, s)"
  using str_find_char [of s "CHR ''%''"] by (simp add: glob_step_def)

lemma glob_loop_result: "conv_ok s \<Longrightarrow> loop glob_step s = Some (Inr (globed False s))"
proof (induction "count_list s (CHR ''%'')" arbitrary: s rule: less_induct)
  case less
  show ?case
  proof (cases "CHR ''%'' \<in> set s")
    case True
    then obtain p r where s: "s = p @ CHR ''%'' # r" and p: "CHR ''%'' \<notin> set p" by (rule percent_split)
    have ok: "conv_ok (CHR ''%'' # r)" using less.prems by (simp add: s conv_ok_append p)
    then obtain d r' where r: "r = d # r'" and d: "isTimeFormatConversionSpecifier d" and ok': "conv_ok r'"
      by (cases r) auto
    let ?t = "drop (spec_run r') r'" and ?s' = "p @ CHR ''*'' # drop (spec_run r') r'"
    have step: "glob_step s = Inr (True, ?s')"
      using glob_step_run [OF p, of r] d by (simp add: s r)
    have "count_list r' (CHR ''%'') = count_list (take (spec_run r') r') (CHR ''%'') + count_list ?t (CHR ''%'')"
      by (metis append_take_drop_id count_list_append)
    then have "count_list ?s' (CHR ''%'') < count_list s (CHR ''%'')"
      by (auto simp: s r)
    moreover have "conv_ok ?s'" by (simp add: conv_ok_append p conv_ok_Cons spec_run_conv ok')
    ultimately have "loop glob_step ?s' = Some (Inr (globed False ?s'))" by (rule less.hyps)
    then show ?thesis
      using step by (simp add: loop_again s r globed_append p globed_Cons globed_run [OF ok'])
  next
    case False
    then show ?thesis
      using globed_append [of s "[]"] by (simp add: loop_done glob_step_done)
  qed
qed

lemma glob_loop_hangs: "\<not> conv_ok s \<Longrightarrow> loop glob_step s = None"
proof (rule loop_hangs [where I = "\<lambda>s. \<not> conv_ok s"])
  fix s assume bad: "\<not> conv_ok s"
  then have "CHR ''%'' \<in> set s" using conv_ok_append [of s "[]"] by auto
  then obtain p r where s: "s = p @ CHR ''%'' # r" and p: "CHR ''%'' \<notin> set p" by (rule percent_split)
  have bad': "\<not> conv_ok (CHR ''%'' # r)" using bad by (simp add: s conv_ok_append p)
  have "conv_ok q" if "conv_ok (drop (spec_run q) q)" for q
    using that by (induction q rule: spec_run.induct) (auto split: if_splits)
  then have "\<not> conv_ok (drop (spec_run (CHR ''%'' # r)) (CHR ''%'' # r))" using bad' by blast
  then show "\<exists>s'. glob_step s = Inr (True, s') \<and> \<not> conv_ok s'"
    using glob_step_run [OF p, of r] bad by (auto simp: s Let_def conv_ok_append p conv_ok_Cons)
qed

text \<open>
  C17: \<open>getPathPatternGlobed\<close> returns exactly for the patterns in which every percent sign is
  followed by a conversion specifier, and then it has asked for the files that match the pattern with one star
  in the place of every run of specifiers. For any other pattern its loop never ends.
\<close>

theorem getPathPatternGlobed_returns:
  "getPathPatternGlobed path_pattern m =
     (if conv_ok path_pattern
      then case globPath (lib_glob (mg_lib m) (tick m)) (globed False path_pattern) [] of
             (ok, ps) \<Rightarrow> Inr (ok, ps, next_tick m)
      else Inl Hang)"
  by (simp add: getPathPatternGlobed_def glob_loop_result glob_loop_hangs)

section \<open>The passing of time\<close>

text \<open>The state after some more calls to the operating system, with nothing else changed.\<close>

definition at_tick :: "nat \<Rightarrow> manager \<Rightarrow> manager" where
  "at_tick n m = m\<lparr>t_world := (t_world m)\<lparr>w_tick := n\<rparr>\<rparr>"

lemma at_tick_simps [simp]:
  "at_tick k (at_tick n m) = at_tick k m"
  "t_heap (at_tick n m) = t_heap m" "mg_lib (at_tick n m) = mg_lib m" "mg_config (at_tick n m) = mg_config m"
  "m_task_confs (at_tick n m) = m_task_confs m" "m_tasks (at_tick n m) = m_tasks m"
  "m_tails (at_tick n m) = m_tails m" "m_tails_deleted (at_tick n m) = m_tails_deleted m"
  "m_position_file (at_tick n m) = m_position_file m" "mg_locked (at_tick n m) = mg_locked m"
  "mg_next (at_tick n m) = mg_next m" "mg_zookeeper (at_tick n m) = mg_zookeeper m"
  by (simp_all add: at_tick_def)

lemma next_tick_at: "next_tick m = at_tick (tick m + 1) m"
  by (simp add: next_tick_def at_tick_def set_world_def w_step_def tick_def)

lemma at_tick_now: "at_tick (tick m) m = m"
  by (simp add: at_tick_def tick_def)

lemma isActive_at:
  assumes "t_heap m p = Some tw"
  shows "\<exists>b n. isActive p m = Inr (b, at_tick n m)"
proof -
  have step: "set_world ((t_world m)\<lparr>w_tick := n\<rparr>) m = at_tick n m" for n
    by (simp add: at_tick_def set_world_def)
  then show ?thesis
    using assms
    by (auto simp: isActive_def deref_def Let_def getLastIOTime_def w_step_def split: option.splits prod.splits)
qed

section \<open>The queue of a task\<close>

definition tail_live :: "tail_ptr \<Rightarrow> 'a tstate_scheme \<Rightarrow> bool" where
  "tail_live p s \<longleftrightarrow>
     (\<exists>tw. t_heap s p = Some tw \<and> tw_timer_trigger tw \<noteq> None \<and> tw_stat_trigger tw \<noteq> None)"

definition tails_live :: "manager \<Rightarrow> bool" where
  "tails_live m \<longleftrightarrow> (\<forall>k x. smap_find (m_tails m) k = Some x \<longrightarrow> (\<exists>p. x = Some p \<and> tail_live p m))"

lemma tails_liveE:
  assumes "tails_live m" and "smap_find (m_tails m) k = Some x"
  obtains p tw where "x = Some p" and "t_heap m p = Some tw"
  using assms unfolding tails_live_def tail_live_def by blast

text \<open>The same task with another queue, which keeps the queue's contract.\<close>

definition requeued :: "Task \<Rightarrow> Task \<Rightarrow> bool" where
  "requeued t t' \<longleftrightarrow> conf t' = conf t \<and> path_queue_max_size t' = path_queue_max_size t \<and> (queue_ok t \<longrightarrow> queue_ok t')"

lemma requeued_refl [simp]: "requeued t t"
  by (simp add: requeued_def)

lemma requeued_trans [trans]: "requeued a b \<Longrightarrow> requeued b c \<Longrightarrow> requeued a c"
  by (simp add: requeued_def)

lemma requeued_addPath: "requeued t (snd (addPath t p))"
  using pq.add_ok [of t p] by (auto simp: requeued_def addPath_def Let_def)

lemma requeued_fold: "requeued t (fold (\<lambda>p t. snd (addPath t p)) ps t)"
proof (induction ps arbitrary: t)
  case (Cons p ps)
  show ?case using requeued_trans [OF requeued_addPath Cons.IH] by simp
qed simp

lemma delFirstPath_hasPath:
  "hasPath t \<Longrightarrow> \<exists>t'. delFirstPath t = Inr t' \<and> requeued t t' \<and> length (paths (stat t')) < length (paths (stat t))"
  using pq.del_ok [of t] by (cases "paths (stat t)") (auto simp: hasPath_def delFirstPath_def requeued_def)

lemma getPathPatternGlobed_runs:
  "conv_ok path_pattern \<Longrightarrow> \<exists>ok ps. getPathPatternGlobed path_pattern m = Inr (ok, ps, at_tick (tick m + 1) m)"
  by (simp add: getPathPatternGlobed_def glob_loop_result next_tick_at split: prod.split)

lemma first_update_runs:
  assumes "m_position_file m \<noteq> None" and "conv_ok path_pattern"
  shows "\<exists>t' n. first_update path_pattern expanded_path t m = Inr (t', at_tick n m) \<and> requeued t t'"
proof (cases "first_update_paths (stat t) \<and> expanded_path \<noteq> path_pattern \<and> follow_last (log_conf (conf t))")
  case True
  obtain pf where pf: "m_position_file m = Some pf" using assms(1) by blast
  obtain ok ps where ps: "getPathPatternGlobed path_pattern m = Inr (ok, ps, at_tick (tick m + 1) m)"
    using getPathPatternGlobed_runs [OF assms(2)] by blast
  have flag: "requeued t (b\<lparr>stat := (stat b)\<lparr>first_update_paths := False\<rparr>\<rparr>)" if "requeued t b" for b
    using that by (auto simp: requeued_def queue_ok_def)
  have many: "requeued t (fold (\<lambda>p t. snd (addPath t p)) qs (snd (addPath t l)))" for qs l
    by (rule requeued_trans [OF requeued_addPath requeued_fold])
  show ?thesis
  proof (cases "PositionFile_getPath path_pattern pf")
    case None
    then show ?thesis
      using True pf flag [OF requeued_refl] at_tick_now [of m] by (simp add: first_update_def) metis
  next
    case (Some l)
    then show ?thesis
      using True pf ps flag [OF requeued_addPath] flag [OF many]
      by (cases ok) (simp_all add: first_update_def, blast+)
  qed
next
  case False
  then have "first_update path_pattern expanded_path t m = Inr (t, at_tick (tick m) m)"
    by (simp only: first_update_def if_False at_tick_now)
  then show ?thesis using requeued_refl by blast
qed

lemma expire_step_runs:
  assumes "tails_live m"
  shows "\<exists>again t' n. expire_step path_pattern expanded_path (t, m) = Inr (again, t', at_tick n m) \<and>
    requeued t t' \<and> (again \<longrightarrow> length (paths (stat t')) < length (paths (stat t)))"
proof (cases "hasPath t")
  case True
  obtain t1 where t1: "delFirstPath t = Inr t1" "requeued t t1" "length (paths (stat t1)) < length (paths (stat t))"
    using delFirstPath_hasPath [OF True] by blast
  then have missing: "\<exists>again t' n. expire_missing expanded_path t m = Inr (again, t', at_tick n m) \<and>
    requeued t t' \<and> (again \<longrightarrow> length (paths (stat t')) < length (paths (stat t)))"
    by (auto simp: expire_missing_def next_tick_at)
  show ?thesis
  proof (cases "smap_find (m_tails m) path_pattern")
    case None
    then show ?thesis using missing True by (simp add: expire_step_def)
  next
    case (Some x)
    obtain p tw where p: "x = Some p" "t_heap m p = Some tw"
      using tails_liveE [OF assms Some] .
    obtain b n where "isActive p m = Inr (b, at_tick n m)" using isActive_at [OF p(2)] by blast
    then show ?thesis
      using missing True Some p t1
      by (cases b) (auto simp: expire_step_def tail_at_def getTailWatcher_def deref_def)
  qed
next
  case False
  then have "expire_step path_pattern expanded_path (t, m) = Inr (False, t, at_tick (tick m) m)"
    by (simp add: expire_step_def at_tick_now)
  then show ?thesis by force
qed

lemma tails_live_at [simp]: "tails_live (at_tick n m) = tails_live m"
  by (simp add: tails_live_def tail_live_def)

lemma expire_loop_runs:
  assumes "tails_live m"
  shows "\<exists>t' n. loop (expire_step path_pattern expanded_path) (t, m) = Some (Inr (t', at_tick n m)) \<and> requeued t t'"
proof -
  let ?I = "\<lambda>st :: Task \<times> manager. \<exists>n. snd st = at_tick n m"
  have "\<exists>st'. loop (expire_step path_pattern expanded_path) (t, m) = Some (Inr st') \<and> ?I st' \<and>
      requeued (fst (t, m)) (fst st')"
  proof (rule loop_terminates [where I = ?I and Q = ?I and R = "\<lambda>a b. requeued (fst a) (fst b)"
        and m = "\<lambda>st. length (paths (stat (fst st)))"])
    show "?I (t, m)" using at_tick_now [of m] by (metis snd_conv)
    fix st :: "Task \<times> manager" assume "?I st"
    then obtain n where "st = (fst st, at_tick n m)" by (metis prod.collapse)
    then show "\<exists>again st'. expire_step path_pattern expanded_path st = Inr (again, st') \<and> requeued (fst st) (fst st') \<and>
        (if again then ?I st' \<and> length (paths (stat (fst st'))) < length (paths (stat (fst st))) else ?I st')"
      using expire_step_runs [of "at_tick n m" path_pattern expanded_path "fst st"] assms
      by (metis at_tick_simps(1) fst_conv snd_conv tails_live_at)
  next
    fix a b c :: "Task \<times> manager"
    assume "requeued (fst a) (fst b)" and "requeued (fst b) (fst c)"
    then show "requeued (fst a) (fst c)" by (rule requeued_trans)
  qed
  then show ?thesis by force
qed

lemma put_task_simps [simp]:
  "m_tasks (put_task k t m) = smap_put k (Some t) (m_tasks m)"
  "m_task_confs (put_task k t m) = m_task_confs m" "m_tails (put_task k t m) = m_tails m"
  "m_position_file (put_task k t m) = m_position_file m" "t_heap (put_task k t m) = t_heap m"
  "at_tick n (put_task k t m) = put_task k t (at_tick n m)"
  "put_task k t (put_task k t' m) = put_task k t m"
  by (simp_all add: put_task_def at_tick_def smap_put_put)

lemma updateTaskPaths_runs:
  assumes "getTask m path_pattern = Some t" and "tails_live m"
    and "m_position_file m \<noteq> None" and "conv_ok path_pattern"
  shows "\<exists>t' n. updateTaskPaths path_pattern m = Inr (put_task path_pattern t' (at_tick n m)) \<and>
    requeued t t' \<and> hasPath t'"
proof -
  obtain e where e: "expandPath path_pattern m = (e, at_tick (tick m + 1) m)"
    by (simp add: expandPath_def next_tick_at)
  obtain t1 n1 where t1: "first_update path_pattern e t (at_tick (tick m + 1) m) = Inr (t1, at_tick n1 m)" "requeued t t1"
    using first_update_runs [of "at_tick (tick m + 1) m" path_pattern e t] assms(3,4) by auto
  obtain t2 n2 where t2: "loop (expire_step path_pattern e) (t1, at_tick n1 m) = Some (Inr (t2, at_tick n2 m))" "requeued t1 t2"
    using expire_loop_runs [of "at_tick n1 m" path_pattern e t1] assms(2) by auto
  have "requeued t (snd (addPath t2 e))"
    using requeued_trans [OF t1(2) requeued_trans [OF t2(2) requeued_addPath]] .
  moreover have "hasPath (snd (addPath t2 e))" using pq.add_last [of t2 e] by (simp add: hasPath_def)
  ultimately show ?thesis
    using e t1(1) t2(1) assms(1)
    by (auto simp: updateTaskPaths_def task_at_def getTask_def split: option.splits)
qed

end
