(* ===== verification/Lines.thy ===== *)
theory Lines
  imports IOHandler "HOL-Library.Sublist"
begin

text \<open>
  What the line cutter of \<open>IOHandler::onNotify\<close> computes. \<open>cut\<close> is the specification: one pass
  over a byte sequence, ending a line at every delimiter and at every full line. The \<open>for\<close>
  loop of the source, run over any sequence of buffers with any room for lines, gives a prefix
  of the same lines and keeps the bytes of the others.
\<close>

section \<open>Specification\<close>

record cutter =
  c_delim :: char
  c_remove :: bool
  c_max :: nat

fun cut :: "cutter \<Rightarrow> string \<Rightarrow> string \<Rightarrow> string list \<times> string" where
  "cut c p [] = ([], p)"
| "cut c p (x # xs) =
     (if x = c_delim c then
        ((if c_remove c then p else p @ [x]) # fst (cut c [] xs), snd (cut c [] xs))
      else if length p + 1 \<ge> c_max c then ((p @ [x]) # fst (cut c [] xs), snd (cut c [] xs))
      else cut c (p @ [x]) xs)"

abbreviation cut_lines :: "cutter \<Rightarrow> string \<Rightarrow> string list" where "cut_lines c s \<equiv> fst (cut c [] s)"
abbreviation cut_rest :: "cutter \<Rightarrow> string \<Rightarrow> string" where "cut_rest c s \<equiv> snd (cut c [] s)"

lemma cut_append:
  "cut c p (xs @ ys) = (fst (cut c p xs) @ fst (cut c (snd (cut c p xs)) ys), snd (cut c (snd (cut c p xs)) ys))"
  by (induction c p xs rule: cut.induct) auto

text \<open>A rest that is no line yet is read on as if it had never been set aside.\<close>

definition unfinished :: "cutter \<Rightarrow> string \<Rightarrow> bool" where
  "unfinished c p \<longleftrightarrow> p = [] \<or> (c_delim c \<notin> set p \<and> length p < c_max c)"

lemma unfinished_snoc:
  "unfinished c p \<Longrightarrow> x \<noteq> c_delim c \<Longrightarrow> Suc (length p) < c_max c \<Longrightarrow> unfinished c (p @ [x])"
  by (auto simp: unfinished_def)

lemma cut_unfinished: "unfinished c (q @ p) \<Longrightarrow> cut c q p = ([], q @ p)"
proof (induction p arbitrary: q)
  case (Cons x xs)
  then have "x \<noteq> c_delim c" "length q + 1 < c_max c" by (auto simp: unfinished_def)
  then show ?case using Cons.IH [of "q @ [x]"] Cons.prems by simp
qed simp

lemma unfinished_Nil [simp]: "unfinished c []"
  by (simp add: unfinished_def)

lemma unfinished_cut: "unfinished c p \<Longrightarrow> unfinished c (snd (cut c p xs))"
  by (induction c p xs rule: cut.induct) (auto simp: not_le intro: unfinished_snoc)

lemma cut_rest_absorb: "unfinished c p \<Longrightarrow> cut c [] (p @ xs) = cut c p xs"
  using cut_append [of c "[]" p xs] cut_unfinished [of c "[]" p] by simp

text \<open>A line is at most as long as the limit, or as one byte.\<close>

lemma cut_length:
  assumes "l \<in> set (fst (cut c p xs))" and "unfinished c p"
  shows "length l \<le> max 1 (c_max c)"
  using assms
proof (induction c p xs rule: cut.induct)
  case (2 c p x xs)
  have p: "length p + 1 \<le> max 1 (c_max c)" using "2.prems"(2) by (auto simp: unfinished_def)
  consider "x = c_delim c" | "x \<noteq> c_delim c" "length p + 1 \<ge> c_max c"
    | "x \<noteq> c_delim c" "length p + 1 < c_max c" by linarith
  then show ?case
  proof cases
    case 1
    then have "l = p \<or> l = p @ [x] \<or> l \<in> set (fst (cut c [] xs))"
      using "2.prems"(1) by (auto split: if_splits)
    then show ?thesis using p "2.IH"(1) [OF 1] by auto
  next
    case 2
    then have "l = p @ [x] \<or> l \<in> set (fst (cut c [] xs))"
      using "2.prems"(1) by (auto split: if_splits)
    then show ?thesis using p "2.IH"(3) [OF 2] by auto
  next
    case 3
    then show ?thesis using "2.prems" "2.IH"(5) unfinished_snoc [of c p x] by auto
  qed
qed simp

text \<open>The bytes of the lines, with what the cutter removed, are the bytes read.\<close>

lemma cut_keeps_bytes: "\<not> c_remove c \<Longrightarrow> concat (fst (cut c p xs)) @ snd (cut c p xs) = p @ xs"
  by (induction c p xs rule: cut.induct) auto

lemma cut_lines_no_more: "length (fst (cut c p xs)) + length (snd (cut c p xs)) \<le> length p + length xs"
proof (induction c p xs rule: cut.induct)
  case (2 c p x xs)
  then show ?case by (cases "x = c_delim c"; cases "length p + 1 \<ge> c_max c") auto
qed simp

lemma cut_bytes:
  "l \<in> set (fst (cut c p xs)) \<Longrightarrow> set l \<subseteq> set p \<union> set xs" and "set (snd (cut c p xs)) \<subseteq> set p \<union> set xs"
  by (induction c p xs rule: cut.induct) (auto split: if_splits)

section \<open>The loop of the source\<close>

definition cutter_of :: "IOHandler \<Rightarrow> cutter" where
  "cutter_of h = \<lparr>c_delim = m_line_delimiter h, c_remove = m_remove_delimiter h, c_max = m_line_max_bytes h\<rparr>"

lemma cutter_of_simps [simp]:
  "c_delim (cutter_of h) = m_line_delimiter h" "c_remove (cutter_of h) = m_remove_delimiter h"
  "c_max (cutter_of h) = m_line_max_bytes h"
  by (simp_all add: cutter_of_def)

definition content :: "IOHandler \<Rightarrow> string" where
  "content h = take (m_buffer_len h) (m_buffer h)"

text \<open>The bytes between two offsets of the buffer.\<close>

definition between :: "IOHandler \<Rightarrow> nat \<Rightarrow> nat \<Rightarrow> string" where
  "between h a b = take (b - a) (drop a (m_buffer h))"

lemma between_snoc: "a \<le> i \<Longrightarrow> i < length (m_buffer h) \<Longrightarrow> between h a (i + 1) = between h a i @ [m_buffer h ! i]"
  by (simp add: between_def Suc_diff_le take_Suc_conv_app_nth)

lemma between_empty [simp]: "between h i i = []"
  by (simp add: between_def)

lemma between_Cons: "i < b \<Longrightarrow> b \<le> length (m_buffer h) \<Longrightarrow> between h i b = m_buffer h ! i # between h (i + 1) b"
  unfolding between_def using Cons_nth_drop_Suc [of i "m_buffer h"]
  by (simp add: take_Cons' flip: Cons_nth_drop_Suc)

lemma length_between: "b \<le> length (m_buffer h) \<Longrightarrow> length (between h a b) = b - a"
  by (simp add: between_def)

lemma between_content: "between h 0 (m_buffer_len h) = content h"
  by (simp add: between_def content_def)

lemma between_append: "a \<le> b \<Longrightarrow> b \<le> c \<Longrightarrow> between h a c = between h a b @ between h b c"
  unfolding between_def using take_add [of "b - a" "c - b" "drop a (m_buffer h)"] by (simp add: add.commute)

lemma buf_str_between: "cur \<le> i \<Longrightarrow> buf_str h cur (i - cur) = between h cur i"
  by (simp add: buf_str_def between_def)

text \<open>What a run of the loop from index \<open>i\<close> establishes.\<close>

definition split_post :: "IOHandler \<Rightarrow> nat \<Rightarrow> nat \<Rightarrow> string list \<Rightarrow> nat \<times> nat \<times> string list \<times> bool \<Rightarrow> bool" where
  "split_post h i cur ls r =
     (case r of (i', cur', ls', broke) \<Rightarrow>
        (\<exists>new. ls' = ls @ new \<and> cur' \<le> i' \<and> i' \<le> m_buffer_len h \<and> length new + cur \<le> cur' \<and> (new = [] \<longrightarrow> cur' = cur) \<and>
           cut (cutter_of h) (between h cur i) (between h i (m_buffer_len h))
             = (new @ cut_lines (cutter_of h) (between h cur' (m_buffer_len h)),
                cut_rest (cutter_of h) (between h cur' (m_buffer_len h)))) \<and>
        (if broke then i' < m_buffer_len h \<and> m_max_line_at_once h \<le> length ls'
         else i' = m_buffer_len h \<and> unfinished (cutter_of h) (between h cur' (m_buffer_len h))) \<and>
        length ls' \<le> max (length ls) (m_max_line_at_once h))"

lemma split_post_step:
  assumes IH: "split_post h (i + 1) (i + 1) (ls @ [l]) r" and "cur \<le> i"
    and cut: "cut (cutter_of h) (between h cur i) (between h i (m_buffer_len h))
      = (l # cut_lines (cutter_of h) (between h (i + 1) (m_buffer_len h)),
         cut_rest (cutter_of h) (between h (i + 1) (m_buffer_len h)))"
    and room: "length ls < m_max_line_at_once h"
  shows "split_post h i cur ls r"
proof -
  obtain i' cur' ls' broke where r: "r = (i', cur', ls', broke)" by (cases r)
  obtain new where new: "ls' = (ls @ [l]) @ new" "cur' \<le> i'" "i' \<le> m_buffer_len h" "length new + (i + 1) \<le> cur'"
    "cut (cutter_of h) [] (between h (i + 1) (m_buffer_len h))
             = (new @ cut_lines (cutter_of h) (between h cur' (m_buffer_len h)),
                cut_rest (cutter_of h) (between h cur' (m_buffer_len h)))"
    using IH by (auto simp: split_post_def r)
  then show ?thesis using IH cut room assms(2) by (auto simp: split_post_def r intro!: exI [of _ "l # new"])
qed

text \<open>A line ends at a delimiter, or when it is as long as it may be.\<close>

lemma cut_delimiter:
  assumes "cur \<le> i" and "i < m_buffer_len h" and "m_buffer_len h \<le> length (m_buffer h)"
    and "m_buffer h ! i = m_line_delimiter h"
  shows "cut (cutter_of h) (between h cur i) (between h i (m_buffer_len h))
    = (buf_str h cur (if m_remove_delimiter h then i + 1 - cur - 1 else i + 1 - cur)
         # cut_lines (cutter_of h) (between h (i + 1) (m_buffer_len h)),
       cut_rest (cutter_of h) (between h (i + 1) (m_buffer_len h)))"
proof -
  have "between h i (m_buffer_len h) = m_buffer h ! i # between h (i + 1) (m_buffer_len h)"
    using assms by (intro between_Cons) simp_all
  moreover have "between h cur (i + 1) = between h cur i @ [m_buffer h ! i]" using assms by (intro between_snoc) simp_all
  ultimately show ?thesis
    using buf_str_between [of cur "i + 1" h] buf_str_between [of cur i h] assms(1,4) by simp
qed

lemma cut_too_long:
  assumes "cur \<le> i" and "i < m_buffer_len h" and "m_buffer_len h \<le> length (m_buffer h)"
    and "m_buffer h ! i \<noteq> m_line_delimiter h" and "m_line_max_bytes h \<le> i + 1 - cur"
  shows "cut (cutter_of h) (between h cur i) (between h i (m_buffer_len h))
    = (buf_str h cur (i + 1 - cur) # cut_lines (cutter_of h) (between h (i + 1) (m_buffer_len h)),
       cut_rest (cutter_of h) (between h (i + 1) (m_buffer_len h)))"
proof -
  have "between h i (m_buffer_len h) = m_buffer h ! i # between h (i + 1) (m_buffer_len h)"
    using assms by (intro between_Cons) simp_all
  moreover have "between h cur (i + 1) = between h cur i @ [m_buffer h ! i]" using assms by (intro between_snoc) simp_all
  moreover have "length (between h cur i) = i - cur" using assms by (simp add: length_between)
  ultimately show ?thesis
    using buf_str_between [of cur "i + 1" h] assms(1,4,5) by (simp add: Suc_diff_le)
qed

lemma split_loop_spec:
  assumes "cur \<le> i" and "i \<le> m_buffer_len h" and "m_buffer_len h \<le> length (m_buffer h)"
    and "unfinished (cutter_of h) (between h cur i)"
  shows "split_post h i cur ls (split_loop h i cur ls)"
  using assms
proof (induction h i cur ls rule: split_loop.induct)
  case (1 h i cur ls)
  let ?c = "cutter_of h" and ?n = "m_buffer_len h"
  have absorb: "cut ?c (between h cur i) (between h i ?n) = cut ?c [] (between h cur ?n)"
    using cut_rest_absorb [OF "1.prems"(4)] between_append [OF "1.prems"(1,2), of h] by simp
  have len: "i < ?n \<Longrightarrow> length (between h cur i) = i - cur"
    using "1.prems" by (simp add: length_between)
  have next_char: "i < ?n \<Longrightarrow> between h i ?n = m_buffer h ! i # between h (i + 1) ?n"
    using "1.prems"(3) by (intro between_Cons) simp_all
  have snoc: "i < ?n \<Longrightarrow> between h cur (i + 1) = between h cur i @ [m_buffer h ! i]"
    using "1.prems" by (intro between_snoc) simp_all
  consider (exit) "\<not> i < ?n" | (full) "i < ?n" "length ls \<ge> m_max_line_at_once h"
    | (delim) "i < ?n" "length ls < m_max_line_at_once h" "m_buffer h ! i = m_line_delimiter h"
    | (long) "i < ?n" "length ls < m_max_line_at_once h" "m_buffer h ! i \<noteq> m_line_delimiter h"
        "i + 1 - cur \<ge> m_line_max_bytes h"
    | (go) "i < ?n" "length ls < m_max_line_at_once h" "m_buffer h ! i \<noteq> m_line_delimiter h"
        "i + 1 - cur < m_line_max_bytes h" by linarith
  then show ?case
  proof cases
    case exit
    then have "split_loop h i cur ls = (i, cur, ls, False)" by (simp add: split_loop.simps [of h i cur ls])
    then show ?thesis using exit "1.prems" absorb by (simp add: split_post_def)
  next
    case full
    then show ?thesis using "1.prems" absorb by (simp add: split_loop.simps [of h i cur ls] split_post_def)
  next
    case delim
    let ?l = "buf_str h cur (if m_remove_delimiter h then i + 1 - cur - 1 else i + 1 - cur)"
    have "cut ?c (between h cur i) (between h i ?n)
        = (?l # cut_lines ?c (between h (i + 1) ?n), cut_rest ?c (between h (i + 1) ?n))"
      using cut_delimiter "1.prems"(1,3) delim(1,3) by blast
    moreover have "split_post h (i + 1) (i + 1) (ls @ [?l]) (split_loop h (i + 1) (i + 1) (ls @ [?l]))"
      using "1.IH"(1) [OF delim(1) _ refl delim(3)] delim(1,2) "1.prems"(3) by (simp del: One_nat_def)
    moreover have "split_loop h i cur ls = split_loop h (i + 1) (i + 1) (ls @ [?l])"
      using delim by (simp add: split_loop.simps [of h i cur ls] del: One_nat_def)
    ultimately show ?thesis
      using split_post_step [of h i ls ?l _ cur] "1.prems"(1) delim(2) by simp
  next
    case long
    let ?l = "buf_str h cur (i + 1 - cur)"
    have "cut ?c (between h cur i) (between h i ?n)
        = (?l # cut_lines ?c (between h (i + 1) ?n), cut_rest ?c (between h (i + 1) ?n))"
      using cut_too_long "1.prems"(1,3) long(1,3,4) by blast
    moreover have "split_post h (i + 1) (i + 1) (ls @ [?l]) (split_loop h (i + 1) (i + 1) (ls @ [?l]))"
      using "1.IH"(2) long "1.prems" by (simp add: not_le)
    ultimately show ?thesis
      using split_post_step "1.prems"(1) long by (simp add: split_loop.simps [of h i cur ls])
  next
    case go
    have "unfinished ?c (between h cur (i + 1))"
      using go len snoc "1.prems" by (auto simp: Suc_diff_le intro!: unfinished_snoc)
    then have "split_post h (i + 1) cur ls (split_loop h (i + 1) cur ls)"
      using "1.IH"(3) go "1.prems" by (simp add: not_le)
    moreover have "cut ?c (between h cur i) (between h i ?n) = cut ?c (between h cur (i + 1)) (between h (i + 1) ?n)"
      using go next_char snoc len "1.prems"(1) by (simp add: Suc_diff_le)
    ultimately show ?thesis using go by (simp add: split_loop.simps [of h i cur ls] split_post_def)
  qed
qed

end
