(* ===== verification/Notify.thy ===== *)
theory Notify
  imports Lines
begin

text \<open>
  What one notification of the io handler does: its steps keep the buffer within its block,
  read on without losing or repeating a byte, and commit the position of the first byte that
  was not cut into a line.
\<close>

section \<open>Frame\<close>

text \<open>What no step of the handler changes.\<close>

definition conf_of ::
  "IOHandler \<Rightarrow> PositionEntryPtr \<times> nat \<times> nat \<times> nat \<times> ReceiveFunc option \<times> FilterRegex option \<times>
     OutputKafka option \<times> char \<times> bool \<times> int option" where
  "conf_of h =
     (m_position_entry h, m_max_line_at_once h, m_line_max_bytes h, m_buffer_max_bytes h,
      m_receive_func h, m_filter h, m_output h, m_line_delimiter h, m_remove_delimiter h,
      map_option f_ino (m_file h))"

lemma conf_of_eqD:
  assumes "conf_of h' = conf_of h"
  shows "m_position_entry h' = m_position_entry h" "m_max_line_at_once h' = m_max_line_at_once h"
    "m_line_max_bytes h' = m_line_max_bytes h" "m_buffer_max_bytes h' = m_buffer_max_bytes h"
    "m_receive_func h' = m_receive_func h" "m_filter h' = m_filter h" "m_output h' = m_output h"
    "cutter_of h' = cutter_of h" "map_option f_ino (m_file h') = map_option f_ino (m_file h)"
  using assms by (simp_all add: conf_of_def cutter_of_def)

definition same_state :: "world \<Rightarrow> world \<Rightarrow> bool" where
  "same_state w w' \<longleftrightarrow>
     w_os w' = w_os w \<and> w_mem w' = w_mem w \<and> w_posfile w' = w_posfile w \<and> w_kafka w' = w_kafka w"

lemma same_state_refl [simp]: "same_state w w"
  by (simp add: same_state_def)

lemma same_state_trans: "same_state a b \<Longrightarrow> same_state b c \<Longrightarrow> same_state a c"
  by (simp add: same_state_def)

lemma same_state_step [simp]: "same_state w (w_step w')  \<longleftrightarrow> same_state w w'"
  by (simp add: same_state_def w_step_def)

lemma w_step_simps [simp]:
  "w_os (w_step w) = w_os w" "w_mem (w_step w) = w_mem w" "w_posfile (w_step w) = w_posfile w"
  "w_kafka (w_step w) = w_kafka w"
  by (simp_all add: w_step_def)

section \<open>The buffer\<close>

definition io_inv :: "IOHandler \<Rightarrow> bool" where
  "io_inv h \<longleftrightarrow>
     m_buffer_len h \<le> m_buffer_max_bytes h \<and> length (m_buffer h) = m_buffer_max_bytes h + 1 \<and>
     m_buffer_max_bytes h < 2 ^ 32"

lemma io_inv_room: "io_inv h \<Longrightarrow>
    nat (u64 (int (m_buffer_max_bytes h) - int (m_buffer_len h))) = m_buffer_max_bytes h - m_buffer_len h"
  by (simp add: io_inv_def u64_id nat_diff_distrib')

lemma length_content: "io_inv h \<Longrightarrow> length (content h) = m_buffer_len h"
  by (simp add: io_inv_def content_def)

lemma read_buffer_spec:
  assumes "io_inv h" and "m_file h = Some f"
    and got: "fread (w_os w) (w_tick w) (m_buffer_max_bytes h - m_buffer_len h) f = (got, f')"
  shows "\<exists>h'. read_buffer h w = Inr (length got, h', w_step w) \<and> io_inv h' \<and> conf_of h' = conf_of h \<and>
    m_file h' = Some f' \<and> content h' = content h @ got \<and> m_lines h' = m_lines h"
proof -
  have len: "length got \<le> m_buffer_max_bytes h - m_buffer_len h" by (rule fread_length [OF got])
  then have fits: "m_buffer_len h + length got \<le> m_buffer_max_bytes h"
    using assms(1) by (auto simp: io_inv_def)
  let ?h' = "h\<lparr>m_file := Some f', m_buffer_len := m_buffer_len h + length got,
      m_buffer := take (m_buffer_len h) (m_buffer h) @ got @ drop (m_buffer_len h + length got) (m_buffer h)\<rparr>"
  have "read_buffer h w = Inr (length got, ?h', w_step w)"
    using assms fits by (simp add: read_buffer_def io_inv_room) (simp add: io_inv_def)
  moreover have "io_inv ?h'" using assms(1) fits by (simp add: io_inv_def)
  moreover have "conf_of ?h' = conf_of h" using fread_ino [OF got] assms(2) by (simp add: conf_of_def)
  moreover have "content ?h' = content h @ got" using assms(1) by (simp add: content_def io_inv_def)
  ultimately show ?thesis by (intro exI [of _ ?h']) simp
qed

lemma updateLastBufferStuckTime_frame:
  assumes "updateLastBufferStuckTime h w = (h', w')"
  shows "\<exists>t. h' = h\<lparr>m_last_buffer_stuck_time := t\<rparr>" and "w' = w_step w"
  using assms by (auto simp: updateLastBufferStuckTime_def split: option.splits if_splits)
    (metis IOHandler.surjective IOHandler.update_convs(17))+

text \<open>
  A step that takes bytes \<open>got\<close> in and adds lines \<open>new\<close>: the lines of what was there and came in
  are the new lines followed by the lines still in the buffer.
\<close>

definition cuts :: "IOHandler \<Rightarrow> string \<Rightarrow> IOHandler \<Rightarrow> string list \<Rightarrow> bool" where
  "cuts h got h' new \<longleftrightarrow>
     cut (cutter_of h) [] (content h @ got)
       = (new @ cut_lines (cutter_of h) (content h'), cut_rest (cutter_of h) (content h')) \<and>
     length new + length (content h') \<le> length (content h) + length got \<and>
     suffix (content h') (content h @ got) \<and>
     (new = [] \<longrightarrow> content h' = content h @ got)"

lemma cutsD:
  assumes "cuts h got h' new"
  shows "cut (cutter_of h) [] (content h @ got)
      = (new @ cut_lines (cutter_of h) (content h'), cut_rest (cutter_of h) (content h'))"
    "length new + length (content h') \<le> length (content h) + length got"
    "suffix (content h') (content h @ got)"
    "new = [] \<Longrightarrow> content h' = content h @ got"
  using assms unfolding cuts_def by blast+

lemma cuts_refl: "content h' = content h \<Longrightarrow> cuts h [] h' []"
  by (simp add: cuts_def)

lemma cut_trans:
  assumes "cut c [] x = (n @ cut_lines c y, cut_rest c y)"
  shows "cut c [] (x @ b) = (n @ cut_lines c (y @ b), cut_rest c (y @ b))"
  using assms by (simp add: cut_append)

lemma cuts_trans:
  assumes "cuts h b1 h1 n1" and "cuts h1 b2 h2 n2" and "cutter_of h1 = cutter_of h"
  shows "cuts h (b1 @ b2) h2 (n1 @ n2)"
proof -
  let ?c = "cutter_of h"
  have "cut ?c [] (content h @ b1) = (n1 @ cut_lines ?c (content h1), cut_rest ?c (content h1))"
    using assms(1) unfolding cuts_def by blast
  from cut_trans [OF this, of b2]
  have "cut ?c [] (content h @ b1 @ b2) = (n1 @ cut_lines ?c (content h1 @ b2), cut_rest ?c (content h1 @ b2))"
    by simp
  moreover have "cut ?c [] (content h1 @ b2) = (n2 @ cut_lines ?c (content h2), cut_rest ?c (content h2))"
    using assms(2) unfolding cuts_def assms(3) by blast
  ultimately have "cut ?c [] (content h @ b1 @ b2) = ((n1 @ n2) @ cut_lines ?c (content h2), cut_rest ?c (content h2))"
    by (simp only: fst_conv snd_conv append_assoc)
  moreover have "suffix (content h2) (content h @ b1 @ b2)"
  proof -
    obtain z1 z2 where "content h @ b1 = z1 @ content h1" "content h1 @ b2 = z2 @ content h2"
      using cutsD(3) [OF assms(1)] cutsD(3) [OF assms(2)] by (auto simp: suffix_def)
    then have "content h @ b1 @ b2 = (z1 @ z2) @ content h2" by (metis append_assoc)
    then show ?thesis unfolding suffix_def by blast
  qed
  moreover have "length (n1 @ n2) + length (content h2) \<le> length (content h) + length (b1 @ b2)"
    using cutsD(2) [OF assms(1)] cutsD(2) [OF assms(2)] by simp
  moreover have "n1 @ n2 = [] \<longrightarrow> content h2 = content h @ b1 @ b2"
    using cutsD(4) [OF assms(1)] cutsD(4) [OF assms(2)] by simp
  ultimately show ?thesis unfolding cuts_def by blast
qed

lemma split_buffer_spec:
  assumes inv: "io_inv h" and run: "split_buffer h w = (broke, h', w')"
  shows "(\<exists>new. m_lines h' = m_lines h @ new \<and> cuts h [] h' new) \<and>
    io_inv h' \<and> conf_of h' = conf_of h \<and> m_file h' = m_file h \<and> same_state w w' \<and>
    (broke \<longrightarrow> m_max_line_at_once h \<le> length (m_lines h')) \<and>
    (\<not> broke \<longrightarrow> unfinished (cutter_of h) (content h'))"
proof (cases "m_buffer_len h = 0")
  case True
  then have "broke = False" "h' = h" "w' = w" using run by (simp_all add: split_buffer_def)
  moreover have "content h = []" using True by (simp add: content_def)
  ultimately show ?thesis using inv by (auto intro!: exI [of _ "[]"] cuts_refl)
next
  case False
  let ?n = "m_buffer_len h"
  obtain i cur ls b where sl: "split_loop h 0 0 (m_lines h) = (i, cur, ls, b)" by (metis prod_cases4)
  have n: "?n \<le> length (m_buffer h)" using inv by (simp add: io_inv_def)
  have "split_post h 0 0 (m_lines h) (i, cur, ls, b)"
    using split_loop_spec [of 0 0 h "m_lines h"] sl n by simp
  then obtain new where new: "ls = m_lines h @ new" "cur \<le> i" "i \<le> ?n" "length new \<le> cur" "new = [] \<longrightarrow> cur = 0"
    and cut: "cut (cutter_of h) [] (content h)
      = (new @ cut_lines (cutter_of h) (between h cur ?n), cut_rest (cutter_of h) (between h cur ?n))"
    and post: "if b then i < ?n \<and> m_max_line_at_once h \<le> length ls
       else i = ?n \<and> unfinished (cutter_of h) (between h cur ?n)"
    by (auto simp: split_post_def between_content)
  let ?h1 = "h\<lparr>m_lines := ls, m_buffer_last_segment := (i = ?n), m_buffer_len := ?n - cur\<rparr>"
  let ?h2 = "?h1\<lparr>m_buffer := between h cur ?n @ drop (?n - cur) (m_buffer h)\<rparr>"
  have "broke = b \<and> same_state w w' \<and> ((\<exists>t. h' = ?h2\<lparr>m_last_buffer_stuck_time := t\<rparr>) \<or> cur = ?n \<and> h' = ?h1)"
    using run sl False new(2,3) updateLastBufferStuckTime_frame [of ?h2 w]
    by (force simp: split_buffer_def buf_str_def between_def Let_def split: prod.splits if_splits)
  moreover have "length (between h cur ?n) = ?n - cur" using n by (rule length_between)
  ultimately have h': "broke = b" "same_state w w'" "m_lines h' = ls" "content h' = between h cur ?n"
    "m_buffer_len h' = ?n - cur" "length (m_buffer h') = length (m_buffer h)" "conf_of h' = conf_of h"
    "m_file h' = m_file h" "m_buffer_max_bytes h' = m_buffer_max_bytes h"
    using n by (auto simp: content_def conf_of_def)
  have "suffix (content h') (content h)"
    using between_append [of 0 cur ?n h] new(2,3) h'(4) by (simp add: between_content suffix_def)
  then have "cuts h [] h' new"
    using cut new(2,3,4,5) n h'(4) by (auto simp: cuts_def length_between content_def between_def)
  then show ?thesis
    using h' new(1) post inv by (auto simp: io_inv_def)
qed

lemma split_buffer_lines:
  assumes "io_inv h" and "split_buffer h w = (broke, h', w')"
  shows "length (m_lines h') \<le> max (length (m_lines h)) (m_max_line_at_once h)"
proof (cases "m_buffer_len h = 0")
  case False
  obtain i cur ls b where sl: "split_loop h 0 0 (m_lines h) = (i, cur, ls, b)" by (metis prod_cases4)
  have "split_post h 0 0 (m_lines h) (i, cur, ls, b)"
    using split_loop_spec [of 0 0 h "m_lines h"] sl assms(1) by (simp add: io_inv_def)
  moreover have "m_lines h' = ls"
    using assms(2) sl False
    by (auto simp: split_buffer_def Let_def updateLastBufferStuckTime_def split: if_splits option.splits)
  ultimately show ?thesis by (simp add: split_post_def)
qed (use assms in \<open>auto simp: split_buffer_def\<close>)

section \<open>Reading\<close>

text \<open>Bytes that some states of the file held at consecutive offsets.\<close>

definition from_file :: "os \<Rightarrow> int \<Rightarrow> nat \<Rightarrow> string \<Rightarrow> bool" where
  "from_file os ino pos bs \<longleftrightarrow>
     (\<forall>k < length bs. \<exists>t. pos + k < length (fs_data (os_fs os t) ino) \<and>
        bs ! k = fs_data (os_fs os t) ino ! (pos + k))"

lemma from_file_Nil [simp]: "from_file os ino pos []"
  by (simp add: from_file_def)

lemma from_file_append:
  assumes "from_file os ino pos a" and "from_file os ino (pos + length a) b"
  shows "from_file os ino pos (a @ b)"
  unfolding from_file_def
proof (intro allI impI)
  fix k assume k: "k < length (a @ b)"
  show "\<exists>t. pos + k < length (fs_data (os_fs os t) ino) \<and> (a @ b) ! k = fs_data (os_fs os t) ino ! (pos + k)"
  proof (cases "k < length a")
    case True
    then show ?thesis using assms(1) by (auto simp: from_file_def nth_append)
  next
    case False
    then have "k - length a < length b" using k by simp
    then show ?thesis using assms(2) False by (auto simp: from_file_def nth_append dest!: spec [of _ "k - length a"])
  qed
qed

lemma fread_from_file:
  assumes "fread os t n f = (got, f')"
  shows "from_file os (f_ino f) (nat (f_pos f)) got"
proof -
  let ?d = "fs_data (os_fs os t) (f_ino f)"
  obtain m where "got = take m (drop (nat (f_pos f)) ?d)"
    using assms by (auto simp: fread_def Let_def)
  then show ?thesis by (auto simp: from_file_def intro!: exI [of _ t])
qed

lemma from_file_set:
  assumes "from_file os ino pos bs" and "c \<in> set bs"
  shows "\<exists>t. c \<in> set (fs_data (os_fs os t) ino)"
proof -
  obtain k where "k < length bs" "bs ! k = c" using assms(2) by (auto simp: in_set_conv_nth)
  with assms(1) obtain t where "pos + k < length (fs_data (os_fs os t) ino)"
    "c = fs_data (os_fs os t) ino ! (pos + k)" by (auto simp: from_file_def)
  then show ?thesis using nth_mem by blast
qed

lemma from_file_static:
  assumes "from_file os ino pos bs" and "\<forall>t. fs_data (os_fs os t) ino = d"
  shows "bs = take (length bs) (drop pos d)"
proof (rule nth_equalityI)
  have k: "pos + k < length d \<and> bs ! k = d ! (pos + k)" if "k < length bs" for k
    using assms that by (auto simp: from_file_def)
  have "length bs \<le> length d - pos"
  proof (cases "length bs")
    case (Suc m)
    with k [of m] show ?thesis by linarith
  qed simp
  then show "length bs = length (take (length bs) (drop pos d))" by simp
  show "bs ! i = take (length bs) (drop pos d) ! i" if "i < length bs" for i
    using k [OF that] that by simp
qed

text \<open>
  A handler that can go on: its buffer has room, a line fits, and it has an open file whose
  size stays within a bound \<open>B\<close>.
\<close>

definition healthy :: "nat \<Rightarrow> IOHandler \<Rightarrow> world \<Rightarrow> bool" where
  "healthy B h w \<longleftrightarrow>
     io_inv h \<and> m_buffer_len h < m_buffer_max_bytes h \<and> m_line_max_bytes h \<le> m_buffer_max_bytes h \<and>
     1 \<le> m_max_line_at_once h \<and> int B < LONG_MAX \<and>
     (\<exists>f. m_file h = Some f \<and> int (m_buffer_len h) \<le> f_pos f \<and> f_pos f \<le> int B \<and>
        (\<forall>t. length (fs_data (os_fs (w_os w) t) (f_ino f)) \<le> B))"

definition at_end :: "IOHandler \<Rightarrow> world \<Rightarrow> bool" where
  "at_end h w \<longleftrightarrow> (\<exists>f t n. m_file h = Some f \<and> 0 < n \<and> fst (fread (w_os w) t n f) = [])"

text \<open>A stretch of reading: bytes come in and lines are added.\<close>

definition reads :: "IOHandler \<times> world \<Rightarrow> IOHandler \<times> world \<Rightarrow> string \<Rightarrow> string list \<Rightarrow> bool" where
  "reads s s' bs new =
     (case (s, s') of ((h, w), (h', w')) \<Rightarrow>
        conf_of h' = conf_of h \<and> same_state w w' \<and> cuts h bs h' new \<and> m_lines h' = m_lines h @ new \<and>
        getFilePos h' = getFilePos h + int (length bs) \<and> 0 \<le> getFilePos h \<and>
        from_file (w_os w) (the (map_option f_ino (m_file h))) (nat (getFilePos h)) bs)"

lemma reads_trans:
  assumes "reads s s1 b1 n1" and "reads s1 s2 b2 n2"
  shows "reads s s2 (b1 @ b2) (n1 @ n2)"
proof -
  obtain h w where s: "s = (h, w)" by (cases s)
  obtain h1 w1 where s1: "s1 = (h1, w1)" by (cases s1)
  obtain h2 w2 where s2: "s2 = (h2, w2)" by (cases s2)
  have "cuts h (b1 @ b2) h2 (n1 @ n2)"
    using assms conf_of_eqD(8) [of h1 h] by (intro cuts_trans [of h b1 h1]) (simp_all add: reads_def s s1 s2)
  moreover have "nat (getFilePos h1) = nat (getFilePos h) + length b1"
    using assms(1) by (simp add: reads_def s s1 nat_add_distrib)
  moreover have "map_option f_ino (m_file h1) = map_option f_ino (m_file h)"
    using assms(1) conf_of_eqD(9) [of h1 h] by (simp add: reads_def s s1)
  ultimately show ?thesis
    using assms by (simp add: reads_def s s1 s2 same_state_def from_file_append)
qed

lemma healthy_file:
  assumes "healthy B h w"
  obtains f where "m_file h = Some f" "int (m_buffer_len h) \<le> f_pos f" "f_pos f \<le> int B"
    "\<forall>t. length (fs_data (os_fs (w_os w) t) (f_ino f)) \<le> B"
  using assms by (auto simp: healthy_def)

text \<open>One read and the cut that follows it.\<close>

definition read_cut :: "nat \<Rightarrow> IOHandler \<times> world \<Rightarrow> string \<Rightarrow> bool \<Rightarrow> IOHandler \<times> world \<Rightarrow> string list \<Rightarrow> bool" where
  "read_cut B s got broke s' new =
     (case (s, s') of ((h, w), (h', w')) \<Rightarrow>
        reads s s' got new \<and> io_inv h' \<and> getFilePos h' \<le> int B \<and>
        length got \<le> m_buffer_max_bytes h - m_buffer_len h \<and>
        (got = [] \<longrightarrow> at_end h' w') \<and>
        (broke \<longrightarrow> m_max_line_at_once h' \<le> length (m_lines h')) \<and>
        (\<not> broke \<longrightarrow> unfinished (cutter_of h') (content h')))"

lemma read_and_cut:
  assumes ok: "healthy B h w"
  shows "\<exists>got h1 broke h2 w2 new. read_buffer h w = Inr (length got, h1, w_step w) \<and>
    split_buffer h1 (w_step w) = (broke, h2, w2) \<and> read_cut B (h, w) got broke (h2, w2) new"
proof -
  obtain f where f: "m_file h = Some f" "int (m_buffer_len h) \<le> f_pos f" "f_pos f \<le> int B"
    "\<forall>t. length (fs_data (os_fs (w_os w) t) (f_ino f)) \<le> B"
    using ok by (rule healthy_file)
  have inv: "io_inv h" using ok by (simp add: healthy_def)
  let ?n = "m_buffer_max_bytes h - m_buffer_len h"
  obtain got f' where got: "fread (w_os w) (w_tick w) ?n f = (got, f')" by (cases "fread (w_os w) (w_tick w) ?n f")
  obtain h1 where h1: "read_buffer h w = Inr (length got, h1, w_step w)" "io_inv h1" "conf_of h1 = conf_of h"
    "m_file h1 = Some f'" "content h1 = content h @ got" "m_lines h1 = m_lines h"
    using read_buffer_spec [OF inv f(1) got] by blast
  obtain broke h2 w2 where split: "split_buffer h1 (w_step w) = (broke, h2, w2)" by (metis prod_cases3)
  note sp = split_buffer_spec [OF h1(2) split]
  then obtain new where new: "m_lines h2 = m_lines h1 @ new" "cuts h1 [] h2 new" by blast
  have conf: "conf_of h2 = conf_of h" and mf: "m_file h2 = Some f'" and ss: "same_state w w2"
    using sp h1(3,4) by (simp_all add: same_state_def)
  have pos: "f_pos f' = f_pos f + int (length got)" by (rule fread_pos [OF got])
  have "cuts h got h2 new"
    using new(2) h1(5) conf_of_eqD(8) [OF h1(3)] by (simp add: cuts_def)
  then have "reads (h, w) (h2, w2) got new"
    using conf ss new(1) h1(6) pos f fread_from_file [OF got]
    by (simp add: reads_def getFilePos_def ftell_def mf)
  moreover have "f_pos f' \<le> int B"
    using pos f fread_within [OF got] by (cases "got = []") (auto intro: order_trans)
  moreover have "at_end h2 w2" if "got = []"
  proof -
    have "f' = f" using pos fread_ino [OF got] that by (cases f, cases f') simp
    moreover have "0 < ?n" using ok by (simp add: healthy_def)
    ultimately show ?thesis
      using got that mf ss unfolding at_end_def same_state_def
      by (intro exI [of _ f] exI [of _ "w_tick w"] exI [of _ ?n]) simp
  qed
  moreover have "getFilePos h2 = f_pos f'" by (simp add: getFilePos_def mf ftell_def)
  ultimately have "read_cut B (h, w) got broke (h2, w2) new"
    using sp conf_of_eqD [OF conf] conf_of_eqD [OF h1(3)] fread_length [OF got]
    by (simp add: read_cut_def)
  with h1(1) split show ?thesis by blast
qed

lemma read_cut_healthy:
  assumes ok: "healthy B h w" and few: "length (m_lines h) < m_max_line_at_once h"
    and rc: "read_cut B (h, w) got broke (h', w') new"
  shows "healthy B h' w'"
proof -
  obtain f where f: "m_file h = Some f" "int (m_buffer_len h) \<le> f_pos f" "f_pos f \<le> int B"
    "\<forall>t. length (fs_data (os_fs (w_os w) t) (f_ino f)) \<le> B"
    using ok by (rule healthy_file)
  have inv: "io_inv h" "io_inv h'" using ok rc by (simp_all add: healthy_def read_cut_def)
  have conf: "conf_of h' = conf_of h" and rd: "cuts h got h' new" "m_lines h' = m_lines h @ new"
    "getFilePos h' = getFilePos h + int (length got)" "same_state w w'"
    using rc by (simp_all add: read_cut_def reads_def)
  note same = conf_of_eqD [OF conf]
  obtain f' where f': "m_file h' = Some f'" "f_ino f' = f_ino f" using same(9) f(1) by auto
  have len: "length new + m_buffer_len h' \<le> m_buffer_len h + length got"
    using rd(1) length_content [OF inv(1)] length_content [OF inv(2)] by (simp add: cuts_def)
  have "m_buffer_len h' < m_buffer_max_bytes h"
  proof (cases broke)
    case True
    then have "0 < length new" using rc rd(2) few same(2) by (cases new) (simp_all add: read_cut_def)
    moreover have "m_buffer_len h + length got \<le> m_buffer_max_bytes h"
      using rc inv(1) by (simp add: read_cut_def io_inv_def le_diff_conv2 add.commute)
    ultimately show ?thesis using len by linarith
  next
    case False
    then have "unfinished (cutter_of h) (content h')" using rc same(8) by (simp add: read_cut_def)
    then have "m_buffer_len h' = 0 \<or> m_buffer_len h' < m_line_max_bytes h"
      using length_content [OF inv(2)] by (auto simp: unfinished_def)
    then show ?thesis using ok unfolding healthy_def by linarith
  qed
  then show ?thesis
    using ok rc inv f f' len rd(3,4) same
    by (simp add: healthy_def read_cut_def same_state_def getFilePos_def ftell_def)
qed

lemma read_step_healthy:
  assumes ok: "healthy B h w" and few: "length (m_lines h) < m_max_line_at_once h"
  shows "\<exists>again rm' h' w' bs new. read_step (rm, h, w) = Inr (again, (rm', h', w')) \<and>
    reads (h, w) (h', w') bs new \<and> healthy B h' w' \<and>
    (again \<longrightarrow> bs \<noteq> [] \<and> rm' = rm \<and> length (m_lines h') < m_max_line_at_once h') \<and>
    (\<not> again \<longrightarrow> rm' \<and> m_max_line_at_once h' \<le> length (m_lines h') \<or>
       rm' = rm \<and> unfinished (cutter_of h') (content h') \<and> at_end h' w')"
proof -
  obtain got h1 broke h2 w2 new where run: "read_buffer h w = Inr (length got, h1, w_step w)"
    "split_buffer h1 (w_step w) = (broke, h2, w2)" and rc: "read_cut B (h, w) got broke (h2, w2) new"
    using read_and_cut [OF ok] by blast
  have hl: "healthy B h2 w2" by (rule read_cut_healthy [OF ok few rc])
  then have mf: "m_file h2 \<noteq> None" by (auto simp: healthy_def)
  let ?full = "length (m_lines h2) \<ge> m_max_line_at_once h2"
  let ?out = "if got = [] then (False, (rm \<or> broke, h2, w2)) else if ?full then (False, (True, h2, w2))
         else (True, (rm \<or> broke, h2, w2))"
  have step: "read_step (rm, h, w) = Inr ?out"
    using run mf by (auto simp: read_step_def Let_def)
  have facts: "reads (h, w) (h2, w2) got new" "broke \<Longrightarrow> ?full" "got = [] \<Longrightarrow> at_end h2 w2"
    "\<not> broke \<Longrightarrow> unfinished (cutter_of h2) (content h2)"
    using rc by (simp_all add: read_cut_def)
  obtain again rm' where out: "?out = (again, (rm', h2, w2))" by (cases "got = []"; cases ?full) auto
  with step facts hl show ?thesis
    by (intro exI [of _ again] exI [of _ rm'] exI [of _ h2] exI [of _ w2] exI [of _ got] exI [of _ new])
      (auto split: if_splits)
qed

lemma reads_refl: "healthy B h w \<Longrightarrow> reads (h, w) (h, w) [] []"
  by (auto simp: reads_def healthy_def getFilePos_def ftell_def intro: cuts_refl)

text \<open>
  The inner loop ends, after a stretch of reading, with a full batch or at the end of the file
  with nothing but an unfinished line in the buffer.
\<close>

lemma read_loop:
  assumes "healthy B h w" and "length (m_lines h) < m_max_line_at_once h"
  shows "\<exists>rm h' w' bs new. loop read_step (False, h, w) = Some (Inr (rm, h', w')) \<and>
    reads (h, w) (h', w') bs new \<and> healthy B h' w' \<and>
    (if rm then m_max_line_at_once h' \<le> length (m_lines h')
     else unfinished (cutter_of h') (content h') \<and> at_end h' w')"
proof -
  let ?I = "\<lambda>(rm, h, w). \<not> rm \<and> healthy B h w \<and> length (m_lines h) < m_max_line_at_once h"
  let ?Q = "\<lambda>(rm, h, w). healthy B h w \<and> (if rm then m_max_line_at_once h \<le> length (m_lines h)
     else unfinished (cutter_of h) (content h) \<and> at_end h w)"
  let ?R = "\<lambda>s s'. \<exists>bs new. reads (snd s) (snd s') bs new"
  let ?m = "\<lambda>(rm, h, w). nat (int B - getFilePos h)"
  have "\<exists>s'. loop read_step (False, h, w) = Some (Inr s') \<and> ?Q s' \<and> ?R (False, h, w) s'"
  proof (rule loop_terminates [where I = ?I and m = ?m and Q = ?Q and R = ?R])
    show "?I (False, h, w)" using assms by simp
    show "?R a c" if "?R a b" "?R b c" for a b c :: io_state
      using that reads_trans by blast
    fix s :: io_state assume I: "?I s"
    obtain h w where s: "s = (False, h, w)" using I by (cases s) auto
    then have "healthy B h w" "length (m_lines h) < m_max_line_at_once h" using I by simp_all
    from read_step_healthy [OF this, of False] obtain again rm' h' w' bs new where step: "read_step (False, h, w) = Inr (again, (rm', h', w'))"
      and rd: "reads (h, w) (h', w') bs new" and hl: "healthy B h' w'"
      and again: "again \<longrightarrow> bs \<noteq> [] \<and> rm' = False \<and> length (m_lines h') < m_max_line_at_once h'"
      and stop: "\<not> again \<longrightarrow> rm' \<and> m_max_line_at_once h' \<le> length (m_lines h') \<or>
       rm' = False \<and> unfinished (cutter_of h') (content h') \<and> at_end h' w'"
      by blast
    have "nat (int B - getFilePos h') < nat (int B - getFilePos h)" if again
    proof -
      have "getFilePos h < getFilePos h'" using rd again that by (simp add: reads_def)
      moreover have "getFilePos h' \<le> int B" using hl by (auto simp: healthy_def getFilePos_def ftell_def)
      ultimately show ?thesis by simp
    qed
    then show "\<exists>again s'. read_step s = Inr (again, s') \<and> ?R s s' \<and> (if again then ?I s' \<and> ?m s' < ?m s else ?Q s')"
      using step rd hl again stop by (intro exI [of _ again] exI [of _ "(rm', h', w')"]) (auto simp: s)
  qed
  then obtain s' where s': "loop read_step (False, h, w) = Some (Inr s')" "?Q s'" "?R (False, h, w) s'"
    by blast
  obtain rm h' w' where "s' = (rm, h', w')" by (cases s')
  with s' show ?thesis
    by (intro exI [of _ rm] exI [of _ h'] exI [of _ w']) simp
qed

section \<open>The position\<close>

definition pe_ok :: "PositionEntryPtr \<Rightarrow> world \<Rightarrow> bool" where
  "pe_ok pe w \<longleftrightarrow>
     (case pe of PE_null \<Rightarrow> False | PE_mem a \<Rightarrow> w_mem w a \<noteq> None | PE_file seek \<Rightarrow> entry_at seek (w_posfile w))"

lemma pe_ok_same: "w_mem w' = w_mem w \<Longrightarrow> w_posfile w' = w_posfile w \<Longrightarrow> pe_ok pe w' = pe_ok pe w"
  by (simp add: pe_ok_def split: PositionEntryPtr.split)

lemma pe_readPos_same:
  "w_mem w' = w_mem w \<Longrightarrow> w_posfile w' = w_posfile w \<Longrightarrow>
    map_sum id fst (pe_readPos pe w') = map_sum id fst (pe_readPos pe w)"
  by (simp add: pe_readPos_def split: PositionEntryPtr.split option.split prod.split)

lemma pe_updatePos_spec:
  assumes "pe_ok pe w" and "storable_pos p"
  shows "\<exists>w'. pe_updatePos pe p w = Inr w' \<and> pe_ok pe w' \<and> w_os w' = w_os w \<and> w_kafka w' = w_kafka w \<and>
    map_sum id fst (pe_readPos pe w') = Inr p"
proof (cases pe)
  case (PE_mem a)
  then show ?thesis
    using assms by (auto simp: pe_ok_def pe_updatePos_def pe_readPos_def Mem_updatePos_def Mem_readPos_def)
next
  case (PE_file seek)
  then have "entry_at seek (w_posfile w)" using assms(1) by (simp add: pe_ok_def)
  then show ?thesis
    using fpe.readPos_updatePos [OF _ assms(2)] fpe.ok_updatePos PE_file
    by (auto simp: pe_ok_def pe_updatePos_def pe_readPos_def split: prod.split)
      (metis fst_conv)
qed (use assms in \<open>simp add: pe_ok_def\<close>)

text \<open>The entry holds the offset of the first byte that is not cut into a line.\<close>

definition committed :: "IOHandler \<Rightarrow> world \<Rightarrow> bool" where
  "committed h w \<longleftrightarrow>
     map_sum id fst (pe_readPos (m_position_entry h) w) = Inr (getFilePos h - int (m_buffer_len h))"

section \<open>Handing lines over\<close>

text \<open>
  What the handler relies on in a receive function: a batch of well-formed lines is accepted
  in a ready state, which stays ready, and every line has one of the fates the receiver knows:
  sent, left to the caller, or given up. \<open>fate s l g\<close> relates the lines sent and left to the
  lines given; fates add up over consecutive batches.
\<close>

locale line_receiver =
  fixes recv :: ReceiveFunc
    and flt :: "FilterRegex option"
    and out :: "OutputKafka option"
    and ready :: "kafka \<Rightarrow> bool"
    and ok_byte :: "char \<Rightarrow> bool"
    and sent :: "kafka \<Rightarrow> string list"
    and fate :: "string list \<Rightarrow> string list \<Rightarrow> string list \<Rightarrow> bool"
  assumes accepts: "ready k \<Longrightarrow> ls \<noteq> [] \<Longrightarrow> \<forall>l \<in> set ls. \<forall>c \<in> set l. ok_byte c \<Longrightarrow>
      \<exists>unsent k' s. recv flt out ls k = Inr (True, unsent, k') \<and> ready k' \<and> set unsent \<subseteq> set ls \<and>
        sent k' = sent k @ s \<and> fate s unsent ls"
    and fate_refl: "fate [] ls ls"
    and fate_trans: "fate s1 l1 g \<Longrightarrow> fate s2 l2 (l1 @ n) \<Longrightarrow> fate (s1 @ s2) l2 (g @ n)"

text \<open>A receiver that leaves nothing to the caller.\<close>

locale sure_receiver = line_receiver +
  assumes nothing_left: "ready k \<Longrightarrow> ls \<noteq> [] \<Longrightarrow> \<forall>l \<in> set ls. \<forall>c \<in> set l. ok_byte c \<Longrightarrow>
      recv flt out ls k = Inr (b, unsent, k') \<Longrightarrow> unsent = []"

text \<open>Progress of a notification: reading, cutting and handing over.\<close>

definition moves ::
  "(kafka \<Rightarrow> string list) \<Rightarrow> (string list \<Rightarrow> string list \<Rightarrow> string list \<Rightarrow> bool) \<Rightarrow>
     IOHandler \<times> world \<Rightarrow> IOHandler \<times> world \<Rightarrow> string \<Rightarrow> string list \<Rightarrow> string list \<Rightarrow> bool" where
  "moves sent fate st st' bs new s =
     (case (st, st') of ((h, w), (h', w')) \<Rightarrow>
        conf_of h' = conf_of h \<and> w_os w' = w_os w \<and> cuts h bs h' new \<and>
        getFilePos h' = getFilePos h + int (length bs) \<and> 0 \<le> getFilePos h \<and>
        from_file (w_os w) (the (map_option f_ino (m_file h))) (nat (getFilePos h)) bs \<and>
        sent (w_kafka w') = sent (w_kafka w) @ s \<and> fate s (m_lines h') (m_lines h @ new))"

definition clean :: "(char \<Rightarrow> bool) \<Rightarrow> IOHandler \<Rightarrow> world \<Rightarrow> bool" where
  "clean ok_byte h w \<longleftrightarrow>
     (\<forall>c \<in> set (content h). ok_byte c) \<and> (\<forall>l \<in> set (m_lines h). \<forall>c \<in> set l. ok_byte c) \<and>
     (\<forall>f t. m_file h = Some f \<longrightarrow> (\<forall>c \<in> set (fs_data (os_fs (w_os w) t) (f_ino f)). ok_byte c))"

lemma cuts_bytes:
  assumes "cuts h bs h' new"
  shows "set (content h') \<subseteq> set (content h) \<union> set bs" "l \<in> set new \<Longrightarrow> set l \<subseteq> set (content h) \<union> set bs"
proof -
  show "set (content h') \<subseteq> set (content h) \<union> set bs"
    using assms by (metis cuts_def set_append set_mono_suffix)
  assume "l \<in> set new"
  then have "l \<in> set (cut_lines (cutter_of h) (content h @ bs))" using assms by (simp add: cuts_def)
  then show "set l \<subseteq> set (content h) \<union> set bs" using cut_bytes(1) by fastforce
qed

lemma clean_reads:
  assumes cl: "clean ok_byte h w" and rd: "reads (h, w) (h', w') bs new" and mf: "m_file h = Some f"
  shows "clean ok_byte h' w'"
proof -
  have data: "ok_byte c" if "c \<in> set (fs_data (os_fs (w_os w) t) (f_ino f))" for c t
    using cl mf that by (auto simp: clean_def)
  have "ok_byte c" if "c \<in> set bs" for c
    using rd mf from_file_set [OF _ that] data by (fastforce simp: reads_def)
  moreover have "\<forall>c \<in> set (content h). ok_byte c" using cl by (simp add: clean_def)
  moreover have "cuts h bs h' new" "m_lines h' = m_lines h @ new" "w_os w' = w_os w"
    using rd by (simp_all add: reads_def same_state_def)
  moreover have "map_option f_ino (m_file h') = Some (f_ino f)"
    using rd mf conf_of_eqD(9) [of h' h] by (simp add: reads_def)
  ultimately show ?thesis
    using cl data cuts_bytes [of h bs h' new] unfolding clean_def by (auto; blast)
qed

text \<open>The handler of a receiver, and the state a notification needs and keeps.\<close>

definition wired :: "ReceiveFunc \<Rightarrow> FilterRegex option \<Rightarrow> OutputKafka option \<Rightarrow> IOHandler \<Rightarrow> bool" where
  "wired recv flt out h \<longleftrightarrow> m_receive_func h = Some recv \<and> m_filter h = flt \<and> m_output h = out"

lemma wired_conf: "conf_of h' = conf_of h \<Longrightarrow> wired recv flt out h' = wired recv flt out h"
  using conf_of_eqD(5-7) [of h' h] by (simp add: wired_def)

definition sound ::
  "(kafka \<Rightarrow> bool) \<Rightarrow> (char \<Rightarrow> bool) \<Rightarrow> nat \<Rightarrow> IOHandler \<times> world \<Rightarrow> bool" where
  "sound ready ok_byte B st =
     (case st of (h, w) \<Rightarrow>
        healthy B h w \<and> clean ok_byte h w \<and> ready (w_kafka w) \<and> pe_ok (m_position_entry h) w)"

text \<open>
  A committed position stays right while no line is cut: the offset of the first byte that is
  not cut moves only with a cut.
\<close>

lemma committed_reads:
  assumes "committed h w" and rd: "reads (h, w) (h', w') bs []" and "io_inv h" and "io_inv h'"
  shows "committed h' w'"
proof -
  have conf: "conf_of h' = conf_of h" and ss: "same_state w w'" and cuts: "cuts h bs h' []"
    and pos: "getFilePos h' = getFilePos h + int (length bs)"
    using rd by (simp_all add: reads_def)
  have "m_buffer_len h' = m_buffer_len h + length bs"
    using cutsD(4) [OF cuts] length_content [OF assms(3)] length_content [OF assms(4)] by simp
  then have "getFilePos h' - int (m_buffer_len h') = getFilePos h - int (m_buffer_len h)" using pos by simp
  moreover have "map_sum id fst (pe_readPos (m_position_entry h') w') = map_sum id fst (pe_readPos (m_position_entry h) w)"
    using ss unfolding conf_of_eqD(1) [OF conf] by (intro pe_readPos_same) (simp_all add: same_state_def)
  ultimately show ?thesis using assms(1) by (simp add: committed_def)
qed

lemma updateLastIOTime_frame:
  assumes "updateLastIOTime h w = (h', w')"
  shows "\<exists>t. h' = h\<lparr>m_last_io_time := t\<rparr>" and "w' = w_step w"
  using assms by (auto simp: updateLastIOTime_def split: option.splits if_splits)
    (metis IOHandler.surjective IOHandler.update_convs(16))+

text \<open>Two handlers that differ in their lines and times only.\<close>

definition same_buffer :: "IOHandler \<Rightarrow> IOHandler \<Rightarrow> bool" where
  "same_buffer h h' \<longleftrightarrow>
     conf_of h' = conf_of h \<and> m_file h' = m_file h \<and> m_buffer h' = m_buffer h \<and> m_buffer_len h' = m_buffer_len h"

lemma same_bufferD:
  assumes "same_buffer h h'"
  shows "conf_of h' = conf_of h" "m_file h' = m_file h" "content h' = content h"
    "m_buffer_len h' = m_buffer_len h" "io_inv h' = io_inv h" "getFilePos h' = getFilePos h"
    "cuts h [] h' []"
  using assms conf_of_eqD(4) [of h' h]
  by (auto simp: same_buffer_def content_def io_inv_def getFilePos_def intro!: cuts_refl)

lemma healthy_same_buffer:
  assumes "same_buffer h h'" and "w_os w' = w_os w"
  shows "healthy B h' w' = healthy B h w"
  using same_bufferD [OF assms(1)] conf_of_eqD [OF same_bufferD(1) [OF assms(1)]] assms(2)
  by (simp add: healthy_def)

text \<open>The lines left are what a call of the receive function left.\<close>

definition left_by ::
  "ReceiveFunc \<Rightarrow> FilterRegex option \<Rightarrow> OutputKafka option \<Rightarrow> (kafka \<Rightarrow> bool) \<Rightarrow> (char \<Rightarrow> bool) \<Rightarrow> string list \<Rightarrow> bool" where
  "left_by recv flt out ready ok_byte unsent \<longleftrightarrow>
     unsent = [] \<or> (\<exists>k ls b k'. ready k \<and> ls \<noteq> [] \<and> (\<forall>l \<in> set ls. \<forall>c \<in> set l. ok_byte c) \<and>
        recv flt out ls k = Inr (b, unsent, k'))"

context line_receiver
begin

lemma receive_step_sound:
  assumes so: "sound ready ok_byte B (h, w)" and wi: "wired recv flt out h"
    and co: "m_lines h \<noteq> [] \<or> committed h w"
  shows "\<exists>unsent h' w' s. receive_step h w = Inr (unsent, h', w') \<and> m_lines h' = unsent \<and>
    sound ready ok_byte B (h', w') \<and> committed h' w' \<and> same_buffer h h' \<and> w_os w' = w_os w \<and>
    sent (w_kafka w') = sent (w_kafka w) @ s \<and> fate s unsent (m_lines h) \<and>
    left_by recv flt out ready ok_byte unsent"
proof (cases "m_lines h = []")
  case True
  then show ?thesis
    using so co fate_refl [of "[]"]
    by (intro exI [of _ "[]"] exI [of _ h] exI [of _ w]) (simp add: receive_step_def same_buffer_def left_by_def)
next
  case False
  obtain h1 w1 where t: "updateLastIOTime h w = (h1, w1)" by (cases "updateLastIOTime h w")
  obtain tm where h1: "h1 = h\<lparr>m_last_io_time := tm\<rparr>" and w1: "w1 = w_step w"
    using updateLastIOTime_frame [OF t] by blast
  have pre: "ready (w_kafka w)" "\<forall>l \<in> set (m_lines h). \<forall>c \<in> set l. ok_byte c"
    using so by (simp_all add: sound_def clean_def)
  from accepts [OF pre(1) False pre(2)] obtain unsent k' s where
    acc: "recv flt out (m_lines h) (w_kafka w) = Inr (True, unsent, k')" "ready k'"
      "set unsent \<subseteq> set (m_lines h)" "sent k' = sent (w_kafka w) @ s" "fate s unsent (m_lines h)"
    by blast
  let ?p = "getFilePos h - int (m_buffer_len h)" and ?w2 = "w1\<lparr>w_kafka := k'\<rparr>"
  obtain f where f: "m_file h = Some f" "int (m_buffer_len h) \<le> f_pos f" "f_pos f \<le> int B"
    and B: "int B < LONG_MAX" using so by (auto simp: sound_def healthy_def)
  then have range: "0 \<le> ?p" "?p < LONG_MAX" by (simp_all add: getFilePos_def ftell_def)
  then have "s64 (u64 ?p) = ?p" "storable_pos ?p" by (simp_all add: u64_id s64_id storable_pos_def)
  moreover have "pe_ok (m_position_entry h) ?w2"
    using so pe_ok_same [of ?w2 w "m_position_entry h"] by (simp add: sound_def w1)
  ultimately obtain w3 where w3: "pe_updatePos (m_position_entry h) (s64 (u64 ?p)) ?w2 = Inr w3"
    "pe_ok (m_position_entry h) w3" "w_os w3 = w_os w" "w_kafka w3 = k'"
    "map_sum id fst (pe_readPos (m_position_entry h) w3) = Inr ?p"
    using pe_updatePos_spec [of "m_position_entry h" ?w2 ?p] by (auto simp: w1)
  let ?h' = "h1\<lparr>m_lines := unsent\<rparr>"
  have sb: "same_buffer h ?h'" by (simp add: same_buffer_def conf_of_def h1)
  have "getFilePos h1 = getFilePos h" by (simp add: getFilePos_def h1)
  then have "receive_step h w = Inr (unsent, ?h', w3)"
    using False wi t acc(1) w3(1) by (simp add: receive_step_def wired_def w1 h1 Let_def)
  moreover have "sound ready ok_byte B (?h', w3)"
    using so acc(2,3) w3 sb healthy_same_buffer [OF sb w3(3)] same_bufferD [OF sb] conf_of_eqD(1) [OF same_bufferD(1) [OF sb]]
    by (auto simp: sound_def clean_def)
  moreover have "committed ?h' w3"
    using w3(5) same_bufferD [OF sb] by (simp add: committed_def h1 getFilePos_def)
  moreover have "left_by recv flt out ready ok_byte unsent"
    using pre False acc(1) unfolding left_by_def by blast
  ultimately show ?thesis using acc w3 sb
    by (intro exI [of _ unsent] exI [of _ ?h'] exI [of _ w3] exI [of _ s]) simp
qed

lemma moves_trans:
  assumes "moves sent fate a b b1 n1 s1" and "moves sent fate b c b2 n2 s2"
  shows "moves sent fate a c (b1 @ b2) (n1 @ n2) (s1 @ s2)"
proof -
  obtain h w where a: "a = (h, w)" by (cases a)
  obtain h1 w1 where b: "b = (h1, w1)" by (cases b)
  obtain h2 w2 where c: "c = (h2, w2)" by (cases c)
  have conf: "conf_of h1 = conf_of h" using assms(1) by (simp add: moves_def a b)
  have "cuts h (b1 @ b2) h2 (n1 @ n2)"
    using assms conf_of_eqD(8) [OF conf] by (intro cuts_trans [of h b1 h1]) (simp_all add: moves_def a b c)
  moreover have "nat (getFilePos h1) = nat (getFilePos h) + length b1"
    using assms(1) by (simp add: moves_def a b nat_add_distrib)
  moreover have "fate (s1 @ s2) (m_lines h2) ((m_lines h @ n1) @ n2)"
    using assms fate_trans [of s1 "m_lines h1" "m_lines h @ n1" s2 "m_lines h2" n2] by (simp add: moves_def a b c)
  ultimately show ?thesis
    using assms conf_of_eqD(9) [OF conf] by (simp add: moves_def a b c from_file_append)
qed

lemma moves_reads_receive:
  assumes rd: "reads (h, w) (h1, w1) bs new" and sb: "same_buffer h1 h2" and os: "w_os w2 = w_os w1"
    and sn: "sent (w_kafka w2) = sent (w_kafka w1) @ s" and fa: "fate s (m_lines h2) (m_lines h1)"
  shows "moves sent fate (h, w) (h2, w2) bs new s"
proof -
  have conf: "conf_of h1 = conf_of h" using rd by (simp add: reads_def)
  have "cuts h (bs @ []) h2 (new @ [])"
    using rd same_bufferD(7) [OF sb] conf_of_eqD(8) [OF conf]
    by (intro cuts_trans [of h bs h1]) (simp_all add: reads_def)
  then show ?thesis
    using rd os sn fa same_bufferD [OF sb] by (simp add: moves_def reads_def same_state_def)
qed

text \<open>One round of the outer loop.\<close>

lemma notify_step_sound:
  assumes so: "sound ready ok_byte B (h, w)" and wi: "wired recv flt out h"
    and empty: "m_lines h = []" and co: "committed h w"
  shows "\<exists>again h' w' bs new s. notify_step (h, w) = Inr (again, h', w') \<and>
    moves sent fate (h, w) (h', w') bs new s \<and> sound ready ok_byte B (h', w') \<and> committed h' w' \<and>
    left_by recv flt out ready ok_byte (m_lines h') \<and> (again \<longrightarrow> m_lines h' = [] \<and> new \<noteq> []) \<and>
    (\<not> again \<longrightarrow> m_lines h' = [] \<longrightarrow> unfinished (cutter_of h') (content h') \<and> at_end h' w')"
proof -
  have hl: "healthy B h w" using so by (simp add: sound_def)
  then have one: "1 \<le> m_max_line_at_once h" by (simp add: healthy_def)
  then obtain rm h1 w1 bs new where loop: "loop read_step (False, h, w) = Some (Inr (rm, h1, w1))"
    and rd: "reads (h, w) (h1, w1) bs new" and hl1: "healthy B h1 w1"
    and stop: "if rm then m_max_line_at_once h1 \<le> length (m_lines h1)
      else unfinished (cutter_of h1) (content h1) \<and> at_end h1 w1"
    using read_loop [OF hl] empty by auto
  have conf: "conf_of h1 = conf_of h" and ss: "same_state w w1" and new: "m_lines h1 = new"
    using rd empty by (simp_all add: reads_def)
  obtain f where f: "m_file h = Some f" using hl by (rule healthy_file)
  have so1: "sound ready ok_byte B (h1, w1)"
    using so hl1 clean_reads [OF _ rd f] conf_of_eqD(1) [OF conf] ss
      pe_ok_same [of w1 w "m_position_entry h"] by (simp add: sound_def same_state_def)
  have "m_lines h1 \<noteq> [] \<or> committed h1 w1"
    using committed_reads [OF co, of h1 w1 bs] rd new hl hl1 by (auto simp: healthy_def)
  from receive_step_sound [OF so1 _ this] obtain unsent h2 w2 s where
    rc: "receive_step h1 w1 = Inr (unsent, h2, w2)" "m_lines h2 = unsent" "sound ready ok_byte B (h2, w2)"
      "committed h2 w2" and sb: "same_buffer h1 h2" and w2: "w_os w2 = w_os w1"
      "sent (w_kafka w2) = sent (w_kafka w1) @ s" "fate s unsent (m_lines h1)"
      "left_by recv flt out ready ok_byte unsent"
    using wi wired_conf [OF conf] by auto
  have mv: "moves sent fate (h, w) (h2, w2) bs new s"
    using moves_reads_receive [OF rd sb w2(1,2)] w2(3) rc(2) by simp
  have "notify_step (h, w) = Inr (rm \<and> unsent = [], h2, w2)"
    using loop rc(1) by (simp add: notify_step_def)
  moreover have "rm \<Longrightarrow> new \<noteq> []" using stop new one conf_of_eqD(2) [OF conf] by auto
  moreover have "at_end h2 w2 = at_end h1 w1" "cutter_of h2 = cutter_of h1" "content h2 = content h1"
    using same_bufferD [OF sb] conf_of_eqD(8) [of h2 h1] w2(1) by (simp_all add: at_end_def)
  ultimately show ?thesis
    using mv rc stop w2(4)
    by (intro exI [of _ "rm \<and> unsent = []"] exI [of _ h2] exI [of _ w2] exI [of _ bs] exI [of _ new] exI [of _ s]) auto
qed

text \<open>The outer loop ends with lines left over, or at the end of the file.\<close>

lemma notify_loop:
  assumes "sound ready ok_byte B (h, w)" and "wired recv flt out h" and "m_lines h = []" and "committed h w"
  shows "\<exists>h' w' bs new s. loop notify_step (h, w) = Some (Inr (h', w')) \<and>
    moves sent fate (h, w) (h', w') bs new s \<and> sound ready ok_byte B (h', w') \<and> committed h' w' \<and>
    left_by recv flt out ready ok_byte (m_lines h') \<and> (m_lines h' = [] \<longrightarrow> unfinished (cutter_of h') (content h') \<and> at_end h' w')"
proof -
  let ?I = "\<lambda>(h, w). sound ready ok_byte B (h, w) \<and> wired recv flt out h \<and> m_lines h = [] \<and> committed h w"
  let ?Q = "\<lambda>(h, w). sound ready ok_byte B (h, w) \<and> committed h w \<and>
    left_by recv flt out ready ok_byte (m_lines h) \<and> (m_lines h = [] \<longrightarrow> unfinished (cutter_of h) (content h) \<and> at_end h w)"
  let ?R = "\<lambda>a b. \<exists>bs new s. moves sent fate a b bs new s"
  let ?m = "\<lambda>(h, w). nat (int B - getFilePos h) + m_buffer_len h"
  have "\<exists>st. loop notify_step (h, w) = Some (Inr st) \<and> ?Q st \<and> ?R (h, w) st"
  proof (rule loop_terminates [where I = ?I and m = ?m and Q = ?Q and R = ?R])
    show "?I (h, w)" using assms by simp
    show "?R a c" if "?R a b" "?R b c" for a b c :: "IOHandler \<times> world"
      using that moves_trans by blast
    fix st :: "IOHandler \<times> world" assume I: "?I st"
    obtain h w where st: "st = (h, w)" by (cases st)
    with I obtain again h' w' bs new s where step: "notify_step (h, w) = Inr (again, h', w')"
      and mv: "moves sent fate (h, w) (h', w') bs new s" and so: "sound ready ok_byte B (h', w')" "committed h' w'" "left_by recv flt out ready ok_byte (m_lines h')"
      and again: "again \<longrightarrow> m_lines h' = [] \<and> new \<noteq> []"
      and stop: "\<not> again \<longrightarrow> m_lines h' = [] \<longrightarrow> unfinished (cutter_of h') (content h') \<and> at_end h' w'"
      using notify_step_sound [of B h w] by auto
    have conf: "conf_of h' = conf_of h" and cuts: "cuts h bs h' new"
      and pos: "getFilePos h' = getFilePos h + int (length bs)" using mv by (simp_all add: moves_def)
    have len: "length (content h) = m_buffer_len h" "length (content h') = m_buffer_len h'"
      using I so by (simp_all add: st sound_def healthy_def length_content)
    have "getFilePos h' \<le> int B" using so by (auto simp: sound_def healthy_def getFilePos_def ftell_def)
    then have "?m (h', w') < ?m (h, w)" if again
      using cutsD(2) [OF cuts] len pos again that by (cases new) auto
    then show "\<exists>again st'. notify_step st = Inr (again, st') \<and> ?R st st' \<and> (if again then ?I st' \<and> ?m st' < ?m st else ?Q st')"
      using step mv so again stop I wired_conf [OF conf] unfolding st
      by (intro exI [of _ again] exI [of _ "(h', w')"]) auto
  qed
  then obtain st where st: "loop notify_step (h, w) = Some (Inr st)" "?Q st" "?R (h, w) st" by blast
  obtain h' w' where "st = (h', w')" by (cases st)
  with st show ?thesis by (intro exI [of _ h'] exI [of _ w']) auto
qed

text \<open>A whole notification, after the flush of a stuck buffer.\<close>

lemma notify_sound:
  assumes fl: "flush_stuck h w = (h1, w1)" and so: "sound ready ok_byte B (h1, w1)"
    and wi: "wired recv flt out h" "conf_of h1 = conf_of h" and co: "m_lines h1 \<noteq> [] \<or> committed h1 w1"
  shows "\<exists>h' w' bs new s. IOHandler_onNotify (Some h) w = Inr (Some h', w') \<and>
    moves sent fate (h1, w1) (h', w') bs new s \<and> sound ready ok_byte B (h', w') \<and> committed h' w' \<and>
    left_by recv flt out ready ok_byte (m_lines h') \<and> (m_lines h' = [] \<longrightarrow> unfinished (cutter_of h') (content h') \<and> at_end h' w')"
proof -
  have wi1: "wired recv flt out h1" using wi wired_conf by blast
  obtain f where f: "m_file h1 = Some f" using so by (auto simp: sound_def healthy_def)
  then have mf: "m_file h \<noteq> None" using conf_of_eqD(9) [OF wi(2)] by (cases "m_file h") auto
  obtain unsent h2 w2 s where
    rc: "receive_step h1 w1 = Inr (unsent, h2, w2)" "m_lines h2 = unsent" "sound ready ok_byte B (h2, w2)"
      "committed h2 w2" and sb: "same_buffer h1 h2" and w2: "w_os w2 = w_os w1"
      "sent (w_kafka w2) = sent (w_kafka w1) @ s" "fate s unsent (m_lines h1)"
      "left_by recv flt out ready ok_byte unsent"
    using receive_step_sound [OF so wi1 co] by blast
  have "reads (h1, w1) (h1, w1) [] []" using so by (intro reads_refl [of B]) (simp add: sound_def)
  from moves_reads_receive [OF this sb w2(1,2)] w2(3) rc(2)
  have mv: "moves sent fate (h1, w1) (h2, w2) [] [] s" by simp
  have run: "IOHandler_onNotify (Some h) w = (if unsent \<noteq> [] then Inr (Some h2, w2)
      else bindR (returns (loop notify_step (h2, w2))) (\<lambda>(h3, w3). Inr (Some h3, w3)))"
    using fl wi(1) mf rc(1) by (auto simp: IOHandler_onNotify_def wired_def)
  show ?thesis
  proof (cases "unsent = []")
    case True
    have "wired recv flt out h2" using wi1 wired_conf [OF same_bufferD(1) [OF sb]] by simp
    from notify_loop [OF rc(3) this _ rc(4)] True rc(2) obtain h3 w3 bs new s' where
      lp: "loop notify_step (h2, w2) = Some (Inr (h3, w3))" "moves sent fate (h2, w2) (h3, w3) bs new s'"
        "sound ready ok_byte B (h3, w3)" "committed h3 w3" "left_by recv flt out ready ok_byte (m_lines h3)"
        "m_lines h3 = [] \<longrightarrow> unfinished (cutter_of h3) (content h3) \<and> at_end h3 w3"
      by blast
    then show ?thesis using moves_trans [OF mv lp(2)] run True by auto
  next
    case False
    then show ?thesis using run mv rc w2(4) by auto
  qed
qed

end

context sure_receiver
begin

lemma left_nothing: "left_by recv flt out ready ok_byte unsent \<Longrightarrow> unsent = []"
  using nothing_left by (auto simp: left_by_def)

text \<open>With a receiver that takes everything, a notification reads to the end of the file.\<close>

lemma notify_to_end:
  assumes "flush_stuck h w = (h1, w1)" and "sound ready ok_byte B (h1, w1)"
    and "wired recv flt out h" and "conf_of h1 = conf_of h" and "m_lines h1 \<noteq> [] \<or> committed h1 w1"
  shows "\<exists>h' w' bs new s. IOHandler_onNotify (Some h) w = Inr (Some h', w') \<and>
    moves sent fate (h1, w1) (h', w') bs new s \<and> sound ready ok_byte B (h', w') \<and> committed h' w' \<and> m_lines h' = [] \<and>
    unfinished (cutter_of h') (content h') \<and> at_end h' w'"
  using notify_sound [OF assms] left_nothing by blast

end

lemma flush_stuck_frame:
  assumes fl: "flush_stuck h w = (h1, w1)"
  shows "same_state w w1" and
    "same_buffer h h1 \<and> m_lines h1 = m_lines h \<or>
     conf_of h1 = conf_of h \<and> m_file h1 = m_file h \<and> m_buffer h1 = m_buffer h \<and> m_buffer_len h1 = 0 \<and>
     m_lines h1 = m_lines h @ [content h] \<and> m_buffer_last_segment h"
proof -
  obtain h2 w2 where t: "updateLastIOTime h w = (h2, w2)" by (cases "updateLastIOTime h w")
  obtain tm where h2: "h2 = h\<lparr>m_last_io_time := tm\<rparr>" and w2: "w2 = w_step w"
    using updateLastIOTime_frame [OF t] by blast
  obtain stuck w3 where st: "isBufferStuck h2 w2 = (stuck, w3)" by (cases "isBufferStuck h2 w2")
  have w3: "same_state w w3"
    using st w2 by (auto simp: isBufferStuck_def getLastBufferStuckTime_def split: option.splits if_splits prod.splits)
  let ?fl = "h2\<lparr>m_lines := m_lines h2 @ [buf_str h2 0 (m_buffer_len h2)], m_buffer_len := 0\<rparr>"
  have "flush_stuck h w = (if m_buffer_len h = 0 then (h, w)
      else if length (m_lines h2) < m_max_line_at_once h2
        then if stuck \<and> m_buffer_last_segment h2 then (?fl, w3) else (h2, w3) else (h2, w2))"
    by (simp add: flush_stuck_def t st)
  then have "h1 = h \<and> w1 = w \<or> h1 = h2 \<and> (w1 = w2 \<or> w1 = w3) \<or>
      h1 = ?fl \<and> w1 = w3 \<and> m_buffer_last_segment h2"
    unfolding fl by (metis prod.inject)
  moreover have "same_state w w2" "m_buffer_last_segment h2 = m_buffer_last_segment h"
    by (simp_all add: w2 h2)
  ultimately consider "h1 = h" "w1 = w" | "h1 = h2" "same_state w w1"
    | "h1 = ?fl" "same_state w w1" "m_buffer_last_segment h"
    using w3 by blast
  note cases = this
  show "same_state w w1" by (rule cases) simp_all
  show "same_buffer h h1 \<and> m_lines h1 = m_lines h \<or>
     conf_of h1 = conf_of h \<and> m_file h1 = m_file h \<and> m_buffer h1 = m_buffer h \<and> m_buffer_len h1 = 0 \<and>
     m_lines h1 = m_lines h @ [content h] \<and> m_buffer_last_segment h"
    by (rule cases) (simp_all add: h2 same_buffer_def conf_of_def content_def buf_str_def)
qed

lemma flush_stuck_sound:
  assumes fl: "flush_stuck h w = (h1, w1)" and so: "sound ready ok_byte B (h, w)" and co: "committed h w"
  shows "sound ready ok_byte B (h1, w1)" and "conf_of h1 = conf_of h" and "m_lines h1 \<noteq> [] \<or> committed h1 w1"
proof -
  note fr = flush_stuck_frame [OF fl]
  show conf: "conf_of h1 = conf_of h" using fr(2) same_bufferD(1) by blast
  have w1: "w_os w1 = w_os w" "w_kafka w1 = w_kafka w" "w_mem w1 = w_mem w" "w_posfile w1 = w_posfile w"
    using fr(1) by (simp_all add: same_state_def)
  note same = conf_of_eqD [OF conf]
  have pe: "pe_ok (m_position_entry h1) w1" using so pe_ok_same [of w1 w] w1 same(1) by (simp add: sound_def)
  show "sound ready ok_byte B (h1, w1)"
    using fr(2)
  proof
    assume sb: "same_buffer h h1 \<and> m_lines h1 = m_lines h"
    then show ?thesis
      using so pe w1 healthy_same_buffer [of h h1 w1 w B] same_bufferD [of h h1]
      by (simp add: sound_def clean_def)
  next
    assume a: "conf_of h1 = conf_of h \<and> m_file h1 = m_file h \<and> m_buffer h1 = m_buffer h \<and> m_buffer_len h1 = 0 \<and>
     m_lines h1 = m_lines h @ [content h] \<and> m_buffer_last_segment h"
    then have "content h1 = []" by (simp add: content_def)
    moreover have "healthy B h1 w1"
      using a so same w1 by (auto simp: sound_def healthy_def io_inv_def)
    ultimately show ?thesis using so pe w1 a by (auto simp: sound_def clean_def)
  qed
  show "m_lines h1 \<noteq> [] \<or> committed h1 w1"
    using fr(2) co same_bufferD [of h h1] same(1) pe_readPos_same [of w1 w "m_position_entry h"] w1
    by (auto simp: committed_def)
qed

end
