(* ===== verification/Collect.thy ===== *)
theory Collect
  imports Notify
begin

text \<open>
  The io handler with the receive function of the program: \<open>Manager::receiveLines\<close> satisfies
  the contract the handler relies on, for any filter and any answers of the Kafka cluster.
  From that: a notification always ends, no byte outside the buffer is touched, no line is sent
  twice or made up, the stored position is the one to resume from, and with a cluster that
  accepts everything the file arrives line by line.
\<close>

section \<open>The receive function\<close>

definition kafka_ready :: "OutputKafka \<Rightarrow> kafka \<Rightarrow> bool" where
  "kafka_ready ok k \<longleftrightarrow>
     NUL \<notin> set (key (m_kafka_topic_conf ok)) \<and>
     producer_of (compression_codec (m_kafka_topic_conf ok)) k \<noteq> None \<and>
     (\<forall>n. rd_topic_new (k_rd k) n (cstr (topic (m_kafka_topic_conf ok))))"

definition kafka_perfect :: "OutputKafka \<Rightarrow> kafka \<Rightarrow> bool" where
  "kafka_perfect ok k \<longleftrightarrow> kafka_ready ok k \<and> (\<forall>n i. rd_err (k_rd k) n i = RD_KAFKA_RESP_ERR_NO_ERROR)"

definition line_filter :: "FilterRegex option \<Rightarrow> string list \<Rightarrow> string list" where
  "line_filter flt ls = (case flt of None \<Rightarrow> ls | Some fr \<Rightarrow> filter (keeps (m_re fr)) ls)"

definition sent_lines :: "kafka \<Rightarrow> string list" where
  "sent_lines k = map kr_payload (k_log k)"

lemma line_filter_append: "line_filter flt (a @ b) = line_filter flt a @ line_filter flt b"
  by (simp add: line_filter_def split: option.split)

lemma line_filter_subset: "set (line_filter flt ls) \<subseteq> set ls"
  by (auto simp: line_filter_def split: option.split)

lemma line_filter_mset: "mset (line_filter flt ls) \<subseteq># mset ls"
  by (simp add: line_filter_def mset_filter multiset_filter_subset split: option.split)

lemma touch_producer_id: "producer_of c k \<noteq> None \<Longrightarrow> touch_producer c k = k"
  by (auto simp: producer_of_def touch_producer_def split: option.splits)

lemma receiveLines_spec:
  assumes "kafka_ready ok k" and "no_NUL ls"
  shows "receiveLines flt (Some ok) ls k =
    (let vl = line_filter flt ls; err = rd_err (k_rd k) (k_tick k); tc = m_kafka_topic_conf ok
     in if vl = [] then Inr (True, [], k)
        else Inr (True, refused err vl,
          (k_step k)\<lparr>k_log := k_log k @ map (record_of (cstr (topic tc)) (key tc) (partition tc)) (accepted err vl)\<rparr>))"
proof -
  have vl: "(case flt of None \<Rightarrow> ls | Some fr \<Rightarrow> snd (FilterRegex_filter flt ls)) = line_filter flt ls"
    using filter_loop_spec [of 0 ls] by (simp add: line_filter_def FilterRegex_filter_def split: option.split)
  have nn: "no_NUL (line_filter flt ls)"
    using assms(2) line_filter_subset by (auto simp: no_NUL_def)
  show ?thesis
  proof (cases "line_filter flt ls = []")
    case False
    obtain p where p: "producer_of (compression_codec (m_kafka_topic_conf ok)) k = Some p"
      using assms(1) by (auto simp: kafka_ready_def)
    then have "OutputKafka_output ok (line_filter flt ls) [] k =
        Producer_send (line_filter flt ls) [] (topic (m_kafka_topic_conf ok)) (key (m_kafka_topic_conf ok))
          (required_acks (m_kafka_topic_conf ok)) (partition (m_kafka_topic_conf ok))
          (message_timeout_ms (m_kafka_topic_conf ok)) k"
      by (simp add: OutputKafka_output_def touch_producer_id Let_def)
    then show ?thesis
      using False vl Producer_send_spec [OF nn] assms(1) by (simp add: receiveLines_def kafka_ready_def Let_def)
  qed (use vl in \<open>simp add: receiveLines_def\<close>)
qed

lemma sent_lines_log: "sent_lines (k\<lparr>k_log := k_log k' @ map (record_of t ky p) ms\<rparr>) = sent_lines k' @ ms"
  by (simp add: sent_lines_def record_of_def comp_def)

lemma kafka_ready_step: "kafka_ready ok ((k_step k)\<lparr>k_log := l\<rparr>) = kafka_ready ok k"
  by (simp add: kafka_ready_def k_step_def producer_of_def)

lemma with_err_subset: "set (with_err P err ms) \<subseteq> set ms"
  by (auto simp: with_err_def in_set_enumerate_eq)

text \<open>Any cluster: lines are sent or left at most once; the filter and errors may drop some.\<close>

definition at_most_once :: "string list \<Rightarrow> string list \<Rightarrow> string list \<Rightarrow> bool" where
  "at_most_once s l g \<longleftrightarrow> mset s + mset l \<subseteq># mset g"

interpretation rl: line_receiver receiveLines flt "Some ok" "kafka_ready ok" "\<lambda>c. c \<noteq> NUL" sent_lines at_most_once
  for flt ok
proof
  fix k ls
  assume r: "kafka_ready ok k" and "ls \<noteq> []" and "\<forall>l \<in> set ls. \<forall>c \<in> set l. c \<noteq> NUL"
  then have nn: "no_NUL ls" by (auto simp: no_NUL_def)
  let ?vl = "line_filter flt ls" and ?err = "rd_err (k_rd k) (k_tick k)"
  have sub: "mset (accepted ?err ?vl) + mset (refused ?err ?vl) \<subseteq># mset ls"
    using with_err_partition [of ?vl ?err] line_filter_mset [of flt ls]
    by (metis mset_subset_eq_add_left subset_mset.order_trans)
  have unsent: "set (refused ?err ?vl) \<subseteq> set ls"
    using with_err_subset line_filter_subset unfolding refused_def by fast
  show "\<exists>unsent k' s. receiveLines flt (Some ok) ls k = Inr (True, unsent, k') \<and> kafka_ready ok k' \<and>
      set unsent \<subseteq> set ls \<and> sent_lines k' = sent_lines k @ s \<and> at_most_once s unsent ls"
  proof (cases "?vl = []")
    case True
    then show ?thesis using receiveLines_spec [OF r nn] r by (simp add: at_most_once_def)
  next
    case False
    then show ?thesis
      using receiveLines_spec [OF r nn] r sub unsent
      by (simp add: at_most_once_def sent_lines_log kafka_ready_step Let_def)
  qed
next
  show "at_most_once [] ls ls" for ls by (simp add: at_most_once_def)
  show "at_most_once (s1 @ s2) l2 (g @ n)" if "at_most_once s1 l1 g" "at_most_once s2 l2 (l1 @ n)" for s1 l1 g s2 l2 n
  proof -
    have "mset s1 + (mset s2 + mset l2) \<subseteq># mset s1 + (mset l1 + mset n)"
      using that(2) by (simp add: at_most_once_def)
    also have "\<dots> \<subseteq># mset g + mset n"
      using that(1) by (simp add: at_most_once_def flip: add.assoc)
    finally show ?thesis by (simp add: at_most_once_def add.assoc)
  qed
qed

text \<open>A cluster that accepts every message: every line the filter keeps is sent, in order.\<close>

definition in_order :: "FilterRegex option \<Rightarrow> string list \<Rightarrow> string list \<Rightarrow> string list \<Rightarrow> bool" where
  "in_order flt s l g \<longleftrightarrow> s @ line_filter flt l = line_filter flt g"

lemma with_err_all: "(\<And>i. P (err i)) \<Longrightarrow> with_err P err ms = ms"
  by (simp add: with_err_def)

lemma with_err_none: "(\<And>i. \<not> P (err i)) \<Longrightarrow> with_err P err ms = []"
  by (simp add: with_err_def)

lemma receiveLines_perfect:
  assumes "kafka_perfect ok k" and "no_NUL ls"
  shows "\<exists>k'. receiveLines flt (Some ok) ls k = Inr (True, [], k') \<and> kafka_perfect ok k' \<and>
    sent_lines k' = sent_lines k @ line_filter flt ls"
proof -
  let ?vl = "line_filter flt ls" and ?err = "rd_err (k_rd k) (k_tick k)"
  have r: "kafka_ready ok k" and err: "?err i = RD_KAFKA_RESP_ERR_NO_ERROR" for i
    using assms(1) by (simp_all add: kafka_perfect_def)
  have "accepted ?err ?vl = ?vl" "refused ?err ?vl = []"
    unfolding accepted_def refused_def
    by (rule with_err_all, simp add: err)
      (rule with_err_none, simp add: err RD_KAFKA_RESP_ERR_NO_ERROR_def RD_KAFKA_RESP_ERR_QUEUE_FULL_def)
  moreover have "kafka_perfect ok ((k_step k)\<lparr>k_log := l\<rparr>)" for l
    using assms(1) by (simp add: kafka_perfect_def kafka_ready_step) (simp add: k_step_def)
  ultimately show ?thesis
    using receiveLines_spec [OF r assms(2), of flt] assms(1)
    by (cases "?vl = []") (simp_all add: sent_lines_log Let_def)
qed

interpretation pl: sure_receiver receiveLines flt "Some ok" "kafka_perfect ok" "\<lambda>c. c \<noteq> NUL" sent_lines "in_order flt"
  for flt ok
proof
  fix k ls
  assume p: "kafka_perfect ok k" and "ls \<noteq> []" and "\<forall>l \<in> set ls. \<forall>c \<in> set l. c \<noteq> NUL"
  then have nn: "no_NUL ls" by (auto simp: no_NUL_def)
  show "\<exists>unsent k' s. receiveLines flt (Some ok) ls k = Inr (True, unsent, k') \<and> kafka_perfect ok k' \<and>
      set unsent \<subseteq> set ls \<and> sent_lines k' = sent_lines k @ s \<and> in_order flt s unsent ls"
    using receiveLines_perfect [OF p nn, of flt] by (auto simp: in_order_def line_filter_def split: option.split)
  show "unsent = []" if "receiveLines flt (Some ok) ls k = Inr (b, unsent, k')" for b unsent k'
    using receiveLines_perfect [OF p nn, of flt] that by auto
next
  show "in_order flt [] ls ls" for ls by (simp add: in_order_def)
  show "in_order flt (s1 @ s2) l2 (g @ n)" if "in_order flt s1 l1 g" "in_order flt s2 l2 (l1 @ n)" for s1 l1 g s2 l2 n
    using that by (metis append_assoc in_order_def line_filter_append)
qed

section \<open>Notifications\<close>

lemma notify_run:
  assumes so: "sound (kafka_ready ok) (\<lambda>c. c \<noteq> NUL) B (h, w)"
    and wi: "wired receiveLines flt (Some ok) h" and co: "committed h w"
    and fl: "flush_stuck h w = (h1, w1)"
  shows "\<exists>h' w' bs new s. IOHandler_onNotify (Some h) w = Inr (Some h', w') \<and>
    moves sent_lines at_most_once (h1, w1) (h', w') bs new s \<and>
    sound (kafka_ready ok) (\<lambda>c. c \<noteq> NUL) B (h', w') \<and> committed h' w'"
  using rl.notify_sound [OF fl flush_stuck_sound(1) [OF fl so co] wi flush_stuck_sound(2,3) [OF fl so co]] by blast

lemma flush_conf: "flush_stuck h w = (h1, w1) \<Longrightarrow> conf_of h1 = conf_of h"
  using flush_stuck_frame(2) same_bufferD(1) by blast



lemma at_end_static:
  assumes "at_end h w" and "m_file h = Some f" and "\<forall>t. fs_data (os_fs (w_os w) t) (f_ino f) = d"
    and "\<forall>t. os_cap (w_os w) t = None"
  shows "length d \<le> nat (f_pos f)"
  using assms by (auto simp: at_end_def fread_def Let_def)

lemma static_read_all:
  assumes "from_file os ino pos bs" and "\<forall>t. fs_data (os_fs os t) ino = d" and "length d \<le> pos + length bs"
  shows "bs = drop pos d"
  using from_file_static [OF assms(1,2)] assms(3) by simp

text \<open>A notification of an unchanging file.\<close>

lemma delivery:
  assumes so: "sound (kafka_perfect ok) (\<lambda>c. c \<noteq> NUL) B (h, w)"
    and wi: "wired receiveLines flt (Some ok) h" and co: "committed h w"
    and fl: "flush_stuck h w = (h1, w1)" and mf: "m_file h = Some f"
    and static: "\<forall>t. fs_data (os_fs (w_os w) t) (f_ino f) = d" "\<forall>t. os_cap (w_os w) t = None"
  shows "\<exists>h' w'. IOHandler_onNotify (Some h) w = Inr (Some h', w') \<and>
    sent_lines (w_kafka w') = sent_lines (w_kafka w) @
      line_filter flt (m_lines h1 @ cut_lines (cutter_of h) (content h1 @ drop (nat (f_pos f)) d)) \<and>
    m_lines h' = [] \<and> content h' = cut_rest (cutter_of h) (content h1 @ drop (nat (f_pos f)) d) \<and>
    committed h' w' \<and>
    map_sum id fst (pe_readPos (m_position_entry h) w')
      = Inr (f_pos f + int (length (drop (nat (f_pos f)) d)) - int (length (content h')))"
proof -
  note fr = flush_stuck_frame [OF fl] and fs = flush_stuck_sound [OF fl so co]
  obtain h' w' bs new s where run: "IOHandler_onNotify (Some h) w = Inr (Some h', w')"
    and mv: "moves sent_lines (in_order flt) (h1, w1) (h', w') bs new s"
    and so': "sound (kafka_perfect ok) (\<lambda>c. c \<noteq> NUL) B (h', w')"
    and fin: "committed h' w'" "m_lines h' = []" "unfinished (cutter_of h') (content h')" "at_end h' w'"
    using pl.notify_to_end [OF fl fs(1) wi fs(2,3)] by blast
  have h1: "m_file h1 = Some f" using fr(2) mf same_bufferD(2) by auto
  have w1: "w_os w1 = w_os w" "w_kafka w1 = w_kafka w" using fr(1) by (simp_all add: same_state_def)
  have conf: "conf_of h' = conf_of h1" and w': "w_os w' = w_os w" and cuts: "cuts h1 bs h' new"
    and pos: "getFilePos h' = f_pos f + int (length bs)" "0 \<le> f_pos f"
    and ff: "from_file (w_os w) (f_ino f) (nat (f_pos f)) bs"
    and sent: "sent_lines (w_kafka w') = sent_lines (w_kafka w) @ s" "in_order flt s [] (m_lines h1 @ new)"
    using mv w1 h1 fin(2) by (simp_all add: moves_def getFilePos_def ftell_def)
  obtain f' where f': "m_file h' = Some f'" "f_ino f' = f_ino f"
    using conf_of_eqD(9) [OF conf] h1 by auto
  have "length d \<le> nat (f_pos f')"
    using at_end_static [OF fin(4) f'(1)] static w' f'(2) by simp
  moreover have "f_pos f' = f_pos f + int (length bs)" using pos(1) f'(1) by (simp add: getFilePos_def ftell_def)
  ultimately have bs: "bs = drop (nat (f_pos f)) d"
    using static_read_all [OF ff static(1)] pos(2) by (simp add: nat_add_distrib)
  moreover have c: "cutter_of h' = cutter_of h" "cutter_of h1 = cutter_of h"
    using conf_of_eqD(8) [OF conf] conf_of_eqD(8) [OF flush_conf [OF fl]] by simp_all
  moreover have "cut (cutter_of h) [] (content h') = ([], content h')"
    using cut_unfinished [of "cutter_of h" "[]" "content h'"] fin(3) c by simp
  ultimately have "cut (cutter_of h) [] (content h1 @ drop (nat (f_pos f)) d) = (new, content h')"
    using cutsD(1) [OF cuts] by simp
  moreover have "s = line_filter flt (m_lines h1 @ new)"
    using sent(2) by (simp add: in_order_def line_filter_def split: option.splits)
  moreover have "length (content h') = m_buffer_len h'"
    using so' length_content by (auto simp: sound_def healthy_def)
  moreover have "m_position_entry h' = m_position_entry h"
    using conf_of_eqD(1) [OF conf] conf_of_eqD(1) [OF flush_conf [OF fl]] by simp
  ultimately show ?thesis using run sent(1) fin pos(1) bs by (auto simp: committed_def)
qed


section \<open>A handler fresh from its initialisation\<close>

text \<open>
  The handler that \<open>IOHandler::init\<close> makes is fit for notifications: for sizes within the
  limits of the configuration (a line fits the buffer, the batch is not empty, nothing wraps
  around) and a file opened at the position its entry holds, the state that notifications need
  and keep is established.
\<close>

lemma init_establishes:
  assumes "IOHandler_init (Some f) pe batch line_max buf_max delim rm flt (Some ok) (Some receiveLines) w = (Some h, w')"
    and "1 \<le> batch" "batch < 2 ^ 32" and "0 \<le> line_max" "line_max \<le> buf_max" "1 \<le> buf_max" "buf_max < 2 ^ 32 - 1"
    and "0 \<le> f_pos f" "f_pos f \<le> int B" "int B < LONG_MAX"
    and "\<forall>t. length (fs_data (os_fs (w_os w) t) (f_ino f)) \<le> B"
    and "\<forall>t. NUL \<notin> set (fs_data (os_fs (w_os w) t) (f_ino f))"
    and "kafka_ready ok (w_kafka w)" and "pe_ok pe w"
    and "map_sum id fst (pe_readPos pe w) = Inr (f_pos f)"
  shows "sound (kafka_ready ok) (\<lambda>c. c \<noteq> NUL) B (h, w') \<and> wired receiveLines flt (Some ok) h \<and>
    committed h w' \<and> m_lines h = [] \<and> content h = [] \<and> m_buffer_len h = 0"
proof -
  have w': "w' = w_step (w_step w)"
    and h: "m_file h = Some f" "m_position_entry h = pe" "m_max_line_at_once h = nat batch"
      "m_line_max_bytes h = nat line_max" "m_buffer_max_bytes h = nat buf_max" "m_buffer_len h = 0"
      "length (m_buffer h) = nat buf_max + 1" "m_lines h = []" "m_receive_func h = Some receiveLines"
      "m_filter h = flt" "m_output h = Some ok"
    using assms(1-7) by (auto simp: IOHandler_init_def u32_id nat_add_distrib split: if_splits option.splits)
  have "pe_ok pe w'" "map_sum id fst (pe_readPos pe w') = map_sum id fst (pe_readPos pe w)"
    using assms(14) pe_ok_same [of w' w pe] pe_readPos_same [of w' w pe] by (simp_all add: w')
  moreover have "content h = []" by (simp add: content_def h)
  moreover have "healthy B h w'"
    using assms(2-11) by (simp add: healthy_def io_inv_def h w' nat_less_iff nat_le_eq_zle Suc_le_eq)
  moreover have "committed h w'" using calculation(2) assms(15) by (simp add: committed_def h getFilePos_def ftell_def)
  ultimately show ?thesis
    using assms(12,13) h by (auto simp: sound_def clean_def wired_def w')
qed

section \<open>Limits\<close>

text \<open>
  C18: Cutting the buffer is faithful to the specification whatever room the batch has: the
  lines added are the first lines of the buffer, the bytes kept are the bytes of the others,
  every line added is no longer than the limit (or one byte), and the kept bytes are a suffix
  of the buffer.
\<close>

theorem split_buffer_faithful:
  assumes "io_inv h" and "split_buffer h w = (broke, h', w')"
  shows "\<exists>new. m_lines h' = m_lines h @ new \<and>
    cut_lines (cutter_of h) (content h) = new @ cut_lines (cutter_of h) (content h') \<and>
    cut_rest (cutter_of h) (content h) = cut_rest (cutter_of h) (content h') \<and>
    suffix (content h') (content h) \<and> length (m_lines h') \<le> max (length (m_lines h)) (m_max_line_at_once h) \<and>
    (\<forall>l \<in> set new. length l \<le> max 1 (m_line_max_bytes h))"
proof -
  obtain new where new: "m_lines h' = m_lines h @ new" and cuts: "cuts h [] h' new"
    using split_buffer_spec [OF assms] by blast
  note cd = cutsD(1) [OF cuts, simplified]
  have "length l \<le> max 1 (m_line_max_bytes h)" if "l \<in> set new" for l
    using cut_length [of l "cutter_of h" "[]" "content h"] cd that by simp
  moreover have "length (m_lines h') \<le> max (length (m_lines h)) (m_max_line_at_once h)"
    using split_buffer_lines [OF assms] .
  ultimately show ?thesis using new cd cutsD(3) [OF cuts] by auto
qed

text \<open>A handler whose batch has no room for a line, with bytes in its buffer.\<close>

definition jammed :: "IOHandler \<times> world \<Rightarrow> bool" where
  "jammed st \<longleftrightarrow>
     (case st of (h, w) \<Rightarrow> io_inv h \<and> m_max_line_at_once h = 0 \<and> m_lines h = [] \<and> 0 < m_buffer_len h \<and>
        m_file h \<noteq> None)"

lemma split_buffer_no_room:
  assumes "0 < m_buffer_len h" and "m_max_line_at_once h = 0" and "split_buffer h w = (broke, h', w')"
  shows "broke"
proof -
  have "split_loop h 0 0 (m_lines h) = (0, 0, m_lines h, True)"
    using assms by (subst split_loop.simps) simp
  then show ?thesis using assms by (auto simp: split_buffer_def Let_def split: prod.splits if_splits)
qed

lemma jammed_step:
  assumes "jammed (h, w)"
  shows "\<exists>st. notify_step (h, w) = Inr (True, st) \<and> jammed st"
proof -
  obtain f where inv: "io_inv h" and h: "m_max_line_at_once h = 0" "m_lines h = []" "0 < m_buffer_len h"
    "m_file h = Some f" using assms by (auto simp: jammed_def)
  obtain got f' where got: "fread (w_os w) (w_tick w) (m_buffer_max_bytes h - m_buffer_len h) f = (got, f')"
    by fastforce
  obtain h1 where h1: "read_buffer h w = Inr (length got, h1, w_step w)" "io_inv h1" "conf_of h1 = conf_of h"
    "m_file h1 = Some f'" "content h1 = content h @ got" "m_lines h1 = []"
    using read_buffer_spec [OF inv h(4) got] h(2) by auto
  obtain broke h2 w2 where split: "split_buffer h1 (w_step w) = (broke, h2, w2)" by (metis prod_cases3)
  have room: "m_max_line_at_once h1 = 0" using conf_of_eqD(2) [OF h1(3)] h(1) by simp
  have len1: "0 < m_buffer_len h1"
    using arg_cong [OF h1(5), of length] length_content [OF inv] length_content [OF h1(2)] h(3) by simp
  note sp = split_buffer_spec [OF h1(2) split]
  then obtain new where new: "m_lines h2 = new" "cuts h1 [] h2 new" using h1(6) by auto
  have none: "m_lines h2 = []" using split_buffer_lines [OF h1(2) split] h1(6) room by simp
  then have "content h2 = content h1" using new cutsD(4) [OF new(2)] by simp
  then have len2: "0 < m_buffer_len h2"
    using sp len1 length_content [OF h1(2)] length_content [of h2] by simp
  have "read_step (False, h, w) = Inr (False, (True, h2, w2))"
    using h1(1,4) split sp split_buffer_no_room [OF len1 room split] none conf_of_eqD(2) [of h2 h1] room
    by (simp add: read_step_def Let_def)
  then have "notify_step (h, w) = Inr (True, h2, w2)"
    using none by (simp add: notify_step_def loop_done receive_step_def)
  moreover have "jammed (h2, w2)"
    using sp none len2 room h1(4) conf_of_eqD(2) [of h2 h1] by (simp add: jammed_def)
  ultimately show ?thesis by blast
qed

text \<open>
  C38: With a batch size of zero the notification never returns once the buffer holds a byte:
  the loop finds no room for a line, asks to read more, and goes round for ever.
\<close>

theorem zero_batch_hangs:
  assumes "jammed (h, w)" and "m_receive_func h \<noteq> None"
  shows "IOHandler_onNotify (Some h) w = Inl Hang"
proof -
  obtain h1 w1 where fl: "flush_stuck h w = (h1, w1)" by (cases "flush_stuck h w")
  obtain h2 w2 where t: "updateLastIOTime h w = (h2, w2)" by (cases "updateLastIOTime h w")
  have "flush_stuck h w = (h2, w2)"
    using assms(1) t updateLastIOTime_frame(1) [OF t] by (auto simp: flush_stuck_def jammed_def)
  then have "jammed (h1, w1)" "m_lines h1 = []"
    using assms(1) fl updateLastIOTime_frame(1) [OF t] by (auto simp: jammed_def io_inv_def)
  moreover have "loop notify_step (h1, w1) = None"
    by (rule loop_hangs [where I = jammed]) (use calculation jammed_step in auto)
  ultimately show ?thesis
    using assms fl by (auto simp: IOHandler_onNotify_def receive_step_def jammed_def)
qed

text \<open>
  C37: The stored position runs ahead of delivery. When the producer queue refuses every line of
  a batch, none of them is sent and all are kept in memory, yet the position entry already
  holds the offset behind them: a restart at this point resumes after lines that were not sent.
\<close>

theorem position_passes_unsent:
  assumes so: "sound (kafka_ready ok) (\<lambda>c. c \<noteq> NUL) B (h, w)"
    and wi: "wired receiveLines None (Some ok) h" and ne: "m_lines h \<noteq> []"
    and full: "\<forall>n i. rd_err (k_rd (w_kafka w)) n i = RD_KAFKA_RESP_ERR_QUEUE_FULL"
  shows "\<exists>h' w'. receive_step h w = Inr (m_lines h, h', w') \<and> m_lines h' = m_lines h \<and>
    sent_lines (w_kafka w') = sent_lines (w_kafka w) \<and> committed h' w'"
proof -
  obtain unsent h' w' s where rc: "receive_step h w = Inr (unsent, h', w')" "m_lines h' = unsent" "committed h' w'"
    using rl.receive_step_sound [OF so wi] ne by blast
  let ?err = "rd_err (k_rd (w_kafka w)) (k_tick (w_kafka w))"
  have "no_NUL (m_lines h)" using so by (auto simp: sound_def clean_def no_NUL_def)
  moreover have "kafka_ready ok (w_kafka w)" using so by (simp add: sound_def)
  moreover have "refused ?err (m_lines h) = m_lines h" "accepted ?err (m_lines h) = []"
    unfolding accepted_def refused_def using full
    by (simp_all add: with_err_all with_err_none RD_KAFKA_RESP_ERR_NO_ERROR_def RD_KAFKA_RESP_ERR_QUEUE_FULL_def)
  ultimately have recv: "receiveLines None (Some ok) (m_lines h) (w_kafka w)
      = Inr (True, m_lines h, (k_step (w_kafka w))\<lparr>k_log := k_log (w_kafka w)\<rparr>)"
    using ne by (simp add: receiveLines_spec line_filter_def Let_def)
  have "unsent = m_lines h \<and> sent_lines (w_kafka w') = sent_lines (w_kafka w)"
    using rc(1) recv ne wi
    by (auto simp: receive_step_def wired_def updateLastIOTime_def pe_updatePos_def sent_lines_def k_step_def Let_def
        split: option.splits if_splits PositionEntryPtr.splits elim!: bindR_InrE)
  then show ?thesis using rc by blast
qed

text \<open>
  A clock that is set back makes the buffer look stuck at once: the difference of seconds is
  multiplied as an unsigned number, so a negative one exceeds every limit.
\<close>

lemma clock_back_stuck:
  assumes "os_time (w_os w) (w_tick w) = Some now" and "os_trylock (w_os w) (w_tick w + 1)"
    and "now < m_last_buffer_stuck_time h" and "m_last_buffer_stuck_time h - now < 2 ^ 50"
    and "m_buffer_stuck_max_ms h = 10000"
  shows "fst (isBufferStuck h w)"
proof -
  let ?d = "(now - m_last_buffer_stuck_time h) * 1000"
  have "u64 ?d = ?d + 2 ^ 64"
    using assms(3,4) u64_id [of "?d + 2 ^ 64"] by (simp add: u64_def)
  then show ?thesis
    using assms by (simp add: isBufferStuck_def getLastBufferStuckTime_def elapsed_ms_def w_step_def)
qed

section \<open>A small run\<close>

definition sample_os :: "string \<Rightarrow> os" where
  "sample_os d =
     \<lparr>os_fs = (\<lambda>t. \<lparr>fs_dir = (\<lambda>p. Some 5), fs_data = (\<lambda>i. d)\<rparr>), os_time = (\<lambda>t. Some 100),
      os_cap = (\<lambda>t. None), os_trylock = (\<lambda>t. True), os_malloc = (\<lambda>t. True), os_uv = (\<lambda>t. True)\<rparr>"

definition sample_output :: OutputKafka where
  "sample_output = \<lparr>m_kafka_topic_conf = KafkaTopicConf_new\<lparr>topic := ''t''\<rparr>\<rparr>"

definition sample_rd :: "rd_kafka_resp_err \<Rightarrow> rdkafka" where
  "sample_rd e =
     \<lparr>rd_conf_set = (\<lambda>k v. True), rd_new = (\<lambda>n. True), rd_brokers_add = (\<lambda>b. 1),
      rd_topic_new = (\<lambda>n t. True), rd_err = (\<lambda>n i. e), rd_outq_len = (\<lambda>n. 0)\<rparr>"

definition sample_kafka :: "rd_kafka_resp_err \<Rightarrow> kafka" where
  "sample_kafka e =
     \<lparr>k_rd = sample_rd e, k_tick = 0, k_log = [],
      m_producer_map = [(''none'', Some \<lparr>m_brokers = [], m_rk = True\<rparr>)],
      m_kafka_conf = \<lparr>kc_message_max_bytes = 1000, kc_message_send_max_retries = 1, kc_queue_buffering_max_messages = 10\<rparr>\<rparr>"

definition sample_world :: "string \<Rightarrow> rd_kafka_resp_err \<Rightarrow> world" where
  "sample_world d e =
     \<lparr>w_os = sample_os d, w_tick = 0, w_mem = Map.empty,
      w_posfile = \<lparr>p_data = ''0000000000000000'' @ [TAB] @ ''00000005'' @ [NL], p_pos = 0\<rparr>,
      w_kafka = sample_kafka e\<rparr>"

definition sample_handler :: "nat \<Rightarrow> nat \<Rightarrow> string list \<Rightarrow> IOHandler" where
  "sample_handler batch len ls =
     \<lparr>m_file = Some \<lparr>f_ino = 5, f_pos = 0\<rparr>, m_position_entry = PE_file 0, m_max_line_at_once = batch,
      m_line_max_bytes = 8, m_buffer_max_bytes = 16, m_buffer_stuck_max_ms = 10000,
      m_buffer_last_segment = False, m_receive_func = Some receiveLines, m_filter = None,
      m_output = Some sample_output, m_buffer = replicate 17 NUL, m_buffer_len = len,
      m_line_delimiter = NL, m_remove_delimiter = True, m_lines = ls, m_last_io_time = 100,
      m_last_buffer_stuck_time = 0\<rparr>"

lemmas sample_defs = sample_os_def sample_output_def sample_rd_def sample_kafka_def sample_world_def sample_handler_def

lemma sample_kafka_perfect: "kafka_perfect sample_output (sample_kafka 0)"
  by (simp add: kafka_perfect_def kafka_ready_def sample_defs KafkaTopicConf_new_def producer_of_def
      smap_find_def RD_KAFKA_RESP_ERR_NO_ERROR_def)

lemma sample_kafka_ready: "kafka_ready sample_output (sample_kafka e)"
  by (simp add: kafka_ready_def sample_defs KafkaTopicConf_new_def producer_of_def smap_find_def)

lemma sample_sound:
  assumes "ready (sample_kafka e)" and "NUL \<notin> set d" and "length d \<le> 100" and "\<forall>l \<in> set ls. NUL \<notin> set l"
  shows "sound ready (\<lambda>c. c \<noteq> NUL) 100 (sample_handler 2 0 ls, sample_world d e)"
  using assms
  by (auto simp: sound_def healthy_def io_inv_def clean_def content_def pe_ok_def entry_at_def LN_OFFSET_def sample_defs)

lemma sample_committed: "committed (sample_handler batch 0 ls) (sample_world d e)"
proof -
  have "fst (FilePE_readPos 0 (w_posfile (sample_world d e))) = 0"
    unfolding sample_world_def by (simp, code_simp)
  then show ?thesis
    by (cases "FilePE_readPos 0 (w_posfile (sample_world d e))")
      (simp add: committed_def pe_readPos_def sample_handler_def getFilePos_def ftell_def)
qed

lemma sample_wired: "wired receiveLines None (Some sample_output) (sample_handler batch len ls)"
  by (simp add: wired_def sample_handler_def)

definition sample_text :: string where
  "sample_text = ''ab'' @ [NL] @ ''cd'' @ [NL] @ ''ef''"

lemma sample_text_ok: "NUL \<notin> set sample_text" "length sample_text \<le> 100"
  by (simp_all add: sample_text_def)

lemma sample_sound_ready:
  "sound (kafka_ready sample_output) (\<lambda>c. c \<noteq> NUL) 100 (sample_handler 2 0 [''x''], sample_world sample_text e)"
  by (rule sample_sound) (use sample_kafka_ready sample_text_ok in simp_all)

lemma sample_sound_perfect:
  "sound (kafka_perfect sample_output) (\<lambda>c. c \<noteq> NUL) 100 (sample_handler 2 0 [''x''], sample_world sample_text 0)"
  by (rule sample_sound) (use sample_kafka_perfect sample_text_ok in simp_all)

lemma sample_flush: "flush_stuck (sample_handler 2 0 ls) w = (sample_handler 2 0 ls, w)"
  by (simp add: flush_stuck_def sample_handler_def)

lemma sample_file: "m_file (sample_handler 2 0 ls) = Some \<lparr>f_ino = 5, f_pos = 0\<rparr>"
  by (simp add: sample_handler_def)

lemma sample_static:
  "\<forall>t. fs_data (os_fs (w_os (sample_world d e)) t) (f_ino \<lparr>f_ino = 5, f_pos = 0\<rparr>) = d"
  "\<forall>t. os_cap (w_os (sample_world d e)) t = None"
  by (simp_all add: sample_defs)




lemma init_establishes_witness:
  "\<exists>h w'. IOHandler_init (Some \<lparr>f_ino = 5, f_pos = 0\<rparr>) (PE_file 0) 2 8 16 NL True None (Some sample_output)
      (Some receiveLines) (sample_world sample_text 0) = (Some h, w') \<and> committed h w' \<and>
    sound (kafka_ready sample_output) (\<lambda>c. c \<noteq> NUL) 100 (h, w')"
proof -
  let ?w = "sample_world sample_text 0" and ?f = "\<lparr>f_ino = 5, f_pos = 0\<rparr>"
  obtain h w' where init: "IOHandler_init (Some ?f) (PE_file 0) 2 8 16 NL True None (Some sample_output)
      (Some receiveLines) ?w = (Some h, w')"
    by (simp add: IOHandler_init_def sample_defs)
  have "map_sum id fst (pe_readPos (PE_file 0) ?w) = Inr (f_pos ?f)"
    using sample_committed [of 2 "[]" sample_text 0] by (simp add: committed_def sample_handler_def getFilePos_def ftell_def)
  moreover have "pe_ok (PE_file 0) ?w" by (simp add: pe_ok_def entry_at_def LN_OFFSET_def sample_defs)
  moreover have "kafka_ready sample_output (w_kafka ?w)"
    using sample_kafka_ready by (simp add: sample_world_def)
  ultimately show ?thesis
    using init init_establishes [OF init, of 100] sample_text_ok by (simp add: sample_defs)
qed

theorem split_buffer_faithful_witness:
  "\<exists>broke h' w' new. split_buffer (sample_handler 2 3 []) (sample_world [] 0) = (broke, h', w') \<and> m_lines h' = new \<and>
    suffix (content h') (replicate 3 NUL)"
proof -
  let ?h = "sample_handler 2 3 []"
  obtain broke h' w' where run: "split_buffer ?h (sample_world [] 0) = (broke, h', w')" by (metis prod_cases3)
  have "io_inv ?h" "content ?h = replicate 3 NUL" "m_lines ?h = []"
    by (simp_all add: io_inv_def content_def sample_handler_def)
  then show ?thesis using split_buffer_faithful [OF _ run] run by auto
qed

theorem zero_batch_hangs_witness:
  "IOHandler_onNotify (Some (sample_handler 0 1 [])) (sample_world sample_text 0) = Inl Hang"
  by (rule zero_batch_hangs) (simp_all add: jammed_def io_inv_def sample_handler_def)

theorem position_passes_unsent_witness:
  "\<exists>h' w'. receive_step (sample_handler 2 0 [''x'']) (sample_world sample_text (- 184)) = Inr ([''x''], h', w') \<and>
    sent_lines (w_kafka w') = [] \<and> committed h' w'"
proof -
  have "\<forall>n i. rd_err (k_rd (w_kafka (sample_world sample_text (- 184)))) n i = RD_KAFKA_RESP_ERR_QUEUE_FULL"
    by (simp add: sample_defs RD_KAFKA_RESP_ERR_QUEUE_FULL_def)
  from position_passes_unsent [OF sample_sound_ready sample_wired _ this]
  obtain h' w' where "receive_step (sample_handler 2 0 [''x'']) (sample_world sample_text (- 184)) = Inr ([''x''], h', w')"
    "sent_lines (w_kafka w') = sent_lines (w_kafka (sample_world sample_text (- 184)))" "committed h' w'"
    by (auto simp: sample_handler_def)
  moreover have "sent_lines (w_kafka (sample_world sample_text (- 184))) = []"
    by (simp add: sample_defs sent_lines_def)
  ultimately show ?thesis by auto
qed

lemma clock_back_stuck_witness:
  "fst (isBufferStuck (sample_handler 2 0 []\<lparr>m_last_buffer_stuck_time := 101\<rparr>) (sample_world [] 0))"
  by (rule clock_back_stuck [of _ 100]) (simp_all add: sample_defs)

end
