(* ===== verification/Follow.thy ===== *)
theory Follow
  imports Tail Collect
begin

text \<open>
  Properties of the tail watcher and the rotate handler: where reading starts when a file is
  opened, when a rotation is noticed, when a watcher counts as inactive, and what happens to a
  watcher whose initialisation failed.
\<close>

section \<open>Where reading starts\<close>

definition stored_ino :: "PositionEntryPtr \<Rightarrow> world \<Rightarrow> int res" where
  "stored_ino pe w = map_sum id fst (pe_readInode pe w)"

definition stored_pos :: "PositionEntryPtr \<Rightarrow> world \<Rightarrow> int res" where
  "stored_pos pe w = map_sum id fst (pe_readPos pe w)"

text \<open>Reading an entry leaves what it holds, and everything else.\<close>

definition same_entry :: "PositionEntryPtr \<Rightarrow> world \<Rightarrow> world \<Rightarrow> bool" where
  "same_entry pe w w' \<longleftrightarrow>
     w_os w' = w_os w \<and> w_tick w' = w_tick w \<and> w_kafka w' = w_kafka w \<and> pe_ok pe w' = pe_ok pe w \<and>
     stored_pos pe w' = stored_pos pe w \<and> stored_ino pe w' = stored_ino pe w"

lemma stored_step [simp]:
  "stored_pos pe (w_step w) = stored_pos pe w" "stored_ino pe (w_step w) = stored_ino pe w"
  "pe_ok pe (w_step w) = pe_ok pe w"
  by (simp_all add: stored_pos_def stored_ino_def pe_readPos_def pe_readInode_def pe_ok_def w_step_def
      split: PositionEntryPtr.split option.split prod.split)

lemma readInode_entry:
  assumes "pe_ok pe w"
  shows "\<exists>i w'. pe_readInode pe w = Inr (i, w') \<and> stored_ino pe w = Inr i \<and> same_entry pe w w'"
proof (cases pe)
  case (PE_file seek)
  have e: "entry_at seek (w_posfile w)" using assms PE_file by (simp add: pe_ok_def)
  obtain i f where r: "FilePE_readInode seek (w_posfile w) = (i, f)" by fastforce
  then have "fst (FilePE_readPos seek f) = fst (FilePE_readPos seek (w_posfile w))"
    "fst (FilePE_readInode seek f) = fst (FilePE_readInode seek (w_posfile w))" "entry_at seek f"
    using fpe.readPos_readInode [OF e] fpe.ok_readInode [OF e] readInode_text [OF e]
    by (auto simp: readInode_text)
  with r e show ?thesis
    by (auto simp: PE_file pe_readInode_def pe_readPos_def stored_ino_def stored_pos_def same_entry_def pe_ok_def
        split: prod.splits)
qed (use assms in \<open>auto simp: pe_ok_def pe_readInode_def stored_ino_def same_entry_def\<close>)

lemma readPos_entry:
  assumes "pe_ok pe w"
  shows "\<exists>p w'. pe_readPos pe w = Inr (p, w') \<and> stored_pos pe w = Inr p \<and> same_entry pe w w'"
proof (cases pe)
  case (PE_file seek)
  have e: "entry_at seek (w_posfile w)" using assms PE_file by (simp add: pe_ok_def)
  obtain i f where r: "FilePE_readPos seek (w_posfile w) = (i, f)" by fastforce
  then have "fst (FilePE_readPos seek f) = fst (FilePE_readPos seek (w_posfile w))"
    "fst (FilePE_readInode seek f) = fst (FilePE_readInode seek (w_posfile w))" "entry_at seek f"
    using fpe.readInode_readPos [OF e] fpe.ok_readPos [OF e] readPos_text [OF e]
    by (auto simp: readPos_text)
  with r e show ?thesis
    by (auto simp: PE_file pe_readInode_def pe_readPos_def stored_ino_def stored_pos_def same_entry_def pe_ok_def
        split: prod.splits)
qed (use assms in \<open>auto simp: pe_ok_def pe_readPos_def stored_pos_def same_entry_def\<close>)

lemma update_entry:
  assumes "pe_ok pe w" and "storable_pos p"
  shows "\<exists>w'. pe_update pe i p w = Inr w' \<and> stored_pos pe w' = Inr p \<and> pe_ok pe w' \<and> w_os w' = w_os w \<and>
    w_tick w' = w_tick w \<and> w_kafka w' = w_kafka w"
proof (cases pe)
  case (PE_file seek)
  then have "entry_at seek (w_posfile w)" using assms(1) by (simp add: pe_ok_def)
  then have "fst (FilePE_readPos seek (FilePE_update seek i p (w_posfile w))) = p"
    "entry_at seek (FilePE_update seek i p (w_posfile w))"
    using fpe.readPos_update [OF _ assms(2)] fpe.ok_update by auto
  then show ?thesis
    by (auto simp: PE_file pe_update_def pe_readPos_def stored_pos_def pe_ok_def split: prod.split)
qed (use assms in \<open>auto simp: pe_ok_def pe_update_def pe_readPos_def stored_pos_def Mem_update_def Mem_readPos_def\<close>)

text \<open>The offset the first open starts at.\<close>

definition start_pos :: "TailWatcher \<Rightarrow> int \<Rightarrow> int \<Rightarrow> int \<Rightarrow> int \<Rightarrow> int" where
  "start_pos tw ino fsize last_ino stored =
     (if ino = last_ino then s32 stored else if last_ino \<noteq> 0 then 0
      else s32 (if tw_read_from_head tw then 0 else fsize))"

lemma open_first_run:
  assumes pe: "pe_ok (tw_position_entry tw) (t_world s)"
    and last: "stored_ino (tw_position_entry tw) (t_world s) = Inr last_ino"
    and pos: "stored_pos (tw_position_entry tw) (t_world s) = Inr stored"
    and size: "fsize = int (length (fs_data (os_fs (w_os (t_world s)) (w_tick (t_world s))) (f_ino file)))" "fsize < 2 ^ 31"
    and start: "start = start_pos tw (f_ino file) fsize last_ino stored"
  shows "\<exists>w'. open_first p tw file s = Inr (replace_io p tw (fseek_set file start) (set_world w' s)) \<and>
    w_os w' = w_os (t_world s) \<and> w_tick w' = Suc (w_tick (t_world s)) \<and> w_kafka w' = w_kafka (t_world s) \<and>
    pe_ok (tw_position_entry tw) w' \<and>
    stored_pos (tw_position_entry tw) w' = Inr (if f_ino file = last_ino then stored else start)"
proof -
  let ?pe = "tw_position_entry tw" and ?w = "t_world s" and ?ino = "f_ino file"
  have "pe_ok ?pe (w_step ?w)" using pe by simp
  from readInode_entry [OF this] obtain w1 where
    w1: "pe_readInode ?pe (w_step ?w) = Inr (last_ino, w1)" "same_entry ?pe (w_step ?w) w1"
    using last by auto
  then have ok1: "pe_ok ?pe w1" "stored_pos ?pe w1 = Inr stored" using pe pos by (simp_all add: same_entry_def)
  have st: "os_fstat (os_fs (w_os ?w) (w_tick ?w)) ?ino = (fsize, ?ino)" by (simp add: os_fstat_def size(1))
  have s0: "storable_pos 0" by (simp add: storable_pos_def)
  show ?thesis
  proof (cases "?ino = last_ino")
    case True
    obtain w2 where w2: "pe_readPos ?pe w1 = Inr (stored, w2)" "same_entry ?pe w1 w2"
      using readPos_entry [OF ok1(1)] ok1(2) by auto
    then show ?thesis using w1 st True start ok1
      by (auto simp: open_first_def start_pos_def same_entry_def w_step_def Let_def)
  next
    case False
    have sto: "storable_pos start" using False size by (auto simp: start start_pos_def storable_pos_def s32_id)
    obtain w2 where w2: "pe_update ?pe ?ino start w1 = Inr w2" "stored_pos ?pe w2 = Inr start" "pe_ok ?pe w2"
      "w_os w2 = w_os w1" "w_tick w2 = w_tick w1" "w_kafka w2 = w_kafka w1"
      using update_entry [OF ok1(1) sto] by blast
    then show ?thesis using w1 st False start
      by (auto simp: open_first_def start_pos_def same_entry_def w_step_def Let_def)
  qed
qed

text \<open>Limits of a watcher that the configuration guarantees.\<close>

definition tw_limits :: "TailWatcher \<Rightarrow> bool" where
  "tw_limits tw \<longleftrightarrow>
     1 \<le> tw_max_line_at_once tw \<and> tw_max_line_at_once tw < 2 ^ 32 \<and> 0 \<le> tw_line_max_bytes tw \<and>
     tw_line_max_bytes tw \<le> tw_read_max_bytes tw \<and> 1 \<le> tw_read_max_bytes tw \<and> tw_read_max_bytes tw < 2 ^ 32 - 1"

lemma new_io_init:
  assumes "tw_limits tw"
  shows "new_io tw file w = IOHandler_init (Some file) (tw_position_entry tw) (tw_max_line_at_once tw)
    (tw_line_max_bytes tw) (tw_read_max_bytes tw) (tw_line_delimiter tw) (tw_remove_delimiter tw)
    (tw_filter tw) (tw_output tw) (tw_receive_func tw) w"
  using assms by (simp add: new_io_def tw_limits_def u32_id)

lemma IOHandler_init_succeeds:
  assumes "os_malloc (w_os w) (w_tick w)" and "os_time (w_os w) (Suc (w_tick w)) = Some now"
  shows "\<exists>io. IOHandler_init file pe a b c d e flt out recv w = (Some io, w_step (w_step w)) \<and> m_file io = file"
  using assms by (simp add: IOHandler_init_def)

text \<open>How a handler of the watcher cuts lines.\<close>

definition cutter_of_tail :: "TailWatcher \<Rightarrow> cutter" where
  "cutter_of_tail tw =
     \<lparr>c_delim = tw_line_delimiter tw, c_remove = tw_remove_delimiter tw, c_max = nat (tw_line_max_bytes tw)\<rparr>"

lemma first_open_makes:
  assumes "pe_ok (tw_position_entry tw) (t_world s)"
    and "stored_ino (tw_position_entry tw) (t_world s) = Inr last_ino"
    and "stored_pos (tw_position_entry tw) (t_world s) = Inr stored"
    and "fsize = int (length (fs_data (os_fs (w_os (t_world s)) (w_tick (t_world s))) (f_ino file)))"
    and "f_pos file = 0" and "0 \<le> stored" and "stored \<le> int B" and "int B < 2 ^ 31"
    and "\<forall>t. length (fs_data (os_fs (w_os (t_world s)) t) (f_ino file)) \<le> B"
    and "\<forall>t. NUL \<notin> set (fs_data (os_fs (w_os (t_world s)) t) (f_ino file))"
    and "tw_limits tw" and "tw_receive_func tw = Some receiveLines" and "tw_output tw = Some ok"
    and "kafka_ready ok (w_kafka (t_world s))"
    and "\<forall>t. os_malloc (w_os (t_world s)) t" and "\<forall>t. os_time (w_os (t_world s)) t \<noteq> None"
  shows "\<exists>s' io. open_first p tw file s = Inr (True, s') \<and>
    t_heap s' p = Some (tw\<lparr>tw_io_handler := Some io\<rparr>) \<and>
    getFilePos io = (if f_ino file = last_ino then stored else if last_ino \<noteq> 0 then 0
      else if tw_read_from_head tw then 0 else fsize) \<and>
    sound (kafka_ready ok) (\<lambda>c. c \<noteq> NUL) B (io, t_world s') \<and>
    wired receiveLines (tw_filter tw) (Some ok) io \<and> committed io (t_world s') \<and>
    m_lines io = [] \<and> content io = [] \<and> m_buffer_len io = 0 \<and> m_file io = Some \<lparr>f_ino = f_ino file, f_pos = getFilePos io\<rparr> \<and>
    cutter_of io = cutter_of_tail tw \<and> w_os (t_world s') = w_os (t_world s) \<and> w_kafka (t_world s') = w_kafka (t_world s) \<and>
    m_position_entry io = tw_position_entry tw"
proof -
  let ?start = "start_pos tw (f_ino file) fsize last_ino stored" and ?pe = "tw_position_entry tw"
  have fs: "fsize \<le> int B" "0 \<le> fsize" using assms(4,9) by auto
  then have start: "?start = (if f_ino file = last_ino then stored else if last_ino \<noteq> 0 then 0
      else if tw_read_from_head tw then 0 else fsize)" "0 \<le> ?start" "?start \<le> int B"
    using assms(6-8) by (auto simp: start_pos_def s32_id)
  obtain w' where run: "open_first p tw file s = Inr (replace_io p tw (fseek_set file ?start) (set_world w' s))"
    and w': "w_os w' = w_os (t_world s)" "w_kafka w' = w_kafka (t_world s)" "pe_ok ?pe w'"
    and pos: "stored_pos ?pe w' = Inr (if f_ino file = last_ino then stored else ?start)"
    using open_first_run [OF assms(1-4) _ refl, of p] fs(1) assms(8) by auto
  let ?f = "fseek_set file ?start"
  have f: "f_ino ?f = f_ino file" "f_pos ?f = ?start" using start(2) by (simp_all add: fseek_set_def)
  obtain now where "os_time (w_os w') (Suc (w_tick w')) = Some now" using assms(16) w'(1) by fastforce
  then obtain io where io: "new_io tw ?f w' = (Some io, w_step (w_step w'))" "m_file io = Some ?f"
    using IOHandler_init_succeeds assms(15) w'(1) new_io_init [OF assms(11)] by metis
  have init: "IOHandler_init (Some ?f) ?pe (tw_max_line_at_once tw) (tw_line_max_bytes tw) (tw_read_max_bytes tw)
      (tw_line_delimiter tw) (tw_remove_delimiter tw) (tw_filter tw) (Some ok) (Some receiveLines) w'
      = (Some io, w_step (w_step w'))"
    using io(1) assms(12,13) new_io_init [OF assms(11)] by simp
  have "stored_pos ?pe w' = Inr (f_pos ?f)" using pos f start(1) by simp
  then have "sound (kafka_ready ok) (\<lambda>c. c \<noteq> NUL) B (io, w_step (w_step w')) \<and>
      wired receiveLines (tw_filter tw) (Some ok) io \<and> committed io (w_step (w_step w')) \<and> m_lines io = [] \<and>
      content io = [] \<and> m_buffer_len io = 0"
    using assms(8-11,14) w' f start(2,3)
    by (intro init_establishes [OF init]) (simp_all add: tw_limits_def stored_pos_def)
  moreover have "getFilePos io = ?start" using io(2) f(2) by (simp add: getFilePos_def ftell_def)
  moreover have "?f = \<lparr>f_ino = f_ino file, f_pos = ?start\<rparr>" using f by simp
  moreover have "cutter_of io = cutter_of_tail tw" "m_position_entry io = ?pe"
    using init assms(11) by (auto simp: IOHandler_init_def cutter_of_def cutter_of_tail_def tw_limits_def u32_id split: if_splits option.splits)
  ultimately show ?thesis
    using run io start(1) w'(1,2) by (auto simp: replace_io_def set_world_def store_def)
qed

text \<open>
  C19: Opening a file for the first time makes a handler that resumes right. It starts at the
  stored offset when the inode is the stored one, at the beginning when another inode is stored,
  and at the beginning or the end, as configured, when none is stored; and from there on
  the handler is in the state that notifications need and keep, with the position entry
  holding the offset it starts at.
\<close>

theorem first_open_resumes:
  assumes "pe_ok (tw_position_entry tw) (t_world s)"
    and "stored_ino (tw_position_entry tw) (t_world s) = Inr last_ino"
    and "stored_pos (tw_position_entry tw) (t_world s) = Inr stored"
    and "fsize = int (length (fs_data (os_fs (w_os (t_world s)) (w_tick (t_world s))) (f_ino file)))"
    and "f_pos file = 0" and "0 \<le> stored" and "stored \<le> int B" and "int B < 2 ^ 31"
    and "\<forall>t. length (fs_data (os_fs (w_os (t_world s)) t) (f_ino file)) \<le> B"
    and "\<forall>t. NUL \<notin> set (fs_data (os_fs (w_os (t_world s)) t) (f_ino file))"
    and "tw_limits tw" and "tw_receive_func tw = Some receiveLines" and "tw_output tw = Some ok"
    and "kafka_ready ok (w_kafka (t_world s))"
    and "\<forall>t. os_malloc (w_os (t_world s)) t" and "\<forall>t. os_time (w_os (t_world s)) t \<noteq> None"
  shows "\<exists>s' io. open_first p tw file s = Inr (True, s') \<and>
    t_heap s' p = Some (tw\<lparr>tw_io_handler := Some io\<rparr>) \<and>
    getFilePos io = (if f_ino file = last_ino then stored else if last_ino \<noteq> 0 then 0
      else if tw_read_from_head tw then 0 else fsize) \<and>
    sound (kafka_ready ok) (\<lambda>c. c \<noteq> NUL) B (io, t_world s') \<and>
    wired receiveLines (tw_filter tw) (Some ok) io \<and> committed io (t_world s')"
  using first_open_makes [OF assms, of p] by blast


section \<open>Noticing a rotation\<close>

text \<open>
  C25: The rotate handler calls its function exactly when the path names another inode than the
  recorded one or the file is smaller than recorded, and can be opened. Otherwise it only
  records a growing size and the rest of the state keeps its value. A rotation that failed is
  tried again: it leaves the record as it was; one that succeeded records what was seen.
\<close>

theorem rotate_decision:
  assumes w: "w = t_world s" and st: "(fsize, inode) = (case os_stat (os_fs (w_os w) (w_tick w)) (rh_path rh) of
      Some x \<Rightarrow> x | None \<Rightarrow> (0, 0))"
  shows "(rh_inode rh = inode \<and> rh_fsize rh \<le> fsize \<longrightarrow>
      RotateHandler_onNotify cb rh s = Inr (rh\<lparr>rh_fsize := fsize\<rparr>, set_world (w_step w) s)) \<and>
    (rh_inode rh \<noteq> inode \<or> fsize < rh_fsize rh \<longrightarrow>
      (case fopen_r (os_fs (w_os w) (w_tick w + 1)) (rh_path rh) of
         None \<Rightarrow> RotateHandler_onNotify cb rh s = Inr (rh, set_world (w_step (w_step w)) s)
       | Some file \<Rightarrow>
           (case cb file (set_world (w_step (w_step w)) s) of
              Inl e \<Rightarrow> RotateHandler_onNotify cb rh s = Inl e
            | Inr (False, s') \<Rightarrow> RotateHandler_onNotify cb rh s = Inr (rh, s')
            | Inr (True, s') \<Rightarrow> \<exists>rh' s''. RotateHandler_onNotify cb rh s = Inr (rh', s'') \<and>
                rh_inode rh' = inode \<and> rh_fsize rh' = fsize \<and> rh_path rh' = rh_path rh)))"
proof -
  have st': "(case os_stat (os_fs (w_os w) (w_tick w)) (rh_path rh) of
      Some (fsize, inode) \<Rightarrow> (fsize, inode) | None \<Rightarrow> (0, 0)) = (fsize, inode)"
    using st by (auto split: option.splits)
  show ?thesis
    unfolding RotateHandler_onNotify_def w [symmetric] st' Let_def prod.case
    by (auto simp: updateLastRotateTime_def bindR_def split: option.splits sum.splits bool.splits)
qed

section \<open>Activity\<close>

text \<open>
  C32: \<open>isActive\<close> for a watcher with a handler tells whether the time since the last input or
  output is within the configured silence, when the clock did not go back; after a clock that
  went back the watcher counts as inactive.
\<close>

theorem isActive_iff:
  assumes "t_heap s p = Some tw" and "tw_io_handler tw = Some io"
    and "os_time (w_os (t_world s)) (w_tick (t_world s)) = Some now"
    and "os_trylock (w_os (t_world s)) (w_tick (t_world s) + 1)"
    and "\<bar>now - m_last_io_time io\<bar> < 2 ^ 50" and "0 \<le> tw_stat_silent_max_ms tw" and "tw_stat_silent_max_ms tw < 2 ^ 62"
  shows "\<exists>s'. isActive p s = Inr (m_last_io_time io \<le> now \<and> (now - m_last_io_time io) * 1000 \<le> tw_stat_silent_max_ms tw, s')"
proof -
  let ?d = "(now - m_last_io_time io) * 1000"
  have "elapsed_ms now (m_last_io_time io) = (if m_last_io_time io \<le> now then ?d else ?d + 2 ^ 64)"
  proof (cases "m_last_io_time io \<le> now")
    case True
    then show ?thesis using assms(5) by (simp add: elapsed_ms_def u64_id)
  next
    case False
    then have "u64 (?d + 2 ^ 64) = ?d + 2 ^ 64" using assms(5) by (intro u64_id) auto
    then show ?thesis using False by (simp add: elapsed_ms_def u64_def)
  qed
  moreover have "- (2 ^ 50) * 1000 < ?d" using assms(5) by auto
  ultimately have "(\<not> elapsed_ms now (m_last_io_time io) > tw_stat_silent_max_ms tw) =
      (m_last_io_time io \<le> now \<and> ?d \<le> tw_stat_silent_max_ms tw)"
    using assms(7) by auto
  then show ?thesis
    using assms(1-4) by (simp add: isActive_def deref_def getLastIOTime_def Let_def w_step_def)
qed

text \<open>
  A watcher whose initialisation failed cannot be destroyed: the destructor closes both
  triggers, and at least one of them is a null pointer.
\<close>

lemma failed_init_destroy:
  assumes "TailWatcher_init re pp path pe ms fh ml lm rmx d rm recv cf out w = (False, tw, w')"
    and "t_heap s p = Some tw"
  shows "TailWatcher_destroy p s = Inl Null_deref"
proof -
  have "tw_timer_trigger tw = None \<or> tw_stat_trigger tw = None"
    using assms(1) by (auto simp: TailWatcher_init_def Let_def split: prod.splits bool.splits)
  then show ?thesis using assms(2) by (auto simp: TailWatcher_destroy_def deref_def)
qed

section \<open>Small instances\<close>

definition sample_rh :: RotateHandler where
  "sample_rh = \<lparr>rh_path = ''/a'', rh_inode = 5, rh_fsize = 3, rh_last_rotate_time = 0\<rparr>"

definition sample_tw :: TailWatcher where
  "sample_tw =
     \<lparr>tw_unwatched = False, tw_path_pattern = ''/a'', tw_path = ''/a'', tw_conf = TaskConf_new True,
      tw_timer_trigger = Some \<lparr>tmw_timeout = 0, tmw_repeat = 3000, tmw_handle = Some True\<rparr>,
      tw_stat_trigger = Some \<lparr>stw_path = ''/a'', stw_interval = 1000, stw_handle = Some True\<rparr>,
      tw_rotate_handler = Some sample_rh, tw_io_handler = None, tw_position_entry = PE_file 0,
      tw_receive_func = Some receiveLines, tw_output = Some sample_output, tw_read_from_head = True,
      tw_max_line_at_once = 2, tw_line_max_bytes = 8, tw_read_max_bytes = 16, tw_line_delimiter = NL,
      tw_remove_delimiter = True, tw_stat_silent_max_ms = 10000, tw_filter = None\<rparr>"

definition sample_tstate :: "int \<Rightarrow> TailWatcher \<Rightarrow> tstate" where
  "sample_tstate pos tw =
     \<lparr>t_world = (sample_world sample_text 0)\<lparr>w_posfile := \<lparr>p_data = pos_field pos @ [TAB] @ ino_field 5 @ [NL], p_pos = 0\<rparr>\<rparr>,
      t_heap = [0 \<mapsto> tw]\<rparr>"

abbreviation sample_stream :: stream where "sample_stream \<equiv> \<lparr>f_ino = 5, f_pos = 0\<rparr>"

lemma stored_file:
  "stored_pos (PE_file seek) w = Inr (fst (FilePE_readPos seek (w_posfile w)))"
  "stored_ino (PE_file seek) w = Inr (fst (FilePE_readInode seek (w_posfile w)))"
  by (simp_all add: stored_pos_def stored_ino_def pe_readPos_def pe_readInode_def split: prod.split)

lemma sample_entry:
  "pe_ok (PE_file 0) (t_world (sample_tstate pos tw))"
  "stored_ino (PE_file 0) (t_world (sample_tstate pos tw)) = Inr 5"
  "storable_pos pos \<Longrightarrow> stored_pos (PE_file 0) (t_world (sample_tstate pos tw)) = Inr pos"
proof -
  let ?f = "w_posfile (t_world (sample_tstate pos tw))"
  have e: "entry_at 0 ?f" "pos_text 0 ?f = pos_field pos" "ino_text 0 ?f = ino_field 5"
    by (simp_all add: sample_tstate_def entry_at_def LN_OFFSET_def pos_text_def ino_text_def)
  show "pe_ok (PE_file 0) (t_world (sample_tstate pos tw))" using e(1) by (simp add: pe_ok_def)
  show "stored_ino (PE_file 0) (t_world (sample_tstate pos tw)) = Inr 5"
    using e by (simp add: stored_file readInode_text read_ino_field u32_def)
  show "stored_pos (PE_file 0) (t_world (sample_tstate pos tw)) = Inr pos" if "storable_pos pos"
    using e that by (simp add: stored_file readPos_text read_pos_field_storable)
qed

lemma sample_storable: "storable_pos 3" "storable_pos 2147483648"
  by (simp_all add: storable_pos_def)

lemma sample_tstate_world:
  "w_os (t_world (sample_tstate pos tw)) = sample_os sample_text"
  "w_kafka (t_world (sample_tstate pos tw)) = sample_kafka 0" "w_tick (t_world (sample_tstate pos tw)) = 0"
  "t_heap (sample_tstate pos tw) = [0 \<mapsto> tw]"
  by (simp_all add: sample_tstate_def sample_world_def)

lemma sample_tw_simps [simp]:
  "tw_position_entry sample_tw = PE_file 0" "tw_limits sample_tw" "tw_receive_func sample_tw = Some receiveLines"
  "tw_output sample_tw = Some sample_output" "tw_filter sample_tw = None"
  by (simp_all add: sample_tw_def tw_limits_def)

lemma sample_os_simps [simp]:
  "fs_data (os_fs (sample_os d) t) i = d" "os_malloc (sample_os d) t" "os_time (sample_os d) t = Some 100"
  "os_trylock (sample_os d) t" "fs_dir (os_fs (sample_os d) t) q = Some 5"
  by (simp_all add: sample_os_def)

theorem first_open_resumes_witness:
  "\<exists>s' io. open_first 0 sample_tw sample_stream (sample_tstate 3 sample_tw) = Inr (True, s') \<and>
    t_heap s' 0 = Some (sample_tw\<lparr>tw_io_handler := Some io\<rparr>) \<and> getFilePos io = 3 \<and> committed io (t_world s')"
  using first_open_resumes [of sample_tw "sample_tstate 3 sample_tw" 5 3 _ sample_stream 100
      sample_output 0, OF _ _ _ refl] sample_entry sample_storable sample_text_ok sample_kafka_ready [of 0]
  by (simp add: sample_tstate_world) blast


theorem rotate_decision_witness:
  "RotateHandler_onNotify (\<lambda>f s. Inr (True, s)) sample_rh (sample_tstate 3 sample_tw)
    = Inr (sample_rh\<lparr>rh_fsize := 8\<rparr>, set_world (w_step (t_world (sample_tstate 3 sample_tw)))
        (sample_tstate 3 sample_tw))"
  using rotate_decision [OF refl, of 8 5 "sample_tstate 3 sample_tw" sample_rh "\<lambda>f s. Inr (True, s)"]
  by (simp add: sample_rh_def os_stat_def sample_tstate_world sample_text_def)

theorem isActive_iff_witness:
  "\<exists>s'. isActive 0 (sample_tstate 0 (sample_tw\<lparr>tw_io_handler := Some (sample_handler 2 0 [])\<rparr>)) = Inr (True, s')"
  using isActive_iff [of "sample_tstate 0 (sample_tw\<lparr>tw_io_handler := Some (sample_handler 2 0 [])\<rparr>)" 0
      "sample_tw\<lparr>tw_io_handler := Some (sample_handler 2 0 [])\<rparr>" "sample_handler 2 0 []" 100]
  by (simp add: sample_tstate_world sample_handler_def sample_tw_def)

lemma failed_init_destroy_witness:
  "\<exists>tw w'. TailWatcher_init (\<lambda>_. None) ''/a'' ''/a'' (PE_file 0) 10000 True 2 8 16 NL True None (TaskConf_new True) None
      ((sample_world [] 0)\<lparr>w_os := (sample_os [])\<lparr>os_uv := (\<lambda>_. False)\<rparr>\<rparr>) = (False, tw, w') \<and>
    TailWatcher_destroy 0 (sample_tstate 0 tw) = Inl Null_deref"
proof -
  let ?w = "(sample_world [] 0)\<lparr>w_os := (sample_os [])\<lparr>os_uv := (\<lambda>_. False)\<rparr>\<rparr>"
  obtain tw w' where init: "TailWatcher_init (\<lambda>_. None) ''/a'' ''/a'' (PE_file 0) 10000 True 2 8 16 NL True None
      (TaskConf_new True) None ?w = (False, tw, w')"
    by (simp add: TailWatcher_init_def TimerWatcher_init_def Let_def)
  show ?thesis using failed_init_destroy [OF init, of "sample_tstate 0 tw" 0] init by (auto simp: sample_tstate_world)
qed

end
