(* ===== verification/Tasks.thy ===== *)
theory Tasks
  imports Paths Follow
begin

text \<open>
  Properties of the tasks of the manager: which configurations it accepts, and that a refresh
  brings the tasks in line with them.
\<close>

section \<open>Refreshing the tasks\<close>

definition tasks_ok :: "(string, Task option) smap \<Rightarrow> bool" where
  "tasks_ok ts \<longleftrightarrow> smap_ok ts \<and> (\<forall>k x. smap_find ts k = Some x \<longrightarrow> (\<exists>t. x = Some t \<and> queue_ok t))"

text \<open>What a refresh of the tasks relies on.\<close>

definition tasks_wf :: "manager \<Rightarrow> bool" where
  "tasks_wf m \<longleftrightarrow>
     smap_ok (m_task_confs m) \<and> tasks_ok (m_tasks m) \<and> tails_live m \<and> m_position_file m \<noteq> None \<and>
     distinct (m_tails_deleted m) \<and> (\<forall>p \<in> set (m_tails_deleted m). tail_live p m) \<and>
     (\<forall>k p. smap_find (m_tails m) k = Some (Some p) \<longrightarrow> p \<notin> set (m_tails_deleted m))"

text \<open>A task made of a configuration: with a legal queue that has a path.\<close>

definition made_of :: "TaskConf \<Rightarrow> Task \<Rightarrow> bool" where
  "made_of c t \<longleftrightarrow> conf t = c \<and> queue_ok t \<and> hasPath t"

lemma getTask_put [simp]: "getTask (put_task k t m) k = Some t"
  by (simp add: getTask_def sm.find_put)

lemma tails_live_put [simp]: "tails_live (put_task k t m) = tails_live m"
  by (simp add: tails_live_def tail_live_def)

lemma retask_runs:
  assumes "tails_live m" and "m_position_file m \<noteq> None" and "conv_ok k" and "queue_ok t"
  shows "\<exists>t' n. updateTaskPaths k (put_task k (t\<lparr>conf := c\<rparr>) m) = Inr (put_task k t' (at_tick n m)) \<and> made_of c t'"
proof -
  obtain t' n where "updateTaskPaths k (put_task k (t\<lparr>conf := c\<rparr>) m) = Inr (put_task k t' (at_tick n m))"
    "requeued (t\<lparr>conf := c\<rparr>) t'" "hasPath t'"
    using updateTaskPaths_runs [of "put_task k (t\<lparr>conf := c\<rparr>) m" k "t\<lparr>conf := c\<rparr>"] assms by auto
  moreover have "queue_ok (t\<lparr>conf := c\<rparr>)" using assms(4) by (simp add: queue_ok_def)
  ultimately show ?thesis by (auto simp: made_of_def requeued_def)
qed

lemma add_task_runs:
  assumes "tails_live m" and "m_position_file m \<noteq> None" and "conv_ok k" and "smap_find (m_task_confs m) k = Some c"
  shows "\<exists>t n. add_task k m = Inr (put_task k t (at_tick n m)) \<and> made_of c t"
proof -
  have "queue_ok (Task_new junk n)" for junk n
    by (simp add: queue_ok_def Task_new_def TaskStat_new_def)
  then show ?thesis
    using retask_runs [OF assms(1-3)] assms(4) by (simp add: add_task_def task_conf_at_def)
qed

lemma update_task_runs:
  assumes "tails_live m" and "m_position_file m \<noteq> None" and "conv_ok k" and "smap_find (m_task_confs m) k = Some c"
    and "smap_find (m_tasks m) k = Some (Some t)" and "queue_ok t"
  shows "\<exists>t n. update_task k m = Inr (put_task k t (at_tick n m)) \<and> made_of c t"
  using retask_runs [OF assms(1-3,6), of c] assms(4,5)
  by (simp add: update_task_def task_conf_at_def task_at_def getTask_def)

text \<open>A loop that remakes the task of every key of a list.\<close>

definition retasked :: "manager \<Rightarrow> string list \<Rightarrow> manager \<Rightarrow> bool" where
  "retasked m ks m' \<longleftrightarrow>
     m' = (at_tick (tick m') m)\<lparr>m_tasks := m_tasks m'\<rparr> \<and> (tasks_ok (m_tasks m) \<longrightarrow> tasks_ok (m_tasks m')) \<and>
     (\<forall>k \<in> set ks. \<exists>t. smap_find (m_tasks m') k = Some (Some t) \<and>
        made_of (the (smap_find (m_task_confs m) k)) t) \<and>
     (\<forall>k. k \<notin> set ks \<longrightarrow> smap_find (m_tasks m') k = smap_find (m_tasks m) k)"

lemma retasked_frame:
  assumes "retasked m ks m'"
  shows "m_task_confs m' = m_task_confs m" "m_tails m' = m_tails m" "m_tails_deleted m' = m_tails_deleted m"
    "m_position_file m' = m_position_file m" "t_heap m' = t_heap m" "tails_live m' = tails_live m"
proof -
  have m': "m' = (at_tick (tick m') m)\<lparr>m_tasks := m_tasks m'\<rparr>" using assms by (simp add: retasked_def)
  show "m_task_confs m' = m_task_confs m" "m_tails m' = m_tails m" "m_tails_deleted m' = m_tails_deleted m"
    "m_position_file m' = m_position_file m" "t_heap m' = t_heap m"
    by (subst m', simp)+
  then show "tails_live m' = tails_live m" by (simp add: tails_live_def tail_live_def)
qed

lemma tasks_ok_put: "tasks_ok ts \<Longrightarrow> queue_ok t \<Longrightarrow> tasks_ok (smap_put k (Some t) ts)"
  by (auto simp: tasks_ok_def sm.find_put sm.ok_put)

lemma retasked_put:
  assumes "made_of (the (smap_find (m_task_confs m) k)) t"
  shows "retasked m [k] (put_task k t (at_tick n m))"
  using assms by (auto simp: retasked_def put_task_def sm.find_put made_of_def at_tick_def tick_def intro: tasks_ok_put)

lemma retasked_refl: "retasked m [] m"
  by (simp add: retasked_def at_tick_now)

lemma retasked_trans:
  assumes "retasked m ks m1" and "retasked m1 js m2"
  shows "retasked m (ks @ js) m2"
proof -
  have "m1 = (at_tick (tick m1) m)\<lparr>m_tasks := m_tasks m1\<rparr>" "m2 = (at_tick (tick m2) m1)\<lparr>m_tasks := m_tasks m2\<rparr>"
    using assms by (simp_all add: retasked_def)
  then have "m2 = (at_tick (tick m2) ((at_tick (tick m1) m)\<lparr>m_tasks := m_tasks m1\<rparr>))\<lparr>m_tasks := m_tasks m2\<rparr>"
    by metis
  then have "m2 = (at_tick (tick m2) m)\<lparr>m_tasks := m_tasks m2\<rparr>" by (simp add: at_tick_def)
  moreover have "\<exists>t. smap_find (m_tasks m2) k = Some (Some t) \<and> made_of (the (smap_find (m_task_confs m) k)) t"
    if "k \<in> set (ks @ js)" for k
    using that assms retasked_frame(1) [OF assms(1)] by (cases "k \<in> set js") (auto simp: retasked_def)
  ultimately show ?thesis using assms by (auto simp: retasked_def)
qed

lemma each_retasked:
  assumes "P m" and "\<And>k m. k \<in> set ks \<Longrightarrow> P m \<Longrightarrow> \<exists>m'. f k m = Inr m' \<and> retasked m [k] m' \<and> P m'"
  shows "\<exists>m'. each f ks m = Inr m' \<and> retasked m ks m' \<and> P m'"
  using assms
proof (induction ks arbitrary: m)
  case (Cons k ks)
  obtain m1 where m1: "f k m = Inr m1" "retasked m [k] m1" "P m1" using Cons.prems by force
  obtain m2 where "each f ks m1 = Inr m2" "retasked m1 ks m2" "P m2"
    using Cons.IH [OF m1(3)] Cons.prems(2) by auto
  then show ?case using m1 retasked_trans [OF m1(2), of ks m2] by auto
qed (simp add: retasked_refl)

text \<open>What the loops over the tasks keep.\<close>

definition tasks_ready :: "(string, TaskConf) smap \<Rightarrow> manager \<Rightarrow> bool" where
  "tasks_ready confs m \<longleftrightarrow>
     m_task_confs m = confs \<and> tails_live m \<and> m_position_file m \<noteq> None \<and> tasks_ok (m_tasks m)"

lemma tasks_ready_kept: "tasks_ready confs m \<Longrightarrow> retasked m ks m' \<Longrightarrow> tasks_ready confs m'"
  by (simp add: tasks_ready_def retasked_frame) (simp add: retasked_def)

lemma addTasks_runs:
  assumes "tasks_ready confs m" and "\<forall>k \<in> set ks. smap_find confs k \<noteq> None \<and> conv_ok k"
  shows "\<exists>m'. addTasks ks m = Inr m' \<and> retasked m ks m' \<and> tasks_ready confs m'"
  unfolding addTasks_def using assms(1)
proof (rule each_retasked)
  fix k m assume "k \<in> set ks" and ready: "tasks_ready confs m"
  with assms(2) obtain c where c: "smap_find confs k = Some c" "conv_ok k" by blast
  with ready obtain t n where "add_task k m = Inr (put_task k t (at_tick n m))" "made_of c t"
    using add_task_runs [of m k c] by (auto simp: tasks_ready_def)
  moreover from this have "retasked m [k] (put_task k t (at_tick n m))"
    using c ready by (intro retasked_put) (simp add: tasks_ready_def)
  ultimately show "\<exists>m'. add_task k m = Inr m' \<and> retasked m [k] m' \<and> tasks_ready confs m'"
    using tasks_ready_kept [OF ready] by blast
qed

lemma updateTasks_runs:
  assumes "tasks_ready confs m" and "\<forall>k \<in> set ks. smap_find confs k \<noteq> None \<and> conv_ok k"
    and "\<forall>k \<in> set ks. smap_find (m_tasks m) k \<noteq> None"
  shows "\<exists>m'. updateTasks ks m = Inr m' \<and> retasked m ks m' \<and> tasks_ready confs m'"
proof -
  let ?P = "\<lambda>m. tasks_ready confs m \<and> (\<forall>k \<in> set ks. smap_find (m_tasks m) k \<noteq> None)"
  have "?P m" using assms by blast
  then have "\<exists>m'. each update_task ks m = Inr m' \<and> retasked m ks m' \<and> ?P m'"
  proof (rule each_retasked)
    fix k m assume "k \<in> set ks" and P: "?P m"
    with assms(2) obtain c where c: "smap_find confs k = Some c" "conv_ok k" by blast
    from P \<open>k \<in> set ks\<close> obtain t0 where t0: "smap_find (m_tasks m) k = Some (Some t0)" "queue_ok t0"
      unfolding tasks_ready_def tasks_ok_def by blast
    with P c obtain t n where t: "update_task k m = Inr (put_task k t (at_tick n m))" "made_of c t"
      using update_task_runs [of m k c t0] by (auto simp: tasks_ready_def)
    moreover from this have r: "retasked m [k] (put_task k t (at_tick n m))"
      using c P by (intro retasked_put) (simp add: tasks_ready_def)
    ultimately show "\<exists>m'. update_task k m = Inr m' \<and> retasked m [k] m' \<and> ?P m'"
      using P tasks_ready_kept [OF _ r, of confs] by (auto simp: sm.find_put)
  qed
  then show ?thesis unfolding updateTasks_def by blast
qed

lemma destroy_all:
  assumes "distinct ps" and "\<forall>p \<in> set ps. tail_live p m"
  shows "each TailWatcher_destroy ps m = Inr (m\<lparr>t_heap := (\<lambda>p. if p \<in> set ps then None else t_heap m p)\<rparr>)"
  using assms
proof (induction ps arbitrary: m)
  case (Cons p ps)
  let ?m = "m\<lparr>t_heap := (t_heap m)(p := None)\<rparr>"
  have "TailWatcher_destroy p m = Inr ?m"
    using Cons.prems(2) by (auto simp: TailWatcher_destroy_def deref_def tail_live_def)
  moreover have "\<forall>q \<in> set ps. tail_live q ?m"
    using Cons.prems by (auto simp: tail_live_def)
  moreover have "(\<lambda>q. if q \<in> set ps then None else t_heap ?m q) = (\<lambda>q. if q \<in> set (p # ps) then None else t_heap m q)"
    by auto
  ultimately show ?case using Cons.IH [of ?m] Cons.prems(1) by simp
qed simp

lemma deleteTasks_ready:
  assumes "tasks_ready confs m"
  shows "tasks_ready confs (deleteTasks ks m)"
    and "smap_find (m_tasks (deleteTasks ks m)) k = (if k \<in> set ks then None else smap_find (m_tasks m) k)"
proof -
  show "smap_find (m_tasks (deleteTasks ks m)) k = (if k \<in> set ks then None else smap_find (m_tasks m) k)" for k
    by (simp add: deleteTasks_def sm.find_erase_all)
  then have "tasks_ok (m_tasks (deleteTasks ks m))"
    using assms by (auto simp: tasks_ready_def tasks_ok_def deleteTasks_def intro: sm.ok_erase_all)
  then show "tasks_ready confs (deleteTasks ks m)"
    using assms by (simp add: tasks_ready_def deleteTasks_def tails_live_def tail_live_def)
qed

lemma keys_sset: "sset_ok (sset_collect xs)" "k \<in> set (sset_collect (smap_keys f)) \<longleftrightarrow> smap_find f k \<noteq> None"
  by (simp_all add: sm.set_keys)

text \<open>The three key sets of a refresh.\<close>

lemma task_diffs:
  "k \<in> set (diff_set (getTaskConfsKeys m) (getTasksKeys m)) \<longleftrightarrow>
     smap_find (m_task_confs m) k \<noteq> None \<and> smap_find (m_tasks m) k = None"
  "k \<in> set (diff_set (getTasksKeys m) (getTaskConfsKeys m)) \<longleftrightarrow>
     smap_find (m_tasks m) k \<noteq> None \<and> smap_find (m_task_confs m) k = None"
  "k \<in> set (intersect_set (getTasksKeys m) (getTaskConfsKeys m)) \<longleftrightarrow>
     smap_find (m_tasks m) k \<noteq> None \<and> smap_find (m_task_confs m) k \<noteq> None"
  unfolding getTaskConfsKeys_def getTasksKeys_def
  by (simp_all add: diff_set_props intersect_set_props keys_sset sm.set_keys)

lemma refreshTasks_loops:
  assumes "tasks_ready confs m" and "\<forall>k. smap_find confs k \<noteq> None \<longrightarrow> conv_ok k"
  shows "\<exists>m1 m2. addTasks (diff_set (getTaskConfsKeys m) (getTasksKeys m))
      (deleteTasks (diff_set (getTasksKeys m) (getTaskConfsKeys m)) m) = Inr m1 \<and>
    updateTasks (intersect_set (getTasksKeys m) (getTaskConfsKeys m)) m1 = Inr m2 \<and>
    tasks_ready confs m2 \<and> m2 = (at_tick (tick m2) m)\<lparr>m_tasks := m_tasks m2\<rparr> \<and>
    (\<forall>k. smap_find confs k = None \<longrightarrow> smap_find (m_tasks m2) k = None) \<and>
    (\<forall>k c. smap_find confs k = Some c \<longrightarrow> (\<exists>t. smap_find (m_tasks m2) k = Some (Some t) \<and> made_of c t))"
proof -
  let ?add = "diff_set (getTaskConfsKeys m) (getTasksKeys m)"
  let ?keep = "intersect_set (getTasksKeys m) (getTaskConfsKeys m)"
  let ?m0 = "deleteTasks (diff_set (getTasksKeys m) (getTaskConfsKeys m)) m"
  have confs: "m_task_confs m = confs" using assms(1) by (simp add: tasks_ready_def)
  note diffs = task_diffs [where m = m, unfolded confs]
  note del = deleteTasks_ready [OF assms(1)]
  have find0: "smap_find (m_tasks ?m0) k = (if smap_find confs k = None then None else smap_find (m_tasks m) k)" for k
    using del(2) [of _ k] diffs(2) [of k] by auto
  obtain m1 where m1: "addTasks ?add ?m0 = Inr m1" "retasked ?m0 ?add m1" "tasks_ready confs m1"
    using addTasks_runs [OF del(1), of ?add] diffs(1) assms(2) by blast
  have keep: "smap_find (m_tasks m1) k \<noteq> None" if "k \<in> set ?keep" for k
    using that m1(2) diffs(1,3) find0 [of k] unfolding retasked_def by metis
  obtain m2 where m2: "updateTasks ?keep m1 = Inr m2" "retasked m1 ?keep m2" "tasks_ready confs m2"
    using updateTasks_runs [OF m1(3), of ?keep] diffs(3) assms(2) keep by blast
  have both: "retasked ?m0 (?add @ ?keep) m2" using retasked_trans [OF m1(2) m2(2)] .
  then have frame: "m2 = (at_tick (tick m2) m)\<lparr>m_tasks := m_tasks m2\<rparr>"
    by (simp add: retasked_def deleteTasks_def at_tick_def)
  have keys: "k \<in> set (?add @ ?keep) \<longleftrightarrow> smap_find confs k \<noteq> None" for k
    using diffs(1,3) by auto
  have "m_task_confs ?m0 = confs" by (simp add: deleteTasks_def confs)
  then have "smap_find (m_tasks m2) k = None" if "smap_find confs k = None" for k
    using both that keys [of k] find0 [of k] unfolding retasked_def by metis
  moreover have "\<exists>t. smap_find (m_tasks m2) k = Some (Some t) \<and> made_of c t" if "smap_find confs k = Some c" for k c
    using both that keys [of k] \<open>m_task_confs ?m0 = confs\<close> unfolding retasked_def by (metis option.sel option.distinct(1))
  ultimately show ?thesis using m1(1) m2(1,3) frame by blast
qed

lemma refreshTasks_runs:
  assumes "tasks_wf m" and "\<forall>k. smap_find (m_task_confs m) k \<noteq> None \<longrightarrow> conv_ok k"
  shows "\<exists>m'. refreshTasks m = Inr (True, m') \<and> tasks_wf m' \<and>
    (\<forall>k. smap_find (m_task_confs m) k = None \<longrightarrow> smap_find (m_tasks m') k = None) \<and>
    (\<forall>k c. smap_find (m_task_confs m) k = Some c \<longrightarrow>
       (\<exists>t. smap_find (m_tasks m') k = Some (Some t) \<and> conf t = c \<and> queue_ok t \<and> hasPath t)) \<and>
    m' = (at_tick (tick m') m)\<lparr>m_tasks := m_tasks m', m_tails_deleted := [],
            t_heap := (\<lambda>p. if p \<in> set (m_tails_deleted m) then None else t_heap m p)\<rparr>"
proof -
  have ready: "tasks_ready (m_task_confs m) m"
    using assms(1) by (simp add: tasks_wf_def tasks_ready_def)
  obtain m1 m2 where run: "addTasks (diff_set (getTaskConfsKeys m) (getTasksKeys m))
      (deleteTasks (diff_set (getTasksKeys m) (getTaskConfsKeys m)) m) = Inr m1"
    "updateTasks (intersect_set (getTasksKeys m) (getTaskConfsKeys m)) m1 = Inr m2"
    and m2: "tasks_ready (m_task_confs m) m2" "m2 = (at_tick (tick m2) m)\<lparr>m_tasks := m_tasks m2\<rparr>"
    "\<forall>k. smap_find (m_task_confs m) k = None \<longrightarrow> smap_find (m_tasks m2) k = None"
    "\<forall>k c. smap_find (m_task_confs m) k = Some c \<longrightarrow> (\<exists>t. smap_find (m_tasks m2) k = Some (Some t) \<and> made_of c t)"
    using refreshTasks_loops [OF ready assms(2)] by blast
  let ?h = "\<lambda>p. if p \<in> set (m_tails_deleted m) then None else t_heap m p"
  let ?m' = "m2\<lparr>m_tails_deleted := [], t_heap := ?h\<rparr>"
  have same: "t_heap m2 = t_heap m" "m_tails_deleted m2 = m_tails_deleted m" "m_tails m2 = m_tails m"
    by (subst m2(2), simp)+
  have "each TailWatcher_destroy (m_tails_deleted m2) m2 = Inr (m2\<lparr>t_heap := ?h\<rparr>)"
    using destroy_all [of "m_tails_deleted m" m2, unfolded same] assms(1) by (simp add: same tasks_wf_def tail_live_def)
  then have "refreshTasks m = Inr (True, ?m')"
    using run by (simp add: refreshTasks_def Let_def delete_old_tails_def)
  moreover have "tails_live ?m'"
    using assms(1) unfolding tasks_wf_def tails_live_def tail_live_def by (auto simp: same) metis
  then have "tasks_wf ?m'"
    using m2(1) assms(1) by (simp add: tasks_wf_def tasks_ready_def)
  moreover have "?m' = (at_tick (tick ?m') m)\<lparr>m_tasks := m_tasks ?m', m_tails_deleted := [], t_heap := ?h\<rparr>"
  proof -
    have "tick ?m' = tick m2" by (simp add: tick_def)
    then show ?thesis by (subst (1) m2(2)) (simp add: at_tick_def)
  qed
  ultimately show ?thesis using m2(3,4) by (intro exI [of _ ?m']) (auto simp: made_of_def)
qed

text \<open>
  C12: A refresh of the tasks ends without a fault when the position file is there, the watchers are alive and
  every configured pattern is well formed. Then the tasks are exactly the configured ones, each
  with its current configuration, at least one path and a queue within its bounds; the watchers put
  aside by rotations are freed, and nothing else changes.
\<close>

theorem refreshTasks_follows_confs:
  assumes "tasks_wf m" and "\<forall>k. smap_find (m_task_confs m) k \<noteq> None \<longrightarrow> conv_ok k"
  shows "\<exists>m'. refreshTasks m = Inr (True, m') \<and> tasks_wf m' \<and>
    (\<forall>k. smap_find (m_task_confs m) k = None \<longrightarrow> smap_find (m_tasks m') k = None) \<and>
    (\<forall>k c. smap_find (m_task_confs m) k = Some c \<longrightarrow>
       (\<exists>t. smap_find (m_tasks m') k = Some (Some t) \<and> conf t = c \<and> queue_ok t \<and> hasPath t)) \<and>
    m' = (at_tick (tick m') m)\<lparr>m_tasks := m_tasks m', m_tails_deleted := [],
            t_heap := (\<lambda>p. if p \<in> set (m_tails_deleted m) then None else t_heap m p)\<rparr>"
  by (rule refreshTasks_runs [OF assms])

section \<open>Reading the configurations\<close>

lemma set_from_keeps:
  assumes "I item" and "\<And>s item. I item \<Longrightarrow> I (f s item)"
  shows "I (set_from v name f item)"
  using assms by (simp add: set_from_def split: sum.split)

lemma set_from_all_keep:
  assumes "I item" and "\<forall>(name, f) \<in> set fs. \<forall>s item. I item \<longrightarrow> I (f s item)"
  shows "I (fold (\<lambda>(name, f). set_from v name f) fs item)"
  using assms
proof (induction fs arbitrary: item)
  case (Cons p fs)
  obtain name f where p: "p = (name, f)" by (cases p)
  have "I (set_from v name f item)"
    by (rule set_from_keeps) (use Cons.prems in \<open>auto simp: p\<close>)
  then show ?case using Cons.IH [of "set_from v name f item"] Cons.prems(2) by (simp add: p)
qed simp

text \<open>What every accepted item has: the name, the topic, and a batch that fits the queue unless it is the default.\<close>

definition item_of :: "string \<Rightarrow> string \<Rightarrow> int \<Rightarrow> TaskConf \<Rightarrow> bool" where
  "item_of name tp limit c \<longleftrightarrow>
     log_path (log_conf c) = name \<and> topic (kafka_topic_conf c) = tp \<and>
     (batchsize (log_conf c) \<le> limit \<or> batchsize (log_conf c) = batchsize LogConf_new)"

lemma clamp_batch_le: "0 \<le> limit \<Longrightarrow> limit < 2 ^ 31 \<Longrightarrow> clamp_batch limit b \<le> limit"
  by (simp add: clamp_batch_def s64_id s32_id)

lemma task_members_keep:
  assumes "0 \<le> queue_buffering_max_messages c" and "queue_buffering_max_messages c < 2 ^ 31"
  shows "\<forall>(member, f) \<in> set (task_members c junk).
    \<forall>s item. item_of name tp (queue_buffering_max_messages c) item \<longrightarrow>
      item_of name tp (queue_buffering_max_messages c) (f s item)"
  using clamp_batch_le [OF assms]
  by (simp add: task_members_def item_of_def upd_log_def upd_topic_def)

lemma task_item_fields:
  assumes "task_item c junk name v = Some item" and "0 \<le> queue_buffering_max_messages c"
    and "queue_buffering_max_messages c < 2 ^ 31"
  shows "\<exists>tp. getValue_string v (Some ''topic'') = Inr tp \<and> item_of name tp (queue_buffering_max_messages c) item"
proof -
  obtain tp where tp: "getValue_string v (Some ''topic'') = Inr tp"
    using assms(1) by (auto simp: task_item_def split: sum.splits)
  let ?I = "item_of name tp (queue_buffering_max_messages c)"
  let ?i1 = "set_from v ''valid'' (\<lambda>s item. item\<lparr>valid := str2Bool (junk ''valid'') s\<rparr>)
    (upd_topic (\<lambda>k. k\<lparr>topic := tp\<rparr>) (TaskConf_new (junk ''TaskConf'')))"
  have "item_of (log_path LogConf_new) tp (queue_buffering_max_messages c) ?i1"
    by (rule set_from_keeps)
      (simp_all add: item_of_def upd_topic_def TaskConf_new_def LogConf_new_def KafkaTopicConf_new_def)
  then have "?I (upd_log (\<lambda>l. l\<lparr>log_path := name\<rparr>) ?i1)"
    by (simp add: item_of_def upd_log_def)
  then have "?I (fold (\<lambda>(member, f). set_from v member f) (task_members c junk)
      (upd_log (\<lambda>l. l\<lparr>log_path := name\<rparr>) ?i1))"
    by (rule set_from_all_keep) (rule task_members_keep [OF assms(2,3)])
  with assms(1) tp show ?thesis by (simp add: task_item_def)
qed

lemma task_item_topic: "task_item c junk name v = None \<longleftrightarrow> (\<forall>tp. getValue_string v (Some ''topic'') \<noteq> Inr tp)"
  by (simp add: task_item_def split: sum.split)

text \<open>The fold over the members of the document.\<close>

lemma add_confs_find:
  assumes "smap_find (fold (add_task_conf c junk) ms confs) k = Some item"
  shows "smap_find confs k = Some item \<or>
    (\<exists>name v. (name, v) \<in> set ms \<and> k = cstr name \<and> task_item c (junk k) k v = Some item \<and> TaskConf_isLegal item)"
  using assms
proof (induction ms arbitrary: confs)
  case (Cons p ms)
  obtain name v where p: "p = (name, v)" by (cases p)
  have "smap_find (add_task_conf c junk p confs) k = Some item \<Longrightarrow> smap_find confs k = Some item \<or>
      k = cstr name \<and> task_item c (junk k) k v = Some item \<and> TaskConf_isLegal item"
    by (auto simp: p add_task_conf_def sm.find_put split: option.splits if_splits)
  then show ?case using Cons.IH [of "add_task_conf c junk p confs"] Cons.prems by (auto simp: p)
qed simp

lemma add_confs_keep:
  "smap_find confs k \<noteq> None \<Longrightarrow> smap_find (fold (add_task_conf c junk) ms confs) k \<noteq> None"
proof (induction ms arbitrary: confs)
  case (Cons p ms)
  have "smap_find (add_task_conf c junk p confs) k \<noteq> None"
    using Cons.prems by (auto simp: add_task_conf_def sm.find_put split: prod.split option.split)
  then show ?case using Cons.IH by simp
qed simp

lemma add_confs_ok: "smap_ok confs \<Longrightarrow> smap_ok (fold (add_task_conf c junk) ms confs)"
proof (induction ms arbitrary: confs)
  case (Cons p ms)
  have "smap_ok (add_task_conf c junk p confs)"
    using Cons.prems by (auto simp: add_task_conf_def sm.ok_put split: prod.split option.split)
  then show ?case using Cons.IH by simp
qed simp

lemma add_confs_complete:
  assumes "(name, v) \<in> set ms" and "task_item c (junk (cstr name)) (cstr name) v = Some item" and "TaskConf_isLegal item"
  shows "smap_find (fold (add_task_conf c junk) ms confs) (cstr name) \<noteq> None"
  using assms(1)
proof (induction ms arbitrary: confs)
  case (Cons p ms)
  show ?case
  proof (cases "p = (name, v)")
    case True
    then have "smap_find (add_task_conf c junk p confs) (cstr name) \<noteq> None"
      using assms(2,3) by (simp add: add_task_conf_def sm.find_put)
    then show ?thesis using add_confs_keep [of "add_task_conf c junk p confs"] by simp
  next
    case False
    then show ?thesis using Cons by auto
  qed
qed simp

text \<open>
  C16: When the configuration is a JSON object, the accepted tasks are the ones whose member is an
  object with a topic and whose name holds no star. Each has its name as path, its topic, and
  a batch no larger than the queue of the producer, unless the batch is the default.
\<close>

theorem refreshTaskConfs_legal:
  assumes "mg_zookeeper m" and "lib_log_config (mg_lib m) (tick m) = text" and "2 < length text"
    and "lib_json (mg_lib m) (cstr text) = Some (JObject ms)"
    and "0 \<le> queue_buffering_max_messages (mg_config m)" and "queue_buffering_max_messages (mg_config m) < 2 ^ 31"
  shows "\<exists>m'. refreshTaskConfs m = Inr (True, m') \<and> smap_ok (m_task_confs m') \<and>
    (\<forall>k c. smap_find (m_task_confs m') k = Some c \<longrightarrow>
       (\<exists>name v. (name, v) \<in> set ms \<and> k = cstr name \<and>
          getValue_string v (Some ''topic'') = Inr (topic (kafka_topic_conf c))) \<and>
       log_path (log_conf c) = k \<and> CHR ''*'' \<notin> set k \<and>
       (batchsize (log_conf c) \<le> queue_buffering_max_messages (mg_config m) \<or> batchsize (log_conf c) = 200)) \<and>
    (\<forall>name v tp. (name, v) \<in> set ms \<and> getValue_string v (Some ''topic'') = Inr tp \<and> CHR ''*'' \<notin> set (cstr name) \<longrightarrow>
       smap_find (m_task_confs m') (cstr name) \<noteq> None)"
proof -
  let ?c = "mg_config m" and ?junk = "lib_junk (mg_lib m) (tick m)"
  let ?confs = "fold (add_task_conf ?c ?junk) ms []"
  have legal: "TaskConf_isLegal item \<longleftrightarrow> CHR ''*'' \<notin> set (log_path (log_conf item))" for item
    by (simp add: TaskConf_isLegal_def LogConf_isLegal_def KafkaTopicConf_isLegal_def isPathPatternLegal_iff)
  have "refreshTaskConfs m = Inr (True, (next_tick m)\<lparr>m_task_confs := ?confs\<rparr>)"
    using assms(1-4) by (simp add: refreshTaskConfs_def Let_def)
  moreover have "(\<exists>name v. (name, v) \<in> set ms \<and> k = cstr name \<and>
          getValue_string v (Some ''topic'') = Inr (topic (kafka_topic_conf c))) \<and>
       log_path (log_conf c) = k \<and> CHR ''*'' \<notin> set k \<and>
       (batchsize (log_conf c) \<le> queue_buffering_max_messages ?c \<or> batchsize (log_conf c) = 200)"
    if "smap_find ?confs k = Some c" for k c
  proof -
    from add_confs_find [OF that]
    obtain name v where nv: "(name, v) \<in> set ms" "k = cstr name" "task_item ?c (?junk k) k v = Some c" "TaskConf_isLegal c"
      by auto
    then show ?thesis
      using task_item_fields [OF nv(3) assms(5,6)] by (auto simp: item_of_def legal LogConf_new_def)
  qed
  moreover have "smap_find ?confs (cstr name) \<noteq> None"
    if "(name, v) \<in> set ms" "getValue_string v (Some ''topic'') = Inr tp" "CHR ''*'' \<notin> set (cstr name)" for name v tp
  proof -
    from that(2) obtain item where item: "task_item ?c (?junk (cstr name)) (cstr name) v = Some item"
      using task_item_topic [of ?c "?junk (cstr name)" "cstr name" v] by auto
    then have "TaskConf_isLegal item"
      using task_item_fields [OF item assms(5,6)] that(3) by (auto simp: item_of_def legal)
    then show ?thesis using add_confs_complete [of name v ms ?c ?junk item] that(1) item by blast
  qed
  ultimately show ?thesis
    by (intro exI [of _ "(next_tick m)\<lparr>m_task_confs := ?confs\<rparr>"]) (simp add: add_confs_ok, blast)
qed

section \<open>A manager\<close>

definition sample_doc :: json where
  "sample_doc = JObject [(''/a*'', JObject [(''topic'', JString ''t'')]), (''/a'', JObject [(''topic'', JString ''t'')])]"

definition sample_lib :: manager_lib where
  "sample_lib =
     \<lparr>lib_pcre2 = (\<lambda>_. None), lib_json = (\<lambda>_. Some sample_doc), lib_strftime = (\<lambda>_ p. Some p),
      lib_glob = (\<lambda>_ _. (0, [])), lib_access = (\<lambda>_ _. True), lib_log_config = (\<lambda>_. ''doc''),
      lib_broker_urls = (\<lambda>_. ''b''), lib_junk = (\<lambda>_ _ _. True)\<rparr>"

definition sample_config :: config where
  "sample_config = config_read (\<lambda>_. None) None"

definition sample_manager :: manager where
  "sample_manager =
     (Manager_new sample_lib (sample_world sample_text 0)
        \<lparr>kc_message_max_bytes = 0, kc_message_send_max_retries = 0, kc_queue_buffering_max_messages = 0\<rparr> sample_config)
       \<lparr>mg_zookeeper := True, m_position_file := Some (PositionFile_new [] 0)\<rparr>"

lemma sample_config_limit: "queue_buffering_max_messages sample_config = 10000"
  by (simp add: sample_config_def config_read_def cfg_getint_def cfg_lookup_def config_opts_def u64_def)

theorem refreshTaskConfs_legal_witness:
  "\<exists>m'. refreshTaskConfs sample_manager = Inr (True, m') \<and> smap_find (m_task_confs m') ''/a'' \<noteq> None \<and>
    smap_find (m_task_confs m') ''/a*'' = None"
proof -
  have v: "getValue_string (JObject [(''topic'', JString ''t'')]) (Some ''topic'') = Inr ''t''"
    by (simp add: getValue_string_def getMember_def cstr_def)
  obtain m' where m': "refreshTaskConfs sample_manager = Inr (True, m')"
    "\<forall>k c. smap_find (m_task_confs m') k = Some c \<longrightarrow> CHR ''*'' \<notin> set k"
    "\<forall>name v tp. (name, v) \<in> set [(''/a*'', JObject [(''topic'', JString ''t'')]), (''/a'', JObject [(''topic'', JString ''t'')])]
       \<and> getValue_string v (Some ''topic'') = Inr tp \<and> CHR ''*'' \<notin> set (cstr name) \<longrightarrow>
       smap_find (m_task_confs m') (cstr name) \<noteq> None"
    using refreshTaskConfs_legal [of sample_manager "''doc''"
        "[(''/a*'', JObject [(''topic'', JString ''t'')]), (''/a'', JObject [(''topic'', JString ''t'')])]"] sample_config_limit
    by (simp add: sample_manager_def Manager_new_def sample_lib_def sample_doc_def) blast
  moreover have "smap_find (m_task_confs m') (cstr ''/a'') \<noteq> None"
    using m'(3) [rule_format, of "''/a''" "JObject [(''topic'', JString ''t'')]" "''t''"] v by (simp add: cstr_def)
  moreover have "smap_find (m_task_confs m') ''/a*'' = None"
    using m'(2) [rule_format, of "''/a*''"] by (cases "smap_find (m_task_confs m') ''/a*''") auto
  ultimately show ?thesis by (simp add: cstr_def)
qed

theorem refreshTasks_follows_confs_witness:
  "\<exists>m' t. refreshTasks (sample_manager\<lparr>m_task_confs := [(''/a'', TaskConf_new True)]\<rparr>) = Inr (True, m') \<and>
    smap_find (m_tasks m') ''/a'' = Some (Some t) \<and> hasPath t"
proof -
  let ?m = "sample_manager\<lparr>m_task_confs := [(''/a'', TaskConf_new True)]\<rparr>"
  have "tasks_wf ?m"
    by (simp add: sample_manager_def Manager_new_def tasks_wf_def tasks_ok_def tails_live_def smap_ok_def)
  moreover have "\<forall>k. smap_find (m_task_confs ?m) k \<noteq> None \<longrightarrow> conv_ok k"
    by (simp add: smap_find_def)
  moreover have "smap_find (m_task_confs ?m) ''/a'' = Some (TaskConf_new True)"
    by (simp add: smap_find_def)
  ultimately show ?thesis using refreshTasks_follows_confs [of ?m] by blast
qed

end
