(* ===== verification/Supervise.thy ===== *)
theory Supervise
  imports Tasks
begin

text \<open>
  Properties of the manager's handling of its tail watchers: starting, stopping and replacing
  them.
\<close>

section \<open>Frames\<close>

text \<open>Everything but the world, the watchers and the position file.\<close>

definition same_tasks :: "manager \<Rightarrow> manager \<Rightarrow> bool" where
  "same_tasks m m' \<longleftrightarrow>
     m_tasks m' = m_tasks m \<and> m_task_confs m' = m_task_confs m \<and> mg_config m' = mg_config m \<and>
     mg_lib m' = mg_lib m \<and> mg_locked m' = mg_locked m \<and> mg_zookeeper m' = mg_zookeeper m"

lemma same_tasks_refl [simp]: "same_tasks m m"
  by (simp add: same_tasks_def)

lemma same_tasks_trans [trans]: "same_tasks a b \<Longrightarrow> same_tasks b c \<Longrightarrow> same_tasks a c"
  by (simp add: same_tasks_def)

lemma same_tasks_upd [simp]:
  "same_tasks m (set_world w m)" "same_tasks m (store p tw m)" "same_tasks m (put_tail k q m)"
  "same_tasks m (m\<lparr>mg_next := n\<rparr>)" "same_tasks m (m\<lparr>t_heap := h\<rparr>)" "same_tasks m (m\<lparr>m_position_file := pf\<rparr>)"
  by (simp_all add: same_tasks_def set_world_def store_def put_tail_def)

lemma getTask_same: "same_tasks m m' \<Longrightarrow> getTask m' k = getTask m k"
  by (simp add: same_tasks_def getTask_def)

lemma setupWatcher_frame:
  assumes "setupWatcher cf path_pattern path pe m = Inr (q, m')"
  shows "same_tasks m m'" and "m_tails m' = m_tails m"
  using assms
  by (auto simp: setupWatcher_def Let_def TailWatcher_destroy_def deref_def same_tasks_def set_world_def store_def
      split: if_splits prod.splits bool.splits option.splits)

lemma position_entry_frame:
  assumes "position_entry pek m = Inr (pe, m')"
  shows "same_tasks m m'" and "m_tails m' = m_tails m"
  using assms
  by (auto simp: position_entry_def same_tasks_def set_world_def split: option.splits prod.splits)

lemma start_entry_frame:
  assumes "start_entry path_pattern t m = Inr (pe, m')"
  shows "same_tasks m m'" and "m_tails m' = m_tails m"
  using assms position_entry_frame
  by (fastforce simp: start_entry_def same_tasks_def set_world_def elim!: bindR_InrE split: if_splits prod.splits)+

section \<open>Starting\<close>

text \<open>
  A task that is switched off ends the start of watchers: the tasks that come after it in the
  order of their patterns get no watcher in this round, whatever their configuration.
\<close>

lemma start_stops_at_disabled:
  assumes "getTask m path_pattern = Some t" and "\<not> valid (conf t)"
  shows "startWatchers (before @ path_pattern # behind) m = startWatchers before m"
  using assms
proof (induction before arbitrary: m)
  case Nil
  then show ?case by (simp add: task_at_def)
next
  case (Cons k before)
  have step: "startWatchers (before @ path_pattern # behind) (if tw = None then m2 else put_tail k tw m2)
      = startWatchers before (if tw = None then m2 else put_tail k tw m2)"
    if "start_entry k tk m = Inr (pe, m1)" "setupWatcher c k p pe m1 = Inr (tw, m2)" for tk pe m1 c p tw m2
  proof -
    have "same_tasks m m2"
      using same_tasks_trans [OF start_entry_frame(1) [OF that(1)] setupWatcher_frame(1) [OF that(2)]] .
    then have "getTask (if tw = None then m2 else put_tail k tw m2) path_pattern = Some t"
      using Cons.prems(1) getTask_same [of m m2] by (simp add: getTask_def put_tail_def)
    then show ?thesis using Cons.IH Cons.prems(2) by blast
  qed
  show ?case
    using step by (auto simp: bindR_def split: sum.split)
qed

section \<open>Closing a watcher\<close>

text \<open>A handler that may be notified: what the theorems on notifications ask for.\<close>

definition runnable :: "OutputKafka \<Rightarrow> FilterRegex option \<Rightarrow> nat \<Rightarrow> IOHandler \<Rightarrow> world \<Rightarrow> bool" where
  "runnable ok flt B io w \<longleftrightarrow>
     sound (kafka_ready ok) (\<lambda>c. c \<noteq> NUL) B (io, w) \<and> wired receiveLines flt (Some ok) io \<and> committed io w"

lemma runnable_tick: "runnable ok flt B io (w\<lparr>w_tick := n\<rparr>) = runnable ok flt B io w"
  by (simp add: runnable_def sound_def healthy_def clean_def committed_def wired_def pe_ok_same [of "w\<lparr>w_tick := n\<rparr>" w]
      pe_readPos_same [of "w\<lparr>w_tick := n\<rparr>" w])

lemma notify_runs:
  assumes "runnable ok flt B io w"
  shows "\<exists>io' w'. IOHandler_onNotify (Some io) w = Inr (Some io', w') \<and> runnable ok flt B io' w' \<and>
    w_os w' = w_os w \<and> m_position_entry io' = m_position_entry io"
proof -
  obtain h1 w1 where fl: "flush_stuck io w = (h1, w1)" by (cases "flush_stuck io w")
  obtain io' w' bs new s where run: "IOHandler_onNotify (Some io) w = Inr (Some io', w')"
    "moves sent_lines at_most_once (h1, w1) (io', w') bs new s"
    "sound (kafka_ready ok) (\<lambda>c. c \<noteq> NUL) B (io', w')" "committed io' w'"
    using notify_run [OF _ _ _ fl] assms unfolding runnable_def by blast
  have "conf_of io' = conf_of io" using run(2) flush_conf [OF fl] by (simp add: moves_def)
  moreover have "w_os w' = w_os w"
    using run(2) flush_stuck_frame(1) [OF fl] by (simp add: moves_def same_state_def)
  ultimately show ?thesis
    using run assms wired_conf [of io' io] conf_of_eqD(1) [of io' io] unfolding runnable_def by blast
qed

definition stopped :: "TailWatcher \<Rightarrow> IOHandler \<Rightarrow> TailWatcher" where
  "stopped tw io =
     tw\<lparr>tw_timer_trigger := map_option TimerWatcher_stop (tw_timer_trigger tw),
        tw_stat_trigger := map_option StatWatcher_stop (tw_stat_trigger tw),
        tw_io_handler := Some (IOHandler_close io)\<rparr>"

lemma closeWatcher_drains:
  assumes "t_heap m p = Some tw" and "tw_io_handler tw = Some io" and "\<not> tw_unwatched tw"
    and "IOHandler_onNotify (Some io) (t_world m) = Inr (Some io', w')"
  shows "closeWatcher p True False m = Inr (store p (stopped tw io') (set_world w' m))"
  using assms
  by (simp add: closeWatcher_def TailWatcher_stop_def deref_def store_def set_world_def stopped_def Let_def)

text \<open>
  C15: Stopping the watcher of a deleted task ends without a fault: the handler is notified once more, so what is left in
  the file is sent; the watcher is freed and forgotten, together with its key in the position file; and its entry
  there is marked as not watched, so that a restart drops it, exactly when the caller asked for it.
\<close>

theorem stop_marks_unwatched:
  assumes "smap_find (m_tails m) k = Some (Some p)" and "t_heap m p = Some tw" and "tw_io_handler tw = Some io"
    and "tw_timer_trigger tw \<noteq> None" and "tw_stat_trigger tw \<noteq> None"
    and "runnable ok flt B io (t_world m)" and "m_position_entry io = PE_file seek"
    and "m_position_file m = Some pf"
    and "smap_find (m_pe_map pf) (PositionEntryKey (tw_path_pattern tw) (tw_path tw)) = Some seek"
  shows "\<exists>m' io' w'. stopWatchers [k] True unwatched m = Inr m' \<and>
    IOHandler_onNotify (Some io) (t_world m) = Inr (Some io', w') \<and> w_kafka (t_world m') = w_kafka w' \<and>
    smap_find (m_tails m') k = None \<and> t_heap m' = (t_heap m)(p := None) \<and>
    m_position_file m' = Some (PositionFile_remove (PositionEntryKey (tw_path_pattern tw) (tw_path tw)) pf) \<and>
    stored_pos (PE_file seek) (t_world m') =
      Inr (if unwatched then UNWATCHED_POSITION else getFilePos io' - int (m_buffer_len io'))"
proof -
  let ?tw = "tw\<lparr>tw_unwatched := unwatched\<rparr>" and ?pek = "PositionEntryKey (tw_path_pattern tw) (tw_path tw)"
  obtain io' w' where run: "IOHandler_onNotify (Some io) (t_world m) = Inr (Some io', w')"
    "runnable ok flt B io' w'" "m_position_entry io' = PE_file seek"
    using notify_runs [OF assms(6)] assms(7) by auto
  have now: "pe_ok (PE_file seek) w'" "stored_pos (PE_file seek) w' = Inr (getFilePos io' - int (m_buffer_len io'))"
    using run(2,3) by (auto simp: runnable_def sound_def committed_def stored_pos_def)
  obtain w2 where w2: "pe_updatePos (PE_file seek) UNWATCHED_POSITION w' = Inr w2" "w_kafka w2 = w_kafka w'"
    "stored_pos (PE_file seek) w2 = Inr UNWATCHED_POSITION"
    using pe_updatePos_spec [OF now(1), of UNWATCHED_POSITION]
    by (auto simp: storable_pos_def stored_pos_def UNWATCHED_POSITION_def s64_def)
  let ?w = "if unwatched then w2 else w'"
  let ?m2 = "(store p (stopped ?tw io') (set_world ?w m))\<lparr>m_position_file := Some (PositionFile_remove ?pek pf)\<rparr>"
  have entry: "position_entry ?pek n = Inr (PE_file seek, n)" if "m_position_file n = Some pf" for n
    using that assms(9) by (simp add: position_entry_def PositionFile_index_def set_world_def)
  have "closeWatcher p True True (store p ?tw m) = Inr ?m2"
    using assms(3,8) run(1) w2(1)
    by (simp add: closeWatcher_def TailWatcher_stop_def deref_def store_def set_world_def Let_def entry stopped_def)
  then have "stopWatchers [k] True unwatched m =
      Inr (?m2\<lparr>t_heap := (t_heap m)(p := None), m_tails := smap_erase k (m_tails m)\<rparr>)"
    using assms(1,2,4,5) by (simp add: deref_def TailWatcher_destroy_def store_def set_world_def stopped_def)
  then show ?thesis
    using run(1) w2(2,3) now(2) by (auto simp: store_def set_world_def sm.find_erase)
qed

section \<open>Setting up a watcher\<close>

definition fresh_watcher :: "string \<Rightarrow> string \<Rightarrow> PositionEntryPtr \<Rightarrow> TaskConf \<Rightarrow> TailWatcher \<Rightarrow> bool" where
  "fresh_watcher path_pattern path pe cf tw \<longleftrightarrow>
     tw_path_pattern tw = path_pattern \<and> tw_path tw = path \<and> tw_position_entry tw = pe \<and> tw_conf tw = cf \<and>
     tw_io_handler tw = None \<and> tw_rotate_handler tw = Some (RotateHandler_init path) \<and>
     tw_timer_trigger tw \<noteq> None \<and> tw_stat_trigger tw \<noteq> None \<and> \<not> tw_unwatched tw \<and>
     tw_receive_func tw = Some receiveLines \<and> tw_output tw = Some \<lparr>m_kafka_topic_conf = kafka_topic_conf cf\<rparr>"

lemma TailWatcher_init_succeeds:
  assumes "\<forall>n. os_uv (w_os w) n"
  shows "\<exists>tw w'. TailWatcher_init pcre2 path_pattern path pe sil rfh ml lm rm d rd (Some receiveLines) cf
      (Some \<lparr>m_kafka_topic_conf = kafka_topic_conf cf\<rparr>) w = (True, tw, w') \<and>
    fresh_watcher path_pattern path pe cf tw \<and> same_state w w'"
  using assms
  by (simp add: TailWatcher_init_def TimerWatcher_init_def StatWatcher_init_def fresh_watcher_def Let_def w_step_def
      same_state_def)

lemma initProducer_there:
  assumes "producer_of codec k \<noteq> None" and "smap_find cc_map codec \<noteq> None"
  shows "initProducer urls codec k = (True, k)"
  using assms by (auto simp: initProducer_def producer_of_def touch_producer_def Let_def split: option.splits)

lemma setupWatcher_succeeds:
  assumes "producer_of (compression_codec (kafka_topic_conf cf)) (w_kafka (t_world m)) \<noteq> None"
    and "smap_find cc_map (compression_codec (kafka_topic_conf cf)) \<noteq> None" and "\<forall>n. os_uv (w_os (t_world m)) n"
  shows "\<exists>tw w'. setupWatcher cf path_pattern path pe m =
      Inr (Some (mg_next m), (store (mg_next m) tw (set_world w' m))\<lparr>mg_next := mg_next m + 1\<rparr>) \<and>
    fresh_watcher path_pattern path pe cf tw \<and> w_os w' = w_os (t_world m) \<and> w_mem w' = w_mem (t_world m) \<and>
    w_posfile w' = w_posfile (t_world m) \<and> k_log (w_kafka w') = k_log (w_kafka (t_world m))"
proof -
  let ?k = "setKafkaConf (mg_kafka_conf m) (w_kafka (t_world m))"
  let ?w = "w_step ((t_world m)\<lparr>w_kafka := ?k\<rparr>)"
  have there: "producer_of (compression_codec (kafka_topic_conf cf)) ?k \<noteq> None"
    using assms(1) by (simp add: producer_of_def setKafkaConf_def)
  have "\<forall>n. os_uv (w_os ?w) n" using assms(3) by (simp add: w_step_def)
  from TailWatcher_init_succeeds [OF this]
  obtain tw w' where tw: "TailWatcher_init (lib_pcre2 (mg_lib m)) path_pattern path pe
      (stat_silent_max_ms (mg_config m)) (read_from_head (log_conf cf)) (u64 (batchsize (log_conf cf)))
      (line_max_bytes (mg_config m)) (read_max_bytes (mg_config m)) (line_delimiter (log_conf cf))
      (remove_delimiter (log_conf cf)) (Some receiveLines) cf (Some \<lparr>m_kafka_topic_conf = kafka_topic_conf cf\<rparr>) ?w
      = (True, tw, w')" "fresh_watcher path_pattern path pe cf tw" "same_state ?w w'"
    by blast
  have "setupWatcher cf path_pattern path pe m =
      Inr (Some (mg_next m), (store (mg_next m) tw (set_world w' m))\<lparr>mg_next := mg_next m + 1\<rparr>)"
    using there tw(1) by (simp add: setupWatcher_def Let_def initProducer_there [OF there assms(2)] setKafkaTopicConf_def)
  moreover have "w_os w' = w_os (t_world m)" "w_mem w' = w_mem (t_world m)" "w_posfile w' = w_posfile (t_world m)"
    "k_log (w_kafka w') = k_log (w_kafka (t_world m))"
    using tw(3) by (simp_all add: same_state_def w_step_def setKafkaConf_def)
  ultimately show ?thesis using tw(2) by blast
qed

section \<open>Rotation\<close>

lemma stored_same:
  "w_mem w' = w_mem w \<Longrightarrow> w_posfile w' = w_posfile w \<Longrightarrow> stored_pos pe w' = stored_pos pe w"
  unfolding stored_pos_def by (rule pe_readPos_same)

text \<open>
  C11: When a file was replaced and its watcher has been silent long enough, the rotation
  completes: the old handler is notified once more before its file is closed, so what is left in the old file
  is sent first; the old watcher is stopped and put aside to be freed later; a new watcher of the
  same path takes its place, and the position entry they share is back at the beginning.
\<close>

theorem rotate_hands_over:
  assumes "\<not> mg_locked m" and "getTailWatcher m path = Some p" and "isActive p m = Inr (False, m1)"
    and "t_heap m p = Some tw" and "tw_io_handler tw = Some io" and "\<not> tw_unwatched tw" and "p < mg_next m"
    and "runnable ok flt B io (t_world m)" and "pe = m_position_entry io"
    and "compression_codec (kafka_topic_conf (tw_conf tw)) = compression_codec (m_kafka_topic_conf ok)"
    and "smap_find cc_map (compression_codec (m_kafka_topic_conf ok)) \<noteq> None"
    and "\<forall>n. os_uv (w_os (t_world m)) n" and "getTask m path_pattern \<noteq> None"
  shows "\<exists>m' io' w' tw'. updateWatcherRotate path_pattern path pe m = Inr (True, m') \<and>
    IOHandler_onNotify (Some io) (t_world m1) = Inr (Some io', w') \<and>
    k_log (w_kafka (t_world m')) = k_log (w_kafka w') \<and>
    t_heap m' p = Some (stopped tw io') \<and> m_tails_deleted m' = m_tails_deleted m @ [p] \<and>
    getTailWatcher m' path_pattern = Some (mg_next m) \<and> t_heap m' (mg_next m) = Some tw' \<and>
    fresh_watcher path_pattern path pe (tw_conf tw) tw' \<and>
    stored_pos pe (t_world m') = Inr 0 \<and> pe_ok pe (t_world m')"
proof -
  obtain n where m1: "m1 = at_tick n m" using isActive_at [OF assms(4)] assms(3) by auto
  have w1: "t_world m1 = (t_world m)\<lparr>w_tick := n\<rparr>" by (simp add: m1 at_tick_def)
  have "runnable ok flt B io (t_world m1)" using assms(8) by (simp add: w1 runnable_tick)
  then obtain io' w' where run: "IOHandler_onNotify (Some io) (t_world m1) = Inr (Some io', w')"
    "runnable ok flt B io' w'" "w_os w' = w_os (t_world m)" "m_position_entry io' = pe"
    using notify_runs [of ok flt B io "t_world m1"] assms(9) by (auto simp: w1)
  let ?m2 = "store p (stopped tw io') (set_world w' m1)"
  have close: "closeWatcher p True False m1 = Inr ?m2"
    by (rule closeWatcher_drains) (use assms(4-6) run(1) in \<open>simp_all add: m1\<close>)
  have ready: "pe_ok pe w'" "kafka_ready ok (w_kafka w')"
    using run(2,4) by (auto simp: runnable_def sound_def)
  obtain w2 where w2: "pe_updatePos pe 0 w' = Inr w2" "pe_ok pe w2" "w_os w2 = w_os w'" "w_kafka w2 = w_kafka w'"
    "stored_pos pe w2 = Inr 0"
    using pe_updatePos_spec [OF ready(1), of 0] by (auto simp: storable_pos_def stored_pos_def)
  let ?m3 = "set_world w2 ?m2"
  have conf: "tw_conf (stopped tw io') = tw_conf tw" by (simp add: stopped_def)
  have "producer_of (compression_codec (kafka_topic_conf (tw_conf tw))) (w_kafka (t_world ?m3)) \<noteq> None"
    using ready(2) assms(10) by (simp add: kafka_ready_def w2 set_world_def)
  moreover have "\<forall>n. os_uv (w_os (t_world ?m3)) n" using assms(12) run(3) w2(3) by (simp add: set_world_def)
  ultimately obtain tw' w3 where su: "setupWatcher (tw_conf tw) path_pattern path pe ?m3 =
      Inr (Some (mg_next ?m3), (store (mg_next ?m3) tw' (set_world w3 ?m3))\<lparr>mg_next := mg_next ?m3 + 1\<rparr>)"
    "fresh_watcher path_pattern path pe (tw_conf tw) tw'" "w_mem w3 = w_mem (t_world ?m3)"
    "w_posfile w3 = w_posfile (t_world ?m3)" "k_log (w_kafka w3) = k_log (w_kafka (t_world ?m3))"
    using setupWatcher_succeeds [of "tw_conf tw" ?m3 path_pattern path pe] assms(10,11) by auto
  have nxt: "mg_next ?m3 = mg_next m" by (simp add: m1 set_world_def store_def)
  obtain t where t: "getTask ?m2 path_pattern = Some t"
    using assms(13) by (auto simp: getTask_def m1 set_world_def store_def)
  let ?m4 = "(store (mg_next m) tw' (set_world w3 ?m3))\<lparr>mg_next := mg_next m + 1\<rparr>"
  let ?m' = "(put_tail path_pattern (Some (mg_next m)) ?m4)\<lparr>m_tails_deleted := m_tails_deleted ?m4 @ [p]\<rparr>"
  have "updateWatcherRotate path_pattern path pe m = Inr (True, ?m')"
    using assms(1-3) close w2(1) t su(1)
    by (simp add: updateWatcherRotate_def tail_at_def deref_def task_at_def nxt conf) (simp add: set_world_def store_def conf)
  moreover have "k_log (w_kafka (t_world ?m')) = k_log (w_kafka w')"
    using su(5) w2(4) by (simp add: put_tail_def store_def set_world_def)
  moreover have "t_heap ?m' p = Some (stopped tw io')" "t_heap ?m' (mg_next m) = Some tw'"
    using assms(7) by (simp_all add: put_tail_def store_def set_world_def m1)
  moreover have "getTailWatcher ?m' path_pattern = Some (mg_next m)"
    by (simp add: getTailWatcher_def put_tail_def sm.find_put)
  moreover have "m_tails_deleted ?m' = m_tails_deleted m @ [p]"
    by (simp add: put_tail_def store_def set_world_def m1)
  moreover have "stored_pos pe (t_world ?m') = Inr 0" "pe_ok pe (t_world ?m')"
    using su(3,4) w2(2,5) stored_same [of w3 w2 pe] pe_ok_same [of w3 w2 pe]
    by (simp_all add: put_tail_def store_def set_world_def)
  ultimately show ?thesis using run(1) su(2) by blast
qed

text \<open>
  A rotation is due: the path names another file than the handler reads, and than the position
  entry knows.
\<close>

definition rotation_due :: "TailWatcher \<Rightarrow> world \<Rightarrow> bool" where
  "rotation_due tw w \<longleftrightarrow>
     (\<exists>rh io fsize inode file. tw_rotate_handler tw = Some rh \<and> tw_io_handler tw = Some io \<and> m_file io \<noteq> None \<and>
        os_stat (os_fs (w_os w) (w_tick w)) (rh_path rh) = Some (fsize, inode) \<and> inode \<noteq> rh_inode rh \<and>
        fopen_r (os_fs (w_os w) (w_tick w + 1)) (rh_path rh) = Some file \<and>
        pe_ok (tw_position_entry tw) w \<and> stored_ino (tw_position_entry tw) w \<noteq> Inr (f_ino file))"

lemma rotation_fault:
  assumes due: "rotation_due tw (t_world s)" and tw: "t_heap s p = Some tw"
    and fault: "\<And>w. updateWatcher (tw_path_pattern tw) (tw_path tw) (tw_position_entry tw) (set_world w s) = Inl e"
  shows "TailWatcher_onNotify updateWatcher p s = Inl e"
proof -
  let ?w = "t_world s" and ?pe = "tw_position_entry tw"
  obtain rh io fsize inode fl where d: "tw_rotate_handler tw = Some rh" "tw_io_handler tw = Some io" "m_file io \<noteq> None"
    "os_stat (os_fs (w_os ?w) (w_tick ?w)) (rh_path rh) = Some (fsize, inode)" "inode \<noteq> rh_inode rh"
    "fopen_r (os_fs (w_os ?w) (w_tick ?w + 1)) (rh_path rh) = Some fl"
    "pe_ok ?pe ?w" "stored_ino ?pe ?w \<noteq> Inr (f_ino fl)"
    using due unfolding rotation_due_def by blast
  let ?s = "set_world (w_step (w_step ?w)) s"
  obtain i w1 where i: "pe_readInode ?pe (w_step (w_step (w_step ?w))) = Inr (i, w1)" "stored_ino ?pe ?w = Inr i"
    using readInode_entry [of ?pe "w_step (w_step (w_step ?w))"] d(7) by auto
  have "TailWatcher_onRotate updateWatcher p fl ?s = Inl e"
    using tw d(2,3,8) i fault [of w1]
    by (auto simp: TailWatcher_onRotate_def deref_def set_world_def open_again_def Let_def os_fstat_def)
  then show ?thesis
    using tw d(1,4,5,6) by (simp add: TailWatcher_onNotify_def notify_rotate_def deref_def RotateHandler_onNotify_def Let_def)
qed

text \<open>
  C36: A watcher of a dated file cannot be rotated: the manager looks the watcher up under its path, but keeps
  it under its pattern. When the pattern is not the path and no task is named like the path, the first
  notification after the file was replaced dereferences a null pointer.
\<close>

theorem rotate_dated_crashes:
  assumes "\<not> mg_locked m" and "t_heap m p = Some tw" and "rotation_due tw (t_world m)"
    and "getTailWatcher m (tw_path tw) = None"
  shows "TailWatcher_onNotify updateWatcherRotate p m = Inl Null_deref"
  by (rule rotation_fault [OF assms(3,2)])
    (use assms(1,4) in \<open>simp add: updateWatcherRotate_def tail_at_def getTailWatcher_def set_world_def\<close>)

text \<open>
  C35: Switching a task on again can block the manager for ever. The refresh holds the mutex of the watchers while
  it starts the watcher, starting notifies the watcher at once, and when the file was replaced in
  the meantime the rotation takes the same mutex.
\<close>

theorem enable_deadlock:
  assumes "mg_locked m" and "getTask m k = Some t" and "getTailWatcher m k = Some p" and "t_heap m p = Some tw"
    and "conf t = (tw_conf tw)\<lparr>valid := True\<rparr>" and "\<not> valid (tw_conf tw)"
    and "tw_timer_trigger tw \<noteq> None" and "tw_stat_trigger tw \<noteq> None"
    and "rotation_due tw (w_step (w_step (t_world m)))"
  shows "update_watcher k m = Inl Hang"
proof -
  obtain tm st where trig: "tw_timer_trigger tw = Some tm" "tw_stat_trigger tw = Some st" using assms(7,8) by blast
  let ?w = "w_step (w_step (t_world m))"
  obtain tm' where tm': "TimerWatcher_start tm (t_world m) = (tm', w_step (t_world m))"
    by (simp add: TimerWatcher_start_def)
  obtain st' where st': "StatWatcher_start st (w_step (t_world m)) = (st', ?w)"
    by (simp add: StatWatcher_start_def)
  let ?tw = "tw\<lparr>tw_timer_trigger := Some tm', tw_stat_trigger := Some st'\<rparr>"
  let ?s = "store p ?tw (set_world ?w m)"
  have "rotation_due ?tw (t_world ?s)" using assms(9) by (simp add: rotation_due_def store_def set_world_def)
  then have "TailWatcher_onNotify updateWatcherRotate p ?s = Inl Hang"
    by (rule rotation_fault) (simp_all add: store_def set_world_def updateWatcherRotate_def assms(1))
  then have "TailWatcher_start updateWatcherRotate p m = Inl Hang"
    using assms(4) trig tm' st' by (simp add: TailWatcher_start_def deref_def)
  then show ?thesis
    using assms(2-6)
    by (simp add: update_watcher_def task_at_def tail_at_def deref_def TaskConf_eq_def LogConf_eq_def
        KafkaTopicConf_eq_def FilterConf_eq_def Task_getEnabled_def TailWatcher_getEnabled_def)
qed

section \<open>Start-up\<close>

text \<open>
  When the ZooKeeper client cannot be initialised, \<open>Manager::init\<close> still answers true, and
  \<open>Manager::start\<close> dereferences the null client as soon as the position file is open.
\<close>

lemma zookeeper_failure_crashes:
  assumes "open_pos_file found creatable \<noteq> None"
  shows "\<exists>m. Manager_init False (Manager_new lib w kc c) = Inr (True, m) \<and>
    Manager_start found creatable ftruncate_ok m = Inl Null_deref"
proof -
  let ?m = "snd (initKafkaConf (Manager_new lib w kc c))"
  have "Manager_init False (Manager_new lib w kc c) = Inr (True, ?m\<lparr>mg_zookeeper := False\<rparr>)"
    by (simp add: Manager_init_def initZookeeper_def initKafkaConf_def Manager_new_def)
  moreover have "Manager_start found creatable ftruncate_ok (?m\<lparr>mg_zookeeper := False\<rparr>) = Inl Null_deref"
    using assms
    by (auto simp: Manager_start_def initKafkaConf_def Manager_new_def refreshWatchers_def refreshTaskConfs_def
        set_world_def Let_def split: option.split prod.split)
  ultimately show ?thesis by blast
qed

text \<open>A new producer is made, or the one of the codec is there.\<close>

definition rd_ok :: "rdkafka \<Rightarrow> bool" where
  "rd_ok rd \<longleftrightarrow> (\<forall>a b. rd_conf_set rd a b) \<and> (\<forall>n. rd_new rd n) \<and> (\<forall>u. rd_brokers_add rd u \<noteq> 0)"

lemma initProducer_succeeds:
  assumes "rd_ok (k_rd k)" and "smap_find cc_map codec \<noteq> None"
  shows "\<exists>k'. initProducer urls codec k = (True, k') \<and> k_rd k' = k_rd k \<and> k_log k' = k_log k"
proof -
  have "\<exists>p k'. Producer_init urls codec kc k = (Some p, k') \<and> k_rd k' = k_rd k \<and> k_log k' = k_log k"
    if "rd_ok (k_rd k)" for kc k
    using that by (simp add: Producer_init_def rd_ok_def k_step_def)
  moreover have touch: "k_rd (touch_producer codec k) = k_rd k" "k_log (touch_producer codec k) = k_log k"
    by (simp_all add: touch_producer_def split: option.split)
  ultimately obtain p k' where new: "Producer_init urls codec (m_kafka_conf (touch_producer codec k)) (touch_producer codec k)
      = (Some p, k')" "k_rd k' = k_rd k" "k_log k' = k_log k"
    using assms(1) by metis
  show ?thesis
    using assms(2) new touch by (cases "producer_of codec (touch_producer codec k)") (auto simp: initProducer_def Let_def)
qed

definition startable :: "manager \<Rightarrow> bool" where
  "startable m \<longleftrightarrow>
     mg_zookeeper m \<and> m_position_file m \<noteq> None \<and> (\<forall>n. os_uv (w_os (t_world m)) n) \<and> rd_ok (k_rd (w_kafka (t_world m)))"

lemma setupWatcher_makes:
  assumes "startable m" and "smap_find cc_map (compression_codec (kafka_topic_conf cf)) \<noteq> None"
  shows "\<exists>tw m'. setupWatcher cf path_pattern path pe m = Inr (Some (mg_next m), m') \<and>
    t_heap m' = (t_heap m)(mg_next m \<mapsto> tw) \<and> mg_next m' = mg_next m + 1 \<and>
    fresh_watcher path_pattern path pe cf tw \<and> startable m'"
proof -
  let ?k = "setKafkaConf (mg_kafka_conf m) (w_kafka (t_world m))"
  have "rd_ok (k_rd ?k)" using assms(1) by (simp add: startable_def setKafkaConf_def)
  then obtain k' where k': "initProducer (lib_broker_urls (mg_lib m) (w_tick (t_world m)))
      (compression_codec (kafka_topic_conf cf)) ?k = (True, k')" "k_rd k' = k_rd ?k"
    using initProducer_succeeds [OF _ assms(2)] by blast
  let ?w = "w_step ((t_world m)\<lparr>w_kafka := k'\<rparr>)"
  have "\<forall>n. os_uv (w_os ?w) n" using assms(1) by (simp add: startable_def w_step_def)
  from TailWatcher_init_succeeds [OF this]
  obtain tw w' where tw: "TailWatcher_init (lib_pcre2 (mg_lib m)) path_pattern path pe
      (stat_silent_max_ms (mg_config m)) (read_from_head (log_conf cf)) (u64 (batchsize (log_conf cf)))
      (line_max_bytes (mg_config m)) (read_max_bytes (mg_config m)) (line_delimiter (log_conf cf))
      (remove_delimiter (log_conf cf)) (Some receiveLines) cf (Some \<lparr>m_kafka_topic_conf = kafka_topic_conf cf\<rparr>) ?w
      = (True, tw, w')" "fresh_watcher path_pattern path pe cf tw" "same_state ?w w'"
    by blast
  have "setupWatcher cf path_pattern path pe m =
      Inr (Some (mg_next m), (store (mg_next m) tw (set_world w' m))\<lparr>mg_next := mg_next m + 1\<rparr>)"
    using k'(1) tw(1) assms(1) by (simp add: setupWatcher_def Let_def startable_def setKafkaTopicConf_def)
  moreover have "startable ((store (mg_next m) tw (set_world w' m))\<lparr>mg_next := mg_next m + 1\<rparr>)"
    using assms(1) tw(3) k'(2) by (simp add: startable_def store_def set_world_def same_state_def w_step_def setKafkaConf_def)
  ultimately show ?thesis using tw(2) by (simp add: store_def set_world_def) blast
qed

lemma start_entry_runs:
  assumes "startable m"
  shows "\<exists>pe m'. start_entry path_pattern t m = Inr (pe, m') \<and> t_heap m' = t_heap m \<and> mg_next m' = mg_next m \<and> startable m'"
proof -
  obtain pf where pf: "m_position_file m = Some pf" using assms by (auto simp: startable_def)
  obtain seek pf' f where i: "PositionFile_index (PositionEntryKey path_pattern (Task_getPath t)) (pf, w_posfile (t_world m))
      = (seek, pf', f)" by (metis prod_cases3)
  then show ?thesis
    using assms pf
    by (auto simp: start_entry_def position_entry_def pe_readInode_def pe_update_def startable_def set_world_def w_step_def
        split: prod.split)
qed

text \<open>A watcher for the task of a key, made since a given address.\<close>

definition watched_since :: "nat \<Rightarrow> manager \<Rightarrow> string \<Rightarrow> Task \<Rightarrow> bool" where
  "watched_since low m k t \<longleftrightarrow>
     (\<exists>p tw pe. smap_find (m_tails m) k = Some (Some p) \<and> low \<le> p \<and> p < mg_next m \<and> t_heap m p = Some tw \<and>
        fresh_watcher k (Task_getPath t) pe (conf t) tw)"

definition task_startable :: "manager \<Rightarrow> string \<Rightarrow> Task \<Rightarrow> bool" where
  "task_startable m k t \<longleftrightarrow>
     getTask m k = Some t \<and> valid (conf t) \<and>
     smap_find cc_map (compression_codec (kafka_topic_conf (conf t))) \<noteq> None"

lemma start_one:
  assumes "startable m" and "task_startable m k t" and "smap_find (m_tails m) k = None"
  shows "\<exists>m'. startWatchers (k # ks) m = startWatchers ks m' \<and> startable m' \<and> same_tasks m m' \<and> watched_since (mg_next m) m' k t \<and>
    mg_next m' = mg_next m + 1 \<and> (\<forall>j. j \<noteq> k \<longrightarrow> smap_find (m_tails m') j = smap_find (m_tails m) j) \<and>
    (\<forall>p. p < mg_next m \<longrightarrow> t_heap m' p = t_heap m p)"
proof -
  obtain pe m1 where e: "start_entry k t m = Inr (pe, m1)" "t_heap m1 = t_heap m" "mg_next m1 = mg_next m" "startable m1"
    using start_entry_runs [OF assms(1)] by blast
  obtain tw m2 where w: "setupWatcher (conf t) k (Task_getPath t) pe m1 = Inr (Some (mg_next m), m2)"
    "t_heap m2 = (t_heap m)(mg_next m \<mapsto> tw)" "mg_next m2 = mg_next m + 1" "fresh_watcher k (Task_getPath t) pe (conf t) tw" "startable m2"
    using setupWatcher_makes [OF e(4)] assms(2) e(2,3) unfolding task_startable_def by metis
  have tails: "m_tails m2 = m_tails m"
    using start_entry_frame(2) [OF e(1)] setupWatcher_frame(2) [OF w(1)] by simp
  have tasks: "same_tasks m m2"
    using same_tasks_trans [OF start_entry_frame(1) [OF e(1)] setupWatcher_frame(1) [OF w(1)]] .
  let ?m' = "put_tail k (Some (mg_next m)) m2"
  have "startWatchers (k # ks) m = startWatchers ks ?m'"
    using assms(2,3) e(1) w(1) by (simp add: task_startable_def task_at_def)
  moreover have "startable ?m'" using w(5) by (simp add: startable_def put_tail_def)
  moreover have "same_tasks m ?m'" using same_tasks_trans [OF tasks same_tasks_upd(3)] .
  moreover have "watched_since (mg_next m) ?m' k t"
    unfolding watched_since_def
    by (rule exI [of _ "mg_next m"], rule exI [of _ tw], rule exI [of _ pe])
      (simp add: put_tail_def sm.find_put w(2-4))
  ultimately show ?thesis
    using w(2,3) tails by (intro exI [of _ ?m']) (simp add: put_tail_def sm.find_put)
qed

lemma start_all:
  assumes "startable m" and "distinct ks" and "\<forall>k \<in> set ks. task_startable m k (f k) \<and> smap_find (m_tails m) k = None"
  shows "\<exists>m'. startWatchers ks m = Inr m' \<and> startable m' \<and> same_tasks m m' \<and> mg_next m \<le> mg_next m' \<and>
    (\<forall>k \<in> set ks. watched_since (mg_next m) m' k (f k)) \<and>
    (\<forall>k. k \<notin> set ks \<longrightarrow> smap_find (m_tails m') k = smap_find (m_tails m) k) \<and>
    (\<forall>p. p < mg_next m \<longrightarrow> t_heap m' p = t_heap m p)"
  using assms
proof (induction ks arbitrary: m)
  case Nil
  then show ?case by auto
next
  case (Cons k ks)
  obtain m1 where m1: "startWatchers (k # ks) m = startWatchers ks m1" "startable m1" "same_tasks m m1"
    "watched_since (mg_next m) m1 k (f k)" "mg_next m1 = mg_next m + 1"
    "\<forall>j. j \<noteq> k \<longrightarrow> smap_find (m_tails m1) j = smap_find (m_tails m) j" "\<forall>p. p < mg_next m \<longrightarrow> t_heap m1 p = t_heap m p"
    using start_one [OF Cons.prems(1), of k "f k" ks] Cons.prems(3) by auto
  have "\<forall>j \<in> set ks. j \<noteq> k" using Cons.prems(2) by auto
  then have "\<forall>j \<in> set ks. task_startable m1 j (f j) \<and> smap_find (m_tails m1) j = None"
    using Cons.prems(3) m1(6) getTask_same [OF m1(3)] by (simp add: task_startable_def)
  then obtain m2 where m2: "startWatchers ks m1 = Inr m2" "startable m2" "same_tasks m1 m2" "mg_next m1 \<le> mg_next m2"
    "\<forall>j \<in> set ks. watched_since (mg_next m1) m2 j (f j)"
    "\<forall>j. j \<notin> set ks \<longrightarrow> smap_find (m_tails m2) j = smap_find (m_tails m1) j" "\<forall>p. p < mg_next m1 \<longrightarrow> t_heap m2 p = t_heap m1 p"
    using Cons.IH [OF m1(2)] Cons.prems(2) by auto
  have first: "watched_since (mg_next m) m2 k (f k)"
    using m1(4,5) m2(4,6,7) Cons.prems(2) unfolding watched_since_def
    by (metis (no_types, lifting) distinct.simps(2) order_less_le_trans)
  have "watched_since (mg_next m) m2 j (f j)" if "j \<in> set ks" for j
    using m2(5) that m1(5) unfolding watched_since_def by (metis Suc_eq_plus1 Suc_leD)
  with first show ?case
    using m1 m2 same_tasks_trans [OF m1(3) m2(3)] by (intro exI [of _ m2]) auto
qed

lemma start_every_task:
  assumes "startable m" and "m_tails m = []"
    and "\<forall>k x. smap_find (m_tasks m) k = Some x \<longrightarrow>
      (\<exists>t. x = Some t \<and> valid (conf t) \<and> smap_find cc_map (compression_codec (kafka_topic_conf (conf t))) \<noteq> None)"
  shows "\<exists>m'. startWatchers (diff_set (getTasksKeys m) (getTailsKeys m)) m = Inr m' \<and> startable m' \<and> same_tasks m m' \<and>
    (\<forall>k t. smap_find (m_tasks m) k = Some (Some t) \<longrightarrow> watched_since (mg_next m) m' k t) \<and>
    (\<forall>k. smap_find (m_tasks m) k = None \<longrightarrow> smap_find (m_tails m') k = None)"
proof -
  let ?ks = "diff_set (getTasksKeys m) (getTailsKeys m)" and ?f = "\<lambda>k. the (getTask m k)"
  have tails: "getTailsKeys m = []" using assms(2) by (simp add: getTailsKeys_def smap_keys_def sset_collect_def)
  note diff = diff_set_props [OF keys_sset(1) [of "smap_keys (m_tasks m)"], of "[]", folded getTasksKeys_def]
  have ks: "k \<in> set ?ks \<longleftrightarrow> smap_find (m_tasks m) k \<noteq> None" for k
    using diff(1) by (simp add: tails getTasksKeys_def sm.set_keys)
  have dist: "distinct ?ks" using diff(2) by (simp add: tails strict_sorted_iff)
  have "\<forall>k \<in> set ?ks. task_startable m k (?f k) \<and> smap_find (m_tails m) k = None"
    using ks assms(2,3) by (fastforce simp: task_startable_def getTask_def)
  then obtain m' where m': "startWatchers ?ks m = Inr m'" "same_tasks m m'" "startable m'" "\<forall>k \<in> set ?ks. watched_since (mg_next m) m' k (?f k)"
    "\<forall>k. k \<notin> set ?ks \<longrightarrow> smap_find (m_tails m') k = smap_find (m_tails m) k"
    using start_all [OF assms(1) dist, of ?f] by blast
  have "watched_since (mg_next m) m' k t" if "smap_find (m_tasks m) k = Some (Some t)" for k t
  proof -
    have "?f k = t" "k \<in> set ?ks" using that ks by (simp_all add: getTask_def)
    then show ?thesis using m'(4) by metis
  qed
  then show ?thesis using m' ks assms(2) by auto
qed

text \<open>The steps of a first refresh.\<close>

lemma first_refresh:
  assumes "\<not> mg_locked m" and "startable m" and "m_tasks m = []" and "m_tails m = []" and "m_tails_deleted m = []"
    and "refreshTaskConfs (m\<lparr>mg_locked := True\<rparr>) = Inr (True, m1)" and "smap_ok (m_task_confs m1)"
    and "\<forall>k c. smap_find (m_task_confs m1) k = Some c \<longrightarrow>
      valid c \<and> conv_ok k \<and> smap_find cc_map (compression_codec (kafka_topic_conf c)) \<noteq> None"
  shows "\<exists>m2 m3. refreshTasks m1 = Inr (True, m2) \<and>
    startWatchers (diff_set (getTasksKeys m2) (getTailsKeys m2)) m2 = Inr m3 \<and> refreshWatchers m = Inr (m3\<lparr>mg_locked := False\<rparr>) \<and>
    startable m1 \<and> startable m3 \<and> m_tasks m1 = [] \<and> m_tails m1 = [] \<and> m_tails_deleted m1 = [] \<and> t_heap m2 = t_heap m1 \<and>
    m_position_file m2 = m_position_file m1 \<and> w_posfile (t_world m2) = w_posfile (t_world m1) \<and> same_tasks m2 m3 \<and>
    w_os (t_world m2) = w_os (t_world m1) \<and> w_kafka (t_world m2) = w_kafka (t_world m1) \<and>
    mg_config m2 = mg_config m1 \<and> mg_lib m2 = mg_lib m1 \<and>
    (\<forall>k. smap_find (m_task_confs m1) k = None \<longrightarrow> smap_find (m_tasks m2) k = None) \<and>
    (\<forall>k c. smap_find (m_task_confs m1) k = Some c \<longrightarrow>
       (\<exists>t. smap_find (m_tasks m2) k = Some (Some t) \<and> conf t = c \<and> queue_ok t \<and> hasPath t)) \<and>
    (\<forall>k t. smap_find (m_tasks m2) k = Some (Some t) \<longrightarrow> watched_since (mg_next m2) m3 k t) \<and>
    (\<forall>k. smap_find (m_tasks m2) k = None \<longrightarrow> smap_find (m_tails m3) k = None)"
proof -
  have m1: "startable m1" "m_tasks m1 = []" "m_tails m1 = []" "m_tails_deleted m1 = []" "mg_locked m1"
    using assms(2-6)
    by (auto simp: refreshTaskConfs_def startable_def next_tick_def set_world_def w_step_def Let_def
        split: if_splits option.splits json.splits)
  have "tasks_wf m1"
    using m1 assms(7) by (simp add: tasks_wf_def tasks_ok_def tails_live_def startable_def)
  then obtain m2 where m2: "refreshTasks m1 = Inr (True, m2)" "tasks_wf m2"
    "\<forall>k. smap_find (m_task_confs m1) k = None \<longrightarrow> smap_find (m_tasks m2) k = None"
    "\<forall>k c. smap_find (m_task_confs m1) k = Some c \<longrightarrow>
       (\<exists>t. smap_find (m_tasks m2) k = Some (Some t) \<and> conf t = c \<and> queue_ok t \<and> hasPath t)"
    "m2 = (at_tick (tick m2) m1)\<lparr>m_tasks := m_tasks m2, m_tails_deleted := [],
            t_heap := (\<lambda>p. if p \<in> set (m_tails_deleted m1) then None else t_heap m1 p)\<rparr>"
    using refreshTasks_runs [of m1] assms(8) by blast
  have "m_tails m2 = []" "startable m2" "mg_locked m2"
    using m1 by (subst m2(5), simp add: startable_def at_tick_def)+
  have tails2: "getTailsKeys m2 = []" using \<open>m_tails m2 = []\<close> by (simp add: getTailsKeys_def smap_keys_def sset_collect_def)
  have known: "\<forall>k x. smap_find (m_tasks m2) k = Some x \<longrightarrow>
      (\<exists>t. x = Some t \<and> valid (conf t) \<and> smap_find cc_map (compression_codec (kafka_topic_conf (conf t))) \<noteq> None)"
    using m2(3,4) assms(8) by (metis not_None_eq option.sel)
  obtain m3 where m3: "startWatchers (diff_set (getTasksKeys m2) (getTailsKeys m2)) m2 = Inr m3" "same_tasks m2 m3" "startable m3"
    "\<forall>k t. smap_find (m_tasks m2) k = Some (Some t) \<longrightarrow> watched_since (mg_next m2) m3 k t"
    "\<forall>k. smap_find (m_tasks m2) k = None \<longrightarrow> smap_find (m_tails m3) k = None"
    using start_every_task [OF \<open>startable m2\<close> \<open>m_tails m2 = []\<close> known] by blast
  have empty: "intersect_set (getTailsKeys m2) (getTasksKeys m2) = []" "diff_set (getTailsKeys m2) (getTasksKeys m2) = []"
    by (simp_all add: tails2 intersect_set_def diff_set_def sset_collect_def)
  have run: "refreshWatchers m = Inr (m3\<lparr>mg_locked := False\<rparr>)"
    using assms(1,6) m2(1) m3(1) by (simp add: refreshWatchers_def Let_def empty updateWatchers_def)
  have "t_heap m2 = t_heap m1" "m_position_file m2 = m_position_file m1" "w_posfile (t_world m2) = w_posfile (t_world m1)"
    "w_os (t_world m2) = w_os (t_world m1)" "w_kafka (t_world m2) = w_kafka (t_world m1)" "mg_config m2 = mg_config m1"
    "mg_lib m2 = mg_lib m1"
    using m1(4) by (subst m2(5), simp add: at_tick_def)+
  with m2 m3 run m1 show ?thesis by (intro exI [of _ m2] exI [of _ m3]) simp
qed

text \<open>
  C10: The first refresh after a start gives every configured task a watcher. When the configured patterns are
  well formed and the tasks switched on with a known codec, and the libraries do what they are
  asked, the refresh returns with the mutex free, the tasks are the configured ones, and every one of them has a new
  watcher on its first path that will send the lines with the configuration of the task.
\<close>

theorem first_refresh_watches_all:
  assumes "\<not> mg_locked m" and "startable m" and "m_tasks m = []" and "m_tails m = []" and "m_tails_deleted m = []"
    and "refreshTaskConfs (m\<lparr>mg_locked := True\<rparr>) = Inr (True, m1)" and "smap_ok (m_task_confs m1)"
    and "\<forall>k c. smap_find (m_task_confs m1) k = Some c \<longrightarrow>
      valid c \<and> conv_ok k \<and> smap_find cc_map (compression_codec (kafka_topic_conf c)) \<noteq> None"
  shows "\<exists>m'. refreshWatchers m = Inr m' \<and> \<not> mg_locked m' \<and>
    (\<forall>k. smap_find (m_task_confs m1) k = None \<longrightarrow> smap_find (m_tasks m') k = None \<and> smap_find (m_tails m') k = None) \<and>
    (\<forall>k c. smap_find (m_task_confs m1) k = Some c \<longrightarrow>
       (\<exists>t p tw pe. getTask m' k = Some t \<and> conf t = c \<and> hasPath t \<and>
          getTailWatcher m' k = Some p \<and> t_heap m' p = Some tw \<and> fresh_watcher k (Task_getPath t) pe c tw))"
proof -
  obtain m2 m3 where run: "refreshWatchers m = Inr (m3\<lparr>mg_locked := False\<rparr>)"
    and m2: "\<forall>k. smap_find (m_task_confs m1) k = None \<longrightarrow> smap_find (m_tasks m2) k = None"
      "\<forall>k c. smap_find (m_task_confs m1) k = Some c \<longrightarrow>
        (\<exists>t. smap_find (m_tasks m2) k = Some (Some t) \<and> conf t = c \<and> queue_ok t \<and> hasPath t)"
    and m3: "same_tasks m2 m3" "\<forall>k t. smap_find (m_tasks m2) k = Some (Some t) \<longrightarrow> watched_since (mg_next m2) m3 k t"
      "\<forall>k. smap_find (m_tasks m2) k = None \<longrightarrow> smap_find (m_tails m3) k = None"
    using first_refresh [OF assms] by blast
  let ?m' = "m3\<lparr>mg_locked := False\<rparr>"
  have tasks: "m_tasks m3 = m_tasks m2" using m3(1) by (simp add: same_tasks_def)
  have none: "smap_find (m_tasks ?m') k = None \<and> smap_find (m_tails ?m') k = None"
    if "smap_find (m_task_confs m1) k = None" for k
    using that m2(1) m3(3) by (simp add: tasks)
  have some: "\<exists>t p tw pe. getTask ?m' k = Some t \<and> conf t = c \<and> hasPath t \<and>
      getTailWatcher ?m' k = Some p \<and> t_heap ?m' p = Some tw \<and> fresh_watcher k (Task_getPath t) pe c tw"
    if c: "smap_find (m_task_confs m1) k = Some c" for k c
    using m2(2) m3(2) c by (fastforce simp: watched_since_def getTask_def getTailWatcher_def tasks)
  show ?thesis using run none some by (intro exI [of _ ?m']) simp
qed

section \<open>Runs of a manager\<close>

lemma start_stops_at_disabled_witness:
  "startWatchers [''/a'', ''/b''] (sample_manager\<lparr>m_tasks := [(''/a'', Some (Task_new False 5)), (''/b'', Some (Task_new True 5))]\<rparr>)
    = Inr (sample_manager\<lparr>m_tasks := [(''/a'', Some (Task_new False 5)), (''/b'', Some (Task_new True 5))]\<rparr>)"
  using start_stops_at_disabled [of "sample_manager\<lparr>m_tasks := [(''/a'', Some (Task_new False 5)), (''/b'', Some (Task_new True 5))]\<rparr>"
      "''/a''" "Task_new False 5" "[]" "[''/b'']"]
  by (simp add: getTask_def smap_find_def Task_new_def TaskConf_new_def)

lemma zookeeper_failure_crashes_witness:
  "\<exists>m. Manager_init False (Manager_new sample_lib (sample_world sample_text 0) (mg_kafka_conf sample_manager) sample_config) = Inr (True, m) \<and>
    Manager_start (Some []) False True m = Inl Null_deref"
  by (rule zookeeper_failure_crashes) (simp add: open_pos_file_def)

definition sample_rotated :: "bool \<Rightarrow> PositionEntryPtr \<Rightarrow> TailWatcher" where
  "sample_rotated on pe =
     sample_tw\<lparr>tw_path_pattern := ''/a%d'', tw_path := ''/a1'', tw_position_entry := pe, tw_conf := TaskConf_new on,
       tw_rotate_handler := Some \<lparr>rh_path = ''/a1'', rh_inode = 4, rh_fsize = 0, rh_last_rotate_time = 0\<rparr>,
       tw_io_handler := Some ((sample_handler 2 0 [])\<lparr>m_last_io_time := 0\<rparr>),
       tw_timer_trigger := Some \<lparr>tmw_timeout = 0, tmw_repeat = 3000, tmw_handle = Some True\<rparr>,
       tw_stat_trigger := Some \<lparr>stw_path = ''/a1'', stw_interval = 1000, stw_handle = Some True\<rparr>,
       tw_stat_silent_max_ms := 5000\<rparr>"

definition sample_running :: "bool \<Rightarrow> PositionEntryPtr \<Rightarrow> string \<Rightarrow> manager" where
  "sample_running on pe k =
     sample_manager\<lparr>t_heap := [0 \<mapsto> sample_rotated on pe], mg_next := 1, m_tails := [(k, Some 0)],
       t_world := (sample_world sample_text 0)\<lparr>w_mem := [0 \<mapsto> \<lparr>m_inode = 4, m_pos = 0\<rparr>]\<rparr>,
       m_tasks := [(k, Some (Task_new True 5))]\<rparr>"

lemma sample_running_simps [simp]:
  "t_heap (sample_running on pe k) = [0 \<mapsto> sample_rotated on pe]" "mg_next (sample_running on pe k) = 1"
  "m_tails (sample_running on pe k) = [(k, Some 0)]" "m_tasks (sample_running on pe k) = [(k, Some (Task_new True 5))]"
  "t_world (sample_running on pe k) = (sample_world sample_text 0)\<lparr>w_mem := [0 \<mapsto> \<lparr>m_inode = 4, m_pos = 0\<rparr>]\<rparr>"
  "mg_locked (sample_running on pe k) = False"
  by (simp_all add: sample_running_def sample_manager_def Manager_new_def)

lemma sample_rotated_simps [simp]:
  "tw_path (sample_rotated on pe) = ''/a1''" "tw_conf (sample_rotated on pe) = TaskConf_new on"
  "tw_io_handler (sample_rotated on pe) = Some ((sample_handler 2 0 [])\<lparr>m_last_io_time := 0\<rparr>)"
  "tw_timer_trigger (sample_rotated on pe) \<noteq> None" "tw_stat_trigger (sample_rotated on pe) \<noteq> None"
  "tw_stat_silent_max_ms (sample_rotated on pe) = 5000" "tw_unwatched (sample_rotated on pe) = False"
  by (simp_all add: sample_rotated_def sample_tw_def)

lemma sample_rotation_due:
  assumes "w_os w = sample_os d" and "w_mem w = [0 \<mapsto> \<lparr>m_inode = 4, m_pos = 0\<rparr>]"
  shows "rotation_due (sample_rotated on (PE_mem 0)) w"
  using assms
  by (simp add: rotation_due_def sample_rotated_def sample_handler_def os_stat_def fopen_r_def pe_ok_def stored_ino_def
      pe_readInode_def Mem_readInode_def)

theorem rotate_dated_crashes_witness:
  "TailWatcher_onNotify updateWatcherRotate 0 (sample_running True (PE_mem 0) ''/a%d'') = Inl Null_deref"
  by (rule rotate_dated_crashes [where tw = "sample_rotated True (PE_mem 0)"])
    (simp_all add: sample_rotation_due [of _ sample_text] sample_world_def getTailWatcher_def smap_find_def)

theorem enable_deadlock_witness:
  "update_watcher ''/a1'' ((sample_running False (PE_mem 0) ''/a1'')\<lparr>mg_locked := True\<rparr>) = Inl Hang"
  by (rule enable_deadlock [where tw = "sample_rotated False (PE_mem 0)" and p = 0 and t = "Task_new True 5"])
    (simp_all add: sample_rotation_due [of _ sample_text] sample_world_def getTailWatcher_def getTask_def
       smap_find_def Task_new_def TaskConf_new_def w_step_def)

lemma runnable_io_time [simp]: "runnable ok flt B (io\<lparr>m_last_io_time := t\<rparr>) w = runnable ok flt B io w"
  by (simp add: runnable_def sound_def healthy_def clean_def committed_def wired_def io_inv_def content_def getFilePos_def buf_str_def)

lemma sample_runnable: "runnable sample_output None 100 (sample_handler 2 0 []) ((sample_world sample_text e)\<lparr>w_mem := mm\<rparr>)"
proof -
  have "runnable sample_output None 100 (sample_handler 2 0 []) (sample_world sample_text e)"
    unfolding runnable_def
    using sample_sound [of "kafka_ready sample_output" e sample_text "[]"] sample_kafka_ready [of e] sample_text_ok
      sample_wired sample_committed by simp
  then show ?thesis
    by (simp add: runnable_def sound_def healthy_def clean_def committed_def wired_def pe_ok_def pe_readPos_def
        sample_handler_def getFilePos_def split: prod.splits)
qed

theorem rotate_hands_over_witness:
  "\<exists>m' io' tw'. updateWatcherRotate ''/a1'' ''/a1'' (PE_file 0) (sample_running True (PE_file 0) ''/a1'') = Inr (True, m') \<and>
    t_heap m' 0 = Some (stopped (sample_rotated True (PE_file 0)) io') \<and> t_heap m' 1 = Some tw' \<and>
    fresh_watcher ''/a1'' ''/a1'' (PE_file 0) (TaskConf_new True) tw' \<and> stored_pos (PE_file 0) (t_world m') = Inr 0"
proof -
  let ?m = "sample_running True (PE_file 0) ''/a1''" and ?tw = "sample_rotated True (PE_file 0)"
    and ?io = "(sample_handler 2 0 [])\<lparr>m_last_io_time := 0\<rparr>"
  have "isActive 0 ?m = Inr (False, set_world (w_step (w_step (t_world ?m))) ?m)"
    by (simp add: isActive_def deref_def getLastIOTime_def Let_def w_step_def sample_world_def elapsed_ms_def u64_def)
  moreover have "\<not> mg_locked ?m" "getTailWatcher ?m ''/a1'' = Some 0" "0 < mg_next ?m" "getTask ?m ''/a1'' \<noteq> None"
    "t_heap ?m 0 = Some ?tw" "tw_io_handler ?tw = Some ?io" "\<not> tw_unwatched ?tw" "PE_file 0 = m_position_entry ?io"
    by (simp_all add: getTailWatcher_def getTask_def smap_find_def sample_handler_def)
  moreover have "runnable sample_output None 100 ?io (t_world ?m)" using sample_runnable by simp
  moreover have "compression_codec (kafka_topic_conf (tw_conf ?tw)) = compression_codec (m_kafka_topic_conf sample_output)"
    "smap_find cc_map (compression_codec (m_kafka_topic_conf sample_output)) \<noteq> None"
    by (simp_all add: sample_output_def TaskConf_new_def KafkaTopicConf_new_def cc_map_def smap_find_def)
  moreover have "\<forall>n. os_uv (w_os (t_world ?m)) n" by (simp add: sample_world_def sample_os_def)
  ultimately obtain m' io' w' tw' where
    "updateWatcherRotate ''/a1'' ''/a1'' (PE_file 0) ?m = Inr (True, m')" "t_heap m' 0 = Some (stopped ?tw io')"
    "t_heap m' (mg_next ?m) = Some tw'" "fresh_watcher ''/a1'' ''/a1'' (PE_file 0) (tw_conf ?tw) tw'"
    "stored_pos (PE_file 0) (t_world m') = Inr 0"
    using rotate_hands_over [of ?m "''/a1''" 0 _ ?tw ?io sample_output None 100 "PE_file 0" "''/a1''"] by blast
  then show ?thesis by auto
qed

lemma sample_confs:
  "\<exists>c m1. refreshTaskConfs (sample_manager\<lparr>mg_locked := True\<rparr>) = Inr (True, m1) \<and> m_task_confs m1 = [(''/a'', c)] \<and>
    valid c \<and> compression_codec (kafka_topic_conf c) = ''none''"
  by (simp add: refreshTaskConfs_def sample_manager_def Manager_new_def sample_lib_def sample_doc_def add_task_conf_def
      task_item_def task_members_def set_from_def getValue_string_def getMember_def cstr_def TaskConf_isLegal_def LogConf_isLegal_def
      KafkaTopicConf_isLegal_def isPathPatternLegal_iff upd_log_def upd_topic_def TaskConf_new_def KafkaTopicConf_new_def
      next_tick_def set_world_def Let_def)

theorem first_refresh_watches_all_witness:
  "\<exists>m' t p tw pe c. refreshWatchers sample_manager = Inr m' \<and> getTask m' ''/a'' = Some t \<and>
    getTailWatcher m' ''/a'' = Some p \<and> t_heap m' p = Some tw \<and> fresh_watcher ''/a'' (Task_getPath t) pe c tw"
proof -
  obtain c m1 where m1: "refreshTaskConfs (sample_manager\<lparr>mg_locked := True\<rparr>) = Inr (True, m1)" "m_task_confs m1 = [(''/a'', c)]"
    "valid c" "compression_codec (kafka_topic_conf c) = ''none''"
    using sample_confs by blast
  have "startable sample_manager"
    by (simp add: startable_def rd_ok_def sample_manager_def Manager_new_def sample_world_def sample_os_def sample_kafka_def sample_rd_def)
  moreover have "\<not> mg_locked sample_manager" "m_tasks sample_manager = []" "m_tails sample_manager = []"
    "m_tails_deleted sample_manager = []" "smap_ok (m_task_confs m1)"
    by (simp_all add: sample_manager_def Manager_new_def m1 smap_ok_def)
  moreover have "\<forall>k c. smap_find (m_task_confs m1) k = Some c \<longrightarrow>
      valid c \<and> conv_ok k \<and> smap_find cc_map (compression_codec (kafka_topic_conf c)) \<noteq> None"
    using m1 by (simp add: smap_find_def cc_map_def)
  moreover have "smap_find (m_task_confs m1) ''/a'' = Some c" by (simp add: m1 smap_find_def)
  ultimately show ?thesis using first_refresh_watches_all [of sample_manager m1] m1(1) by blast
qed

theorem stop_marks_unwatched_witness:
  "\<exists>m'. stopWatchers [''/a1''] True True ((sample_running True (PE_file 0) ''/a1'')
      \<lparr>m_position_file := Some (PositionFile_new [(PositionEntryKey ''/a%d'' ''/a1'', 0)] 26)\<rparr>) = Inr m' \<and>
    stored_pos (PE_file 0) (t_world m') = Inr UNWATCHED_POSITION"
proof -
  let ?m = "(sample_running True (PE_file 0) ''/a1'')
      \<lparr>m_position_file := Some (PositionFile_new [(PositionEntryKey ''/a%d'' ''/a1'', 0)] 26)\<rparr>"
    and ?tw = "sample_rotated True (PE_file 0)" and ?io = "(sample_handler 2 0 [])\<lparr>m_last_io_time := 0\<rparr>"
  have "smap_find (m_tails ?m) ''/a1'' = Some (Some 0)" "t_heap ?m 0 = Some ?tw" "tw_io_handler ?tw = Some ?io"
    "tw_timer_trigger ?tw \<noteq> None" "tw_stat_trigger ?tw \<noteq> None" "m_position_entry ?io = PE_file 0"
    "m_position_file ?m = Some (PositionFile_new [(PositionEntryKey ''/a%d'' ''/a1'', 0)] 26)"
    by (simp_all add: smap_find_def sample_handler_def)
  moreover have "runnable sample_output None 100 ?io (t_world ?m)" using sample_runnable by simp
  moreover have "smap_find (m_pe_map (PositionFile_new [(PositionEntryKey ''/a%d'' ''/a1'', 0)] 26))
      (PositionEntryKey (tw_path_pattern ?tw) (tw_path ?tw)) = Some 0"
    by (simp add: smap_find_def PositionFile_new_def) (simp add: sample_rotated_def)
  ultimately show ?thesis
    using stop_marks_unwatched [of ?m "''/a1''" 0 ?tw ?io sample_output None 100 0 _ True] by auto
qed

end
