(* ===== verification/Zookeeper.thy ===== *)
theory Zookeeper
  imports Manager
begin

text \<open>
  The ZooKeeper client, \<open>src/logkafka/zookeeper.cc\<close>: it keeps the connection, the configuration of the tasks and the list
  of brokers that the manager reads, and the node that shows that this process is alive.

  The ZooKeeper library and the servers are parameters: what the \<open>n\<close>-th call of a kind answers,
  so nothing is assumed about what the servers hold or what other clients do. Every request is
  recorded in a log. The threads of the library are not modelled; the operations below are the
  bodies of its callbacks.
\<close>

section \<open>State\<close>

datatype zk_request =
    Zinit string
  | Zclose
  | Zexists string
  | Zget string
  | Zcreate string bool
  | Zdelete string
  | Zwget string
  | Zwget_children string
  | Zget_children string
  | Zaset string string

abbreviation (input) ZOK :: int where "ZOK \<equiv> 0"
abbreviation (input) ZNODEEXISTS :: int where "ZNODEEXISTS \<equiv> - 110"
abbreviation (input) ZOO_EXPIRED_SESSION_STATE :: int where "ZOO_EXPIRED_SESSION_STATE \<equiv> - 112"
abbreviation (input) ZOO_AUTH_FAILED_STATE :: int where "ZOO_AUTH_FAILED_STATE \<equiv> - 113"
abbreviation (input) ZOO_CONNECTING_STATE :: int where "ZOO_CONNECTING_STATE \<equiv> 1"
abbreviation (input) ZOO_ASSOCIATING_STATE :: int where "ZOO_ASSOCIATING_STATE \<equiv> 2"
abbreviation (input) ZOO_CONNECTED_STATE :: int where "ZOO_CONNECTED_STATE \<equiv> 3"
abbreviation (input) ZOO_SESSION_EVENT :: int where "ZOO_SESSION_EVENT \<equiv> - 1"

record zk_lib =
  zl_init :: "nat \<Rightarrow> bool"
  zl_state :: "nat \<Rightarrow> int"
  zl_exists :: "nat \<Rightarrow> string \<Rightarrow> int \<times> nat"
  zl_get :: "nat \<Rightarrow> string \<Rightarrow> int \<times> string \<times> int"
  zl_create :: "nat \<Rightarrow> string \<Rightarrow> int"
  zl_delete :: "nat \<Rightarrow> string \<Rightarrow> int"
  zl_watch :: "nat \<Rightarrow> string \<Rightarrow> int"
  zl_children :: "nat \<Rightarrow> string \<Rightarrow> int \<times> string list"
  zl_aset :: "nat \<Rightarrow> string \<Rightarrow> int"
  zl_json :: "string \<Rightarrow> json option"

record Zookeeper =
  z_lib :: zk_lib
  z_tick :: nat
  z_log :: "zk_request list"
  m_zookeeper_urls :: string
  m_kafka_chroot_path :: string
  m_logkafka_id :: string
  m_log_config :: string
  m_broker_urls :: string
  m_config_logkafka_id_path :: string
  m_client_logkafka_id_path :: string
  m_broker_ids_path :: string
  m_logkafka_config_path :: string
  m_logkafka_client_path :: string
  m_session_timeout_ms :: int
  m_registered :: bool
  m_zhandle :: bool
  m_zk_log_fp :: bool
  m_thread :: bool
  m_loop :: bool
  m_refresh_timer_trigger :: "bool option"
  m_exit_handle :: "bool option"

definition REFRESH_INTERVAL_MS :: int where "REFRESH_INTERVAL_MS = 30000"
definition SESSION_TIMEOUT_MS :: int where "SESSION_TIMEOUT_MS = 30000"
definition ZNODE_BUF_MAX_LEN :: nat where "ZNODE_BUF_MAX_LEN = 10240"

definition request :: "zk_request \<Rightarrow> Zookeeper \<Rightarrow> Zookeeper" where
  "request r z = z\<lparr>z_tick := z_tick z + 1, z_log := z_log z @ [r]\<rparr>"

definition Zookeeper_new :: "zk_lib \<Rightarrow> Zookeeper" where
  "Zookeeper_new lib =
     \<lparr>z_lib = lib, z_tick = 0, z_log = [], m_zookeeper_urls = [], m_kafka_chroot_path = [], m_logkafka_id = [],
      m_log_config = ''{}'', m_broker_urls = [], m_config_logkafka_id_path = [], m_client_logkafka_id_path = [],
      m_broker_ids_path = [], m_logkafka_config_path = [], m_logkafka_client_path = [],
      m_session_timeout_ms = SESSION_TIMEOUT_MS, m_registered = False, m_zhandle = False, m_zk_log_fp = False,
      m_thread = False, m_loop = False, m_refresh_timer_trigger = None, m_exit_handle = None\<rparr>"

section \<open>Connection\<close>

definition Zookeeper_connect :: "Zookeeper \<Rightarrow> bool \<times> Zookeeper" where
  "Zookeeper_connect z =
     (let z1 = (if m_zhandle z then request Zclose (z\<lparr>m_zhandle := False\<rparr>) else z);
          ok = zl_init (z_lib z1) (z_tick z1)
      in (ok, (request (Zinit (m_zookeeper_urls z1)) z1)\<lparr>m_zhandle := ok\<rparr>))"

definition refreshConnection :: "Zookeeper \<Rightarrow> bool \<times> Zookeeper" where
  "refreshConnection z =
     (if \<not> m_zhandle z \<or> zl_state (z_lib z) (z_tick z) = ZOO_EXPIRED_SESSION_STATE then Zookeeper_connect z
      else (True, z))"

section \<open>Nodes\<close>

text \<open>The parents of a path: what stands before a slash that is not the first character.\<close>

function parent_paths :: "string \<Rightarrow> nat \<Rightarrow> string list" where
  "parent_paths path start_pos =
     (case str_find path ''/'' start_pos of
        None \<Rightarrow> []
      | Some pos \<Rightarrow> take pos path # parent_paths path (pos + 1))"
  by pat_completeness auto
termination
proof (relation "measure (\<lambda>(path, start_pos). Suc (length path) - start_pos)")
  fix path start_pos pos assume "str_find path ''/'' start_pos = Some pos"
  then show "((path, pos + 1), path, start_pos) \<in> measure (\<lambda>(path, start_pos). Suc (length path) - start_pos)"
    using str_find_Some(1,2) [of path "''/''" start_pos pos] by simp
qed simp

declare parent_paths.simps [simp del]

definition create_parent :: "string \<Rightarrow> Zookeeper \<Rightarrow> Zookeeper" where
  "create_parent path z = request (Zcreate path False) z"

definition ensurePathExist :: "string \<Rightarrow> Zookeeper \<Rightarrow> bool \<times> Zookeeper" where
  "ensurePathExist path z =
     (if \<not> m_zhandle z then (False, z)
      else let z1 = request (Zexists path) z
           in if fst (zl_exists (z_lib z) (z_tick z) path) = ZOK then (True, z1)
              else let z2 = fold create_parent (parent_paths path 1) z1;
                       ret = zl_create (z_lib z2) (z_tick z2) path
                   in (ret = ZOK \<or> ret = ZNODEEXISTS, request (Zcreate path False) z2))"

text \<open>
  The buffer has the size \<open>zoo_exists\<close> told, or a fixed one, and the data is the C string in it.
\<close>

definition getZnodeData :: "string \<Rightarrow> Zookeeper \<Rightarrow> string option \<times> Zookeeper" where
  "getZnodeData path z =
     (if \<not> m_zhandle z then (None, z)
      else let (status, dataLength) = zl_exists (z_lib z) (z_tick z) path;
               len = (if status = ZOK then dataLength else ZNODE_BUF_MAX_LEN);
               z1 = request (Zexists path) z
           in case zl_get (z_lib z1) (z_tick z1) path of
                (status2, bytes, _) \<Rightarrow>
                  (if status2 = ZOK then Some (cstr (take len bytes)) else None, request (Zget path) z1))"

definition setWatcher :: "string \<Rightarrow> Zookeeper \<Rightarrow> bool \<times> Zookeeper" where
  "setWatcher path z =
     (if \<not> m_zhandle z then (False, z)
      else case ensurePathExist path z of
             (False, z1) \<Rightarrow> (False, z1)
           | (True, z1) \<Rightarrow> (zl_watch (z_lib z1) (z_tick z1) path = ZOK, request (Zwget path) z1))"

definition setChildrenWatcher :: "string \<Rightarrow> Zookeeper \<Rightarrow> bool \<times> Zookeeper" where
  "setChildrenWatcher path z =
     (if \<not> m_zhandle z then (False, z)
      else case ensurePathExist path z of
             (False, z1) \<Rightarrow> (False, z1)
           | (True, z1) \<Rightarrow> (zl_watch (z_lib z1) (z_tick z1) path = ZOK, request (Zwget_children path) z1))"

text \<open>
  The node of this process: a persistent one is deleted, one of another process ends this
  process, and a missing one is created.
\<close>

definition register_client :: "Zookeeper \<Rightarrow> (bool \<times> Zookeeper) res" where
  "register_client z =
     (let path = m_client_logkafka_id_path z; z1 = request (Zget path) z
      in case zl_get (z_lib z) (z_tick z) path of
           (status, _, ephemeralOwner) \<Rightarrow>
             if status = ZOK then
               if ephemeralOwner = 0 then
                 Inr (zl_delete (z_lib z1) (z_tick z1) path = ZOK, request (Zdelete path) z1)
               else if \<not> m_registered z then Inl Exit_failure
               else Inr (True, z1)
             else if zl_create (z_lib z1) (z_tick z1) path \<noteq> ZOK then Inr (False, request (Zcreate path True) z1)
             else Inr (True, (request (Zcreate path True) z1)\<lparr>m_registered := True\<rparr>))"

definition Zookeeper_refreshWatchers :: "Zookeeper \<Rightarrow> (bool \<times> Zookeeper) res" where
  "Zookeeper_refreshWatchers z =
     (case setWatcher (m_config_logkafka_id_path z) z of
        (False, z1) \<Rightarrow> Inr (False, z1)
      | (True, z1) \<Rightarrow>
          (case setChildrenWatcher (m_broker_ids_path z1) z1 of
             (False, z2) \<Rightarrow> Inr (False, z2)
           | (True, z2) \<Rightarrow>
               (case ensurePathExist (m_logkafka_client_path z2) z2 of
                  (False, z3) \<Rightarrow> Inr (False, z3)
                | (True, z3) \<Rightarrow> register_client z3)))"

section \<open>Configuration and brokers\<close>

definition refreshLogConfig :: "Zookeeper \<Rightarrow> bool \<times> Zookeeper" where
  "refreshLogConfig z =
     (case getZnodeData (m_config_logkafka_id_path z) z of
        (None, z1) \<Rightarrow> (False, z1)
      | (Some d, z1) \<Rightarrow> (True, z1\<lparr>m_log_config := d\<rparr>))"

definition getBrokerIds :: "Zookeeper \<Rightarrow> string list option \<times> Zookeeper" where
  "getBrokerIds z =
     (if \<not> m_zhandle z then (None, z)
      else case zl_children (z_lib z) (z_tick z) (m_broker_ids_path z) of
             (ret, ids) \<Rightarrow>
               (if ret = ZOK then Some (map cstr ids) else None, request (Zget_children (m_broker_ids_path z)) z))"

text \<open>The host and port of the JSON text of a broker.\<close>

definition broker_addr :: "(string \<Rightarrow> json option) \<Rightarrow> string \<Rightarrow> (string \<times> string) option" where
  "broker_addr parse brokerinfo =
     (case parse (cstr brokerinfo) of
        None \<Rightarrow> None
      | Some document \<Rightarrow>
          if \<not> IsObject document then None
          else case getValue_string document (Some ''host'') of
                 Inl err \<Rightarrow> None
               | Inr host \<Rightarrow>
                   (case getValue_int32 document (Some ''port'') of
                      Inl err \<Rightarrow> None
                    | Inr port_int \<Rightarrow> Some (host, int2Str port_int)))"

definition getBrokerIpAndPort :: "string \<Rightarrow> Zookeeper \<Rightarrow> (string \<times> string) option \<times> Zookeeper" where
  "getBrokerIpAndPort brokerid z =
     (case getZnodeData (m_broker_ids_path z @ ''/'' @ brokerid) z of
        (None, z1) \<Rightarrow> (None, z1)
      | (Some brokerinfo, z1) \<Rightarrow> (broker_addr (zl_json (z_lib z1)) brokerinfo, z1))"

text \<open>The list is built in place, so a broker that cannot be read leaves the ones before it.\<close>

fun append_brokers :: "string list \<Rightarrow> bool \<Rightarrow> Zookeeper \<Rightarrow> bool \<times> Zookeeper" where
  "append_brokers [] first z = (True, z)"
| "append_brokers (bid # ids) first z =
     (case getBrokerIpAndPort bid z of
        (None, z1) \<Rightarrow> (False, z1)
      | (Some (host, port), z1) \<Rightarrow>
          append_brokers ids False
            (z1\<lparr>m_broker_urls := m_broker_urls z1 @ (if first then [] else '','') @ host @ '':'' @ port\<rparr>))"

definition refreshBrokerUrls :: "Zookeeper \<Rightarrow> bool \<times> Zookeeper" where
  "refreshBrokerUrls z =
     (case getBrokerIds z of
        (None, z1) \<Rightarrow> (False, z1)
      | (Some ids, z1) \<Rightarrow> append_brokers ids True (z1\<lparr>m_broker_urls := []\<rparr>))"

definition getLogConfig :: "Zookeeper \<Rightarrow> string" where
  "getLogConfig z = m_log_config z"

definition getBrokerUrls :: "Zookeeper \<Rightarrow> string" where
  "getBrokerUrls z = m_broker_urls z"

section \<open>Refreshing\<close>

definition Zookeeper_refresh :: "Zookeeper \<Rightarrow> Zookeeper res" where
  "Zookeeper_refresh z =
     (case refreshConnection z of
        (False, z1) \<Rightarrow> Inr z1
      | (True, z1) \<Rightarrow>
          bindR (Zookeeper_refreshWatchers (snd (refreshBrokerUrls z1))) (\<lambda>(_, z2). Inr (snd (refreshLogConfig z2))))"

definition globalWatcher :: "int \<Rightarrow> int \<Rightarrow> Zookeeper \<Rightarrow> Zookeeper res" where
  "globalWatcher type state z =
     (if type = ZOO_SESSION_EVENT \<and> state = ZOO_EXPIRED_SESSION_STATE then Zookeeper_refresh z else Inr z)"

definition brokerChangeWatcher :: "int \<Rightarrow> Zookeeper \<Rightarrow> Zookeeper res" where
  "brokerChangeWatcher type z =
     bindR (Zookeeper_refreshWatchers z) (\<lambda>(_, z1).
       Inr (if type \<noteq> ZOO_SESSION_EVENT then snd (refreshBrokerUrls z1) else z1))"

definition configChangeWatcher :: "int \<Rightarrow> Zookeeper \<Rightarrow> Zookeeper res" where
  "configChangeWatcher type z =
     bindR (Zookeeper_refreshWatchers z) (\<lambda>(_, z1).
       Inr (if type \<noteq> ZOO_SESSION_EVENT then snd (refreshLogConfig z1) else z1))"

definition setLogState :: "bool \<Rightarrow> string \<Rightarrow> Zookeeper \<Rightarrow> bool \<times> Zookeeper" where
  "setLogState strndup_ok buf z =
     (if \<not> m_zhandle z then (False, z)
      else if \<not> strndup_ok then (False, z)
      else (zl_aset (z_lib z) (z_tick z) (m_client_logkafka_id_path z) = ZOK,
            request (Zaset (m_client_logkafka_id_path z) buf) z))"

section \<open>Start and stop\<close>

text \<open>The flags tell whether the event loop and its timer could be initialised.\<close>

definition Zookeeper_init :: "bool \<Rightarrow> bool \<Rightarrow> string \<Rightarrow> string \<Rightarrow> string \<Rightarrow> Zookeeper \<Rightarrow> (bool \<times> Zookeeper) res" where
  "Zookeeper_init loop_ok timer_ok urls chroot lk_id z =
     (let client = chroot @ ''/logkafka/client''; config = chroot @ ''/logkafka/config'';
          z1 = z\<lparr>m_zookeeper_urls := urls, m_kafka_chroot_path := chroot, m_logkafka_id := lk_id, m_zk_log_fp := True,
                 m_broker_ids_path := chroot @ ''/brokers/ids'', m_logkafka_config_path := config,
                 m_logkafka_client_path := client, m_client_logkafka_id_path := client @ ''/'' @ lk_id,
                 m_config_logkafka_id_path := config @ ''/'' @ lk_id\<rparr>
      in bindR (Zookeeper_refresh z1) (\<lambda>z2.
           let z3 = z2\<lparr>m_loop := True\<rparr>
           in if \<not> loop_ok then Inr (False, z3)
              else if \<not> timer_ok then Inr (False, z3\<lparr>m_refresh_timer_trigger := None, m_exit_handle := Some True\<rparr>)
              else Inr (True, z3\<lparr>m_thread := True, m_refresh_timer_trigger := Some True, m_exit_handle := Some True\<rparr>)))"

definition Zookeeper_close :: "Zookeeper \<Rightarrow> Zookeeper res" where
  "Zookeeper_close z =
     (if m_refresh_timer_trigger z = None then Inl Null_deref
      else let z1 = z\<lparr>m_refresh_timer_trigger := Some False\<rparr>;
               z2 = (if m_zhandle z1 then request Zclose (z1\<lparr>m_zhandle := False\<rparr>) else z1)
           in Inr (z2\<lparr>m_zk_log_fp := False\<rparr>))"

text \<open>The callback of the async handle that \<open>close\<close> signals.\<close>

definition Zookeeper_exitAsyncCb :: "Zookeeper \<Rightarrow> Zookeeper" where
  "Zookeeper_exitAsyncCb z = z\<lparr>m_exit_handle := Some False\<rparr>"

definition state2String :: "int \<Rightarrow> string" where
  "state2String state =
     (if state = 0 then ''CLOSED_STATE''
      else if state = ZOO_CONNECTING_STATE then ''CONNECTING_STATE''
      else if state = ZOO_ASSOCIATING_STATE then ''ASSOCIATING_STATE''
      else if state = ZOO_CONNECTED_STATE then ''CONNECTED_STATE''
      else if state = ZOO_EXPIRED_SESSION_STATE then ''EXPIRED_SESSION_STATE''
      else if state = ZOO_AUTH_FAILED_STATE then ''AUTH_FAILED_STATE''
      else ''INVALID_STATE'')"

definition event2String :: "int \<Rightarrow> string" where
  "event2String ev =
     (if ev = 0 then ''ZOO_ERROR_EVENT''
      else if ev = 1 then ''ZOO_CREATED_EVENT''
      else if ev = 2 then ''ZOO_DELETED_EVENT''
      else if ev = 3 then ''ZOO_CHANGED_EVENT''
      else if ev = 4 then ''ZOO_CHILD_EVENT''
      else if ev = - 1 then ''ZOO_SESSION_EVENT''
      else if ev = - 2 then ''ZOO_NOTWATCHING_EVENT''
      else ''INVALID_EVENT'')"

end
