(* ===== verification/Registry.thy ===== *)
theory Registry
  imports Zookeeper
begin

text \<open>
  Properties of the ZooKeeper client: the nodes it creates, the list of brokers it builds, and when it counts itself as
  registered.
\<close>

section \<open>Creating a path\<close>

text \<open>The slashes of a path behind its first character, as indices.\<close>

definition slashes :: "string \<Rightarrow> nat \<Rightarrow> nat list" where
  "slashes path from = filter (\<lambda>i. path ! i = CHR ''/'') [from..<length path]"

lemma parent_paths_slashes: "parent_paths path from = map (\<lambda>i. take i path) (slashes path from)"
proof (induction path "from" rule: parent_paths.induct)
  case (1 path "from")
  have none: "filter (\<lambda>i. path ! i = CHR ''/'') [from..<n] = []"
    if "n \<le> length path" "\<forall>i. from \<le> i \<longrightarrow> i < n \<longrightarrow> \<not> prefixed ''/'' (drop i path)" for n
    using that by (auto simp: filter_empty_conv prefixed_char)
  show ?case
  proof (cases "str_find path ''/'' from")
    case None
    then have "slashes path from = []"
      using none [of "length path"] str_find_None [OF None] by (simp add: slashes_def)
    then show ?thesis using None by (simp add: parent_paths.simps [of path "from"])
  next
    case (Some pos)
    have pos: "from \<le> pos" "pos < length path" "path ! pos = CHR ''/''"
      using str_find_Some(1-3) [OF Some] by (auto simp: prefixed_char)
    then have "[from..<length path] = [from..<pos] @ pos # [Suc pos..<length path]"
      using upt_add_eq_append [of "from" pos "length path - pos"] by (simp add: upt_conv_Cons)
    moreover have "filter (\<lambda>i. path ! i = CHR ''/'') [from..<pos] = []"
      using none [of pos] pos(2) str_find_Some(4) [OF Some] by simp
    ultimately have "slashes path from = pos # slashes path (pos + 1)"
      using pos(3) by (simp add: slashes_def)
    then show ?thesis using Some 1 by (simp add: parent_paths.simps [of path "from"])
  qed
qed

text \<open>What an operation that does not register keeps.\<close>

definition keeps_reg :: "Zookeeper \<Rightarrow> Zookeeper \<Rightarrow> bool" where
  "keeps_reg z z' \<longleftrightarrow>
     z_lib z' = z_lib z \<and> m_registered z' = m_registered z \<and> m_client_logkafka_id_path z' = m_client_logkafka_id_path z \<and>
     m_broker_ids_path z' = m_broker_ids_path z \<and> m_logkafka_client_path z' = m_logkafka_client_path z \<and>
     (\<exists>l. z_log z' = z_log z @ l \<and> z_tick z' = z_tick z + length l \<and> (\<forall>p. Zcreate p True \<notin> set l))"

lemma keeps_reg_refl [simp]: "keeps_reg z z"
  by (simp add: keeps_reg_def)

lemma keeps_reg_trans [trans]: "keeps_reg a b \<Longrightarrow> keeps_reg b c \<Longrightarrow> keeps_reg a c"
  by (auto simp: keeps_reg_def)

lemma request_simps [simp]:
  "z_lib (request r z) = z_lib z" "m_registered (request r z) = m_registered z" "m_zhandle (request r z) = m_zhandle z"
  "m_client_logkafka_id_path (request r z) = m_client_logkafka_id_path z" "m_broker_ids_path (request r z) = m_broker_ids_path z"
  "m_logkafka_client_path (request r z) = m_logkafka_client_path z" "m_broker_urls (request r z) = m_broker_urls z"
  "z_log (request r z) = z_log z @ [r]" "z_tick (request r z) = Suc (z_tick z)"
  by (simp_all add: request_def)

lemma keeps_reg_request: "keeps_reg z z' \<Longrightarrow> \<forall>p. r \<noteq> Zcreate p True \<Longrightarrow> keeps_reg z (request r z')"
  by (auto simp: keeps_reg_def)

lemma create_parents:
  "z_log (fold create_parent ps z) = z_log z @ map (\<lambda>p. Zcreate p False) ps" "keeps_reg z (fold create_parent ps z)"
  "z_tick (fold create_parent ps z) = z_tick z + length ps" "z_lib (fold create_parent ps z) = z_lib z"
  by (induction ps arbitrary: z) (auto simp: create_parent_def keeps_reg_def)

text \<open>
  C28: \<open>ensurePathExist\<close> for a path the server does not have asks for every parent, from the root
  down, and then for the path itself, each exactly once, and answers whether the last request found or made the node. The
  loop over the slashes ends for every path.
\<close>

theorem ensurePathExist_creates:
  assumes "m_zhandle z" and "fst (zl_exists (z_lib z) (z_tick z) path) \<noteq> ZOK"
  shows "z_log (snd (ensurePathExist path z)) =
      z_log z @ [Zexists path] @
      map (\<lambda>i. Zcreate (take i path) False) (filter (\<lambda>i. path ! i = CHR ''/'') [1..<length path]) @ [Zcreate path False] \<and>
    fst (ensurePathExist path z) = (
      zl_create (z_lib z) (Suc (z_tick z) + length (filter (\<lambda>i. path ! i = CHR ''/'') [1..<length path])) path \<in> {ZOK, ZNODEEXISTS})"
  using assms
  by (simp add: ensurePathExist_def Let_def create_parents parent_paths_slashes slashes_def comp_def)

section \<open>The list of brokers\<close>

text \<open>What the servers tell of a broker when it is asked for at a given call.\<close>

definition broker_at :: "Zookeeper \<Rightarrow> nat \<Rightarrow> string \<Rightarrow> (string \<times> string) option" where
  "broker_at z n bid = fst (getBrokerIpAndPort bid (z\<lparr>z_tick := n, m_zhandle := True\<rparr>))"

definition more_urls :: "(string \<times> string) list \<Rightarrow> string" where
  "more_urls as = concat (map (\<lambda>(host, port). '','' @ host @ '':'' @ port) as)"

fun urls_of :: "(string \<times> string) list \<Rightarrow> string" where
  "urls_of [] = []"
| "urls_of ((host, port) # as) = host @ '':'' @ port @ more_urls as"

fun brokers_at :: "Zookeeper \<Rightarrow> nat \<Rightarrow> string list \<Rightarrow> (string \<times> string) option list" where
  "brokers_at z n [] = []"
| "brokers_at z n (bid # ids) = broker_at z n bid # brokers_at z (n + 2) ids"

lemma getBrokerIpAndPort_at:
  assumes "m_zhandle z"
  shows "fst (getBrokerIpAndPort bid z) = broker_at z (z_tick z) bid"
    and "\<exists>l. snd (getBrokerIpAndPort bid z) = z\<lparr>z_tick := z_tick z + 2, z_log := l\<rparr>"
  using assms
  by (auto simp: broker_at_def getBrokerIpAndPort_def getZnodeData_def request_def Let_def split: prod.split option.split)

lemma broker_at_same: "broker_at (z\<lparr>z_tick := n, z_log := l, m_broker_urls := u\<rparr>) = broker_at z"
  by (intro ext) (simp add: broker_at_def getBrokerIpAndPort_def getZnodeData_def request_def Let_def split: prod.split option.split)

text \<open>The brokers that could be read before the first one that could not.\<close>

definition readable :: "(string \<times> string) option list \<Rightarrow> (string \<times> string) list" where
  "readable as = map the (takeWhile (\<lambda>a. a \<noteq> None) as)"

lemma brokers_at_same: "brokers_at (z\<lparr>z_tick := n, z_log := l, m_broker_urls := u\<rparr>) k ids = brokers_at z k ids"
  by (induction ids arbitrary: k) (simp_all add: broker_at_same)

lemma append_brokers_spec:
  assumes "m_zhandle z"
  shows "fst (append_brokers ids first z) = (None \<notin> set (brokers_at z (z_tick z) ids)) \<and>
    m_broker_urls (snd (append_brokers ids first z)) = m_broker_urls z @
      (if first then urls_of (readable (brokers_at z (z_tick z) ids))
       else more_urls (readable (brokers_at z (z_tick z) ids)))"
  using assms
proof (induction ids arbitrary: first z)
  case Nil
  then show ?case by (simp add: readable_def more_urls_def)
next
  case (Cons bid ids)
  obtain l where after: "snd (getBrokerIpAndPort bid z) = z\<lparr>z_tick := z_tick z + 2, z_log := l\<rparr>"
    using getBrokerIpAndPort_at(2) [OF Cons.prems] by blast
  show ?case
  proof (cases "broker_at z (z_tick z) bid")
    case None
    then have "getBrokerIpAndPort bid z = (None, z\<lparr>z_tick := z_tick z + 2, z_log := l\<rparr>)"
      using after getBrokerIpAndPort_at(1) [OF Cons.prems, of bid] by (metis prod.collapse)
    then show ?thesis using None by (simp add: readable_def more_urls_def)
  next
    case (Some a)
    obtain host port where a: "a = (host, port)" by (cases a)
    have got: "getBrokerIpAndPort bid z = (Some (host, port), z\<lparr>z_tick := z_tick z + 2, z_log := l\<rparr>)"
      using Some a after getBrokerIpAndPort_at(1) [OF Cons.prems, of bid] by (metis prod.collapse)
    let ?u = "m_broker_urls z @ (if first then [] else '','') @ host @ '':'' @ port"
    let ?z = "z\<lparr>z_tick := z_tick z + 2, z_log := l, m_broker_urls := ?u\<rparr>"
    have "append_brokers (bid # ids) first z = append_brokers ids False ?z" by (simp add: got)
    then show ?thesis
      using Cons.IH [of ?z False] Cons.prems Some a
      by (simp add: brokers_at_same readable_def more_urls_def)
  qed
qed

text \<open>
  C27: The list of brokers is built from what the servers tell, in the order of the ids: host and port
  of every broker, separated by commas. When a broker cannot be read, the refresh fails, and the list is
  left with the brokers before it: the complete list of the last refresh is gone.
\<close>

theorem refreshBrokerUrls_spec:
  assumes "m_zhandle z" and "zl_children (z_lib z) (z_tick z) (m_broker_ids_path z) = (ZOK, ids)"
  shows "fst (refreshBrokerUrls z) = (None \<notin> set (brokers_at z (z_tick z + 1) (map cstr ids))) \<and>
    getBrokerUrls (snd (refreshBrokerUrls z)) = urls_of (readable (brokers_at z (z_tick z + 1) (map cstr ids)))"
proof -
  let ?z = "(request (Zget_children (m_broker_ids_path z)) z)\<lparr>m_broker_urls := []\<rparr>"
  have z: "?z = z\<lparr>z_tick := z_tick z + 1, z_log := z_log z @ [Zget_children (m_broker_ids_path z)], m_broker_urls := []\<rparr>"
    by (simp add: request_def)
  have "refreshBrokerUrls z = append_brokers (map cstr ids) True ?z"
    using assms by (simp add: refreshBrokerUrls_def getBrokerIds_def)
  then show ?thesis
    using append_brokers_spec [of ?z "map cstr ids" True] assms(1) unfolding z brokers_at_same
    by (simp add: getBrokerUrls_def)
qed

section \<open>Registration\<close>

lemma keeps_reg_ensure: "keeps_reg z (snd (ensurePathExist path z))"
proof (cases "m_zhandle z \<and> fst (zl_exists (z_lib z) (z_tick z) path) \<noteq> ZOK")
  case True
  let ?z1 = "request (Zexists path) z"
  have "keeps_reg z ?z1" by (rule keeps_reg_request) simp_all
  also have "keeps_reg ?z1 (fold create_parent (parent_paths path 1) ?z1)" by (rule create_parents)
  also have "keeps_reg (fold create_parent (parent_paths path 1) ?z1)
      (request (Zcreate path False) (fold create_parent (parent_paths path 1) ?z1))"
    by (rule keeps_reg_request) simp_all
  finally show ?thesis using True by (simp add: ensurePathExist_def Let_def)
qed (auto simp: ensurePathExist_def intro: keeps_reg_request)

lemma keeps_reg_setWatcher: "keeps_reg z (snd (setWatcher path z))"
  using keeps_reg_ensure [of z path]
  by (auto simp: setWatcher_def split: prod.split bool.split intro: keeps_reg_request)

lemma keeps_reg_setChildrenWatcher: "keeps_reg z (snd (setChildrenWatcher path z))"
  using keeps_reg_ensure [of z path]
  by (auto simp: setChildrenWatcher_def split: prod.split bool.split intro: keeps_reg_request)

lemma keeps_reg_getZnodeData: "keeps_reg z (snd (getZnodeData path z))"
  by (auto simp: getZnodeData_def keeps_reg_def Let_def split: prod.split)

lemma keeps_reg_upd [simp]: "keeps_reg z (z'\<lparr>m_log_config := c\<rparr>) = keeps_reg z z'" "keeps_reg z (z'\<lparr>m_broker_urls := u\<rparr>) = keeps_reg z z'"
  "keeps_reg (z\<lparr>m_broker_urls := u\<rparr>) z' = keeps_reg z z'" "keeps_reg z (z'\<lparr>m_zhandle := b\<rparr>) = keeps_reg z z'"
  by (simp_all add: keeps_reg_def)

lemma keeps_reg_config: "keeps_reg z (snd (refreshLogConfig z))"
  using keeps_reg_getZnodeData [of z "m_config_logkafka_id_path z"]
  by (auto simp: refreshLogConfig_def split: prod.split option.split)

lemma keeps_reg_broker: "keeps_reg z (snd (getBrokerIpAndPort bid z))"
  using keeps_reg_getZnodeData [of z "m_broker_ids_path z @ ''/'' @ bid"]
  by (auto simp: getBrokerIpAndPort_def split: prod.split option.split)

lemma keeps_reg_brokers: "keeps_reg z (snd (append_brokers ids first z))"
proof (induction ids arbitrary: first z)
  case (Cons bid ids)
  obtain a z1 where g: "getBrokerIpAndPort bid z = (a, z1)" by (cases "getBrokerIpAndPort bid z")
  then have z1: "keeps_reg z z1" using keeps_reg_broker [of z bid] by simp
  show ?case
  proof (cases a)
    case (Some hp)
    obtain host port where hp: "hp = (host, port)" by (cases hp)
    let ?z2 = "z1\<lparr>m_broker_urls := m_broker_urls z1 @ (if first then [] else '','') @ host @ '':'' @ port\<rparr>"
    have "keeps_reg z1 (snd (append_brokers ids False ?z2))" using Cons.IH [of ?z2 False] by (simp only: keeps_reg_upd)
    then show ?thesis using keeps_reg_trans [OF z1] by (simp add: g Some hp)
  qed (simp add: g z1)
qed simp

lemma keeps_reg_urls: "keeps_reg z (snd (refreshBrokerUrls z))"
proof -
  obtain ids z1 where g: "getBrokerIds z = (ids, z1)" by (cases "getBrokerIds z")
  then have z1: "keeps_reg z z1"
    by (auto simp: getBrokerIds_def split: prod.splits if_splits intro: keeps_reg_request)
  have "keeps_reg z1 (snd (append_brokers l True (z1\<lparr>m_broker_urls := []\<rparr>)))" for l
    using keeps_reg_brokers [of "z1\<lparr>m_broker_urls := []\<rparr>"] by (simp only: keeps_reg_upd)
  then show ?thesis
    using z1 keeps_reg_trans [OF z1] by (cases ids) (simp_all add: refreshBrokerUrls_def g)
qed

lemma keeps_reg_connection: "keeps_reg z (snd (refreshConnection z))"
  by (auto simp: refreshConnection_def Zookeeper_connect_def Let_def keeps_reg_def)

text \<open>
  The servers confirmed that the node of this process was created. The log tells the requests, and a request has the
  number of its place in the log.
\<close>

definition created :: "Zookeeper \<Rightarrow> bool" where
  "created z \<longleftrightarrow>
     (\<exists>i < length (z_log z). z_log z ! i = Zcreate (m_client_logkafka_id_path z) True \<and>
        zl_create (z_lib z) i (m_client_logkafka_id_path z) = ZOK)"

definition reg_inv :: "Zookeeper \<Rightarrow> bool" where
  "reg_inv z \<longleftrightarrow> z_tick z = length (z_log z) \<and> m_registered z = created z"

lemma created_append:
  assumes "z_log z' = z_log z @ l" and "\<forall>p. Zcreate p True \<notin> set l" and "z_lib z' = z_lib z"
    and "m_client_logkafka_id_path z' = m_client_logkafka_id_path z"
  shows "created z' = created z"
proof -
  have "(z_log z @ l) ! i \<noteq> Zcreate p True" if "\<not> i < length (z_log z)" "i < length (z_log z @ l)" for i p
    using that assms(2) by (auto simp: nth_append in_set_conv_nth)
  then show ?thesis using assms unfolding created_def
    by (metis length_append nth_append trans_less_add1)
qed

lemma reg_inv_kept: "reg_inv z \<Longrightarrow> keeps_reg z z' \<Longrightarrow> reg_inv z'"
  using created_append [of z' z] by (auto simp: reg_inv_def keeps_reg_def)

lemma ex_nth_snoc: "(\<exists>i < length (xs @ [a]). Q i ((xs @ [a]) ! i)) = ((\<exists>i < length xs. Q i (xs ! i)) \<or> Q (length xs) a)"
  by (simp add: Ex_less_Suc nth_append cong: conj_cong) blast

lemma created_snoc:
  assumes "z_log z' = z_log z @ [Zcreate (m_client_logkafka_id_path z) True]" and "z_lib z' = z_lib z"
    and "m_client_logkafka_id_path z' = m_client_logkafka_id_path z"
  shows "created z' = (created z \<or> zl_create (z_lib z) (length (z_log z)) (m_client_logkafka_id_path z) = ZOK)"
  unfolding created_def assms
  using ex_nth_snoc [of "z_log z" "Zcreate (m_client_logkafka_id_path z) True"
      "\<lambda>i r. r = Zcreate (m_client_logkafka_id_path z) True \<and> zl_create (z_lib z) i (m_client_logkafka_id_path z) = ZOK"]
  by simp

lemma reg_inv_register:
  assumes "reg_inv z" and "register_client z = Inr (b, z')"
  shows "reg_inv z'"
proof -
  let ?path = "m_client_logkafka_id_path z" and ?z1 = "request (Zget (m_client_logkafka_id_path z)) z"
  let ?z2 = "request (Zcreate ?path True) ?z1"
  have z1: "reg_inv ?z1" using reg_inv_kept [OF assms(1) keeps_reg_request] by simp
  have del: "reg_inv (request (Zdelete ?path) ?z1)" using reg_inv_kept [OF z1 keeps_reg_request] by simp
  have "created ?z2 = (created ?z1 \<or> zl_create (z_lib z) (z_tick ?z1) ?path = ZOK)"
    using created_snoc [of ?z2 ?z1] z1 by (simp add: reg_inv_def)
  then have "reg_inv (if zl_create (z_lib z) (z_tick ?z1) ?path = ZOK then ?z2\<lparr>m_registered := True\<rparr> else ?z2)"
    using z1 created_append [of "?z2\<lparr>m_registered := True\<rparr>" ?z2 "[]"] by (auto simp: reg_inv_def)
  then show ?thesis
    using assms(2) z1 del by (auto simp: register_client_def Let_def split: prod.splits if_splits)
qed

lemma watchers_register:
  obtains z1 b where "keeps_reg z z1"
    and "Zookeeper_refreshWatchers z = (if b then register_client z1 else Inr (False, z1))"
proof -
  obtain b1 z1 where s1: "setWatcher (m_config_logkafka_id_path z) z = (b1, z1)" by fastforce
  have k1: "keeps_reg z z1" using keeps_reg_setWatcher [of z "m_config_logkafka_id_path z"] s1 by simp
  obtain b2 z2 where s2: "setChildrenWatcher (m_broker_ids_path z1) z1 = (b2, z2)" by fastforce
  have k2: "keeps_reg z z2" using keeps_reg_trans [OF k1] keeps_reg_setChildrenWatcher [of z1 "m_broker_ids_path z1"] s2 by simp
  obtain b3 z3 where s3: "ensurePathExist (m_logkafka_client_path z2) z2 = (b3, z3)" by fastforce
  have k3: "keeps_reg z z3" using keeps_reg_trans [OF k2] keeps_reg_ensure [of z2 "m_logkafka_client_path z2"] s3 by simp
  show thesis
    using that [OF k1, of False] that [OF k2, of False] that [OF k3, of b3] s1 s2 s3
    by (cases b1; cases b2; cases b3) (simp_all add: Zookeeper_refreshWatchers_def)
qed

lemma reg_inv_watchers:
  assumes "reg_inv z" and "Zookeeper_refreshWatchers z = Inr (b, z')"
  shows "reg_inv z'"
proof -
  obtain z1 c where z1: "keeps_reg z z1" "Zookeeper_refreshWatchers z = (if c then register_client z1 else Inr (False, z1))"
    by (rule watchers_register)
  have "reg_inv z1" using reg_inv_kept [OF assms(1) z1(1)] .
  then show ?thesis using assms(2) z1(2) reg_inv_register [of z1 b z'] by (cases c) simp_all
qed

lemma registered_watchers:
  assumes "m_registered z"
  shows "\<exists>b z'. Zookeeper_refreshWatchers z = Inr (b, z')"
proof -
  obtain z1 c where "keeps_reg z z1" "Zookeeper_refreshWatchers z = (if c then register_client z1 else Inr (False, z1))"
    by (rule watchers_register)
  then show ?thesis using assms by (auto simp: register_client_def keeps_reg_def Let_def split: prod.split)
qed

lemma reg_inv_refresh: "reg_inv z \<Longrightarrow> Zookeeper_refresh z = Inr z' \<Longrightarrow> reg_inv z'"
  using reg_inv_kept [OF _ keeps_reg_connection] reg_inv_kept [OF _ keeps_reg_urls] reg_inv_kept [OF _ keeps_reg_config]
    reg_inv_watchers
  by (fastforce simp: Zookeeper_refresh_def split: prod.splits bool.splits elim!: bindR_InrE)

section \<open>The life of the client\<close>

text \<open>What can happen to a client: its timer, the events of the library, a report, and its end.\<close>

inductive zk_step :: "Zookeeper \<Rightarrow> Zookeeper \<Rightarrow> bool" where
  timer: "Zookeeper_refresh z = Inr z' \<Longrightarrow> zk_step z z'"
| session: "globalWatcher type state z = Inr z' \<Longrightarrow> zk_step z z'"
| brokers: "brokerChangeWatcher type z = Inr z' \<Longrightarrow> zk_step z z'"
| config: "configChangeWatcher type z = Inr z' \<Longrightarrow> zk_step z z'"
| report: "setLogState dup buf z = (b, z') \<Longrightarrow> zk_step z z'"
| closing: "Zookeeper_close z = Inr z' \<Longrightarrow> zk_step z z'"
| exit: "zk_step z (Zookeeper_exitAsyncCb z)"

inductive zk_reach :: "zk_lib \<Rightarrow> Zookeeper \<Rightarrow> bool" for lib where
  start: "Zookeeper_init loop_ok timer_ok urls chroot lk_id (Zookeeper_new lib) = Inr (b, z) \<Longrightarrow> zk_reach lib z"
| step: "zk_reach lib z \<Longrightarrow> zk_step z z' \<Longrightarrow> zk_reach lib z'"

inductive_cases zk_stepE: "zk_step z z'"

lemma reg_inv_upd [simp]:
  "reg_inv (z\<lparr>m_loop := a\<rparr>) = reg_inv z" "reg_inv (z\<lparr>m_refresh_timer_trigger := t\<rparr>) = reg_inv z"
  "reg_inv (z\<lparr>m_thread := a\<rparr>) = reg_inv z" "reg_inv (z\<lparr>m_zk_log_fp := a\<rparr>) = reg_inv z" "reg_inv (z\<lparr>m_zhandle := a\<rparr>) = reg_inv z"
  "reg_inv (z\<lparr>m_exit_handle := t\<rparr>) = reg_inv z"
  by (simp_all add: reg_inv_def created_def)

lemma reg_inv_events:
  assumes "reg_inv z"
  shows "globalWatcher type state z = Inr z' \<Longrightarrow> reg_inv z'"
    and "brokerChangeWatcher type z = Inr z' \<Longrightarrow> reg_inv z'"
    and "configChangeWatcher type z = Inr z' \<Longrightarrow> reg_inv z'"
proof -
  show "globalWatcher type state z = Inr z' \<Longrightarrow> reg_inv z'"
    using reg_inv_refresh [OF assms] assms by (auto simp: globalWatcher_def split: if_splits)
  have "reg_inv (snd (refreshBrokerUrls z1)) \<and> reg_inv (snd (refreshLogConfig z1)) \<and> reg_inv z1"
    if "Zookeeper_refreshWatchers z = Inr (b, z1)" for b z1
    using reg_inv_watchers [OF assms that] reg_inv_kept keeps_reg_urls keeps_reg_config by blast
  then show "brokerChangeWatcher type z = Inr z' \<Longrightarrow> reg_inv z'" "configChangeWatcher type z = Inr z' \<Longrightarrow> reg_inv z'"
    by (auto simp: brokerChangeWatcher_def configChangeWatcher_def elim!: bindR_InrE split: if_splits)
qed

lemma reg_inv_step: "reg_inv z \<Longrightarrow> zk_step z z' \<Longrightarrow> reg_inv z'"
proof (erule zk_stepE)
  fix dup buf b assume inv: "reg_inv z" and "setLogState dup buf z = (b, z')"
  then have "keeps_reg z z'"
    using keeps_reg_request [OF keeps_reg_refl, of "Zaset (m_client_logkafka_id_path z) buf" z]
    by (auto simp: setLogState_def split: if_splits)
  then show ?thesis using reg_inv_kept [OF inv] by blast
next
  assume inv: "reg_inv z" and "Zookeeper_close z = Inr z'"
  then have "keeps_reg z z'"
    by (auto simp: Zookeeper_close_def Let_def keeps_reg_def split: if_splits)
  then show ?thesis using reg_inv_kept [OF inv] by blast
next
  assume "reg_inv z" and "z' = Zookeeper_exitAsyncCb z"
  then show ?thesis by (simp add: Zookeeper_exitAsyncCb_def)
qed (blast intro: reg_inv_refresh reg_inv_events)+

lemma reg_inv_fresh: "z_log z = [] \<Longrightarrow> z_tick z = 0 \<Longrightarrow> \<not> m_registered z \<Longrightarrow> reg_inv z"
  by (simp add: reg_inv_def created_def)

lemma reg_inv_init:
  assumes "Zookeeper_init loop_ok timer_ok urls chroot lk_id (Zookeeper_new lib) = Inr (b, z)"
  shows "reg_inv z"
proof -
  from assms obtain z1 z2 where run: "Zookeeper_refresh z1 = Inr z2" "z_log z1 = []" "z_tick z1 = 0" "\<not> m_registered z1"
    and z: "z = z2\<lparr>m_loop := True\<rparr> \<or> z = z2\<lparr>m_loop := True, m_refresh_timer_trigger := None, m_exit_handle := Some True\<rparr> \<or>
      z = z2\<lparr>m_thread := True, m_loop := True, m_refresh_timer_trigger := Some True, m_exit_handle := Some True\<rparr>"
    unfolding Zookeeper_init_def Let_def by (auto simp: Zookeeper_new_def elim!: bindR_InrE split: if_splits)
  then have "reg_inv z2" using reg_inv_refresh reg_inv_fresh by blast
  then show ?thesis using z by auto
qed

lemma reg_inv_reach: "zk_reach lib z \<Longrightarrow> reg_inv z"
  by (induction rule: zk_reach.induct) (blast intro: reg_inv_init reg_inv_step)+

text \<open>
  C14: In every state the client can reach, it counts as registered exactly when the servers confirmed that it created its
  node. From then on no refresh ends the process, so it never takes its own node for that
  of another process.
\<close>

theorem registration_sound:
  assumes "zk_reach lib z"
  shows "m_registered z = created z \<and> (created z \<longrightarrow> (\<exists>b z'. Zookeeper_refreshWatchers z = Inr (b, z')))"
  using reg_inv_reach [OF assms] registered_watchers by (auto simp: reg_inv_def)

text \<open>
  A persistent node with the name of this process is deleted but not replaced in the same round: the round
  answers true, and this process has no node until the next refresh.
\<close>

lemma persistent_node_gap:
  assumes "zl_get (z_lib z) (z_tick z) (m_client_logkafka_id_path z) = (ZOK, bytes, 0)"
    and "zl_delete (z_lib z) (z_tick z + 1) (m_client_logkafka_id_path z) = ZOK"
  shows "\<exists>z'. register_client z = Inr (True, z') \<and> m_registered z' = m_registered z \<and>
    z_log z' = z_log z @ [Zget (m_client_logkafka_id_path z), Zdelete (m_client_logkafka_id_path z)]"
  using assms by (simp add: register_client_def Let_def)

section \<open>A small run\<close>

definition sample_zk_lib :: zk_lib where
  "sample_zk_lib =
     \<lparr>zl_init = (\<lambda>n. True), zl_state = (\<lambda>n. 3), zl_exists = (\<lambda>n p. (- 101, 0)), zl_get = (\<lambda>n p. (- 101, [], 0)),
      zl_create = (\<lambda>n p. 0), zl_delete = (\<lambda>n p. 0), zl_watch = (\<lambda>n p. 0), zl_children = (\<lambda>n p. (0, [''1'', ''2''])),
      zl_aset = (\<lambda>n p. 0), zl_json = (\<lambda>t. None)\<rparr>"

definition sample_zk :: Zookeeper where
  "sample_zk = (Zookeeper_new sample_zk_lib)\<lparr>m_zhandle := True\<rparr>"

theorem ensurePathExist_creates_witness:
  "z_log (snd (ensurePathExist ''/a/b'' sample_zk)) = [Zexists ''/a/b'', Zcreate ''/a'' False, Zcreate ''/a/b'' False]"
  using ensurePathExist_creates [of sample_zk "''/a/b''"]
  by (simp add: sample_zk_def sample_zk_lib_def Zookeeper_new_def upt_rec)

theorem refreshBrokerUrls_spec_witness:
  "fst (refreshBrokerUrls sample_zk) = False \<and> getBrokerUrls (snd (refreshBrokerUrls sample_zk)) = []"
  using refreshBrokerUrls_spec [of sample_zk "[''1'', ''2'']"]
  by (simp add: sample_zk_def sample_zk_lib_def Zookeeper_new_def broker_at_def getBrokerIpAndPort_def getZnodeData_def
      request_def readable_def Let_def)

theorem registration_sound_witness:
  "\<exists>z. zk_reach sample_zk_lib z \<and> m_registered z = created z"
proof -
  have "\<not> isl (Zookeeper_init True True ''u'' [] ''i'' (Zookeeper_new sample_zk_lib))"
    by code_simp
  then obtain b z where "Zookeeper_init True True ''u'' [] ''i'' (Zookeeper_new sample_zk_lib) = Inr (b, z)"
    by (cases "Zookeeper_init True True ''u'' [] ''i'' (Zookeeper_new sample_zk_lib)") auto
  then have "zk_reach sample_zk_lib z" by (rule zk_reach.start)
  then show ?thesis using registration_sound by blast
qed

end
