(* ===== verification/Locks.thy ===== *)
theory Locks
  imports Prelude
begin

text \<open>
  The mutex and the scoped lock of \<open>src/base/mutex.h\<close> and \<open>src/base/scoped_lock.h\<close>.
  A mutex is a plain (non-recursive) POSIX mutex, so its state is the thread that holds
  it. A thread that locks a mutex held by another waits; one that locks a mutex it holds
  itself waits forever. Both are a blocked call here, with no next state.
\<close>

type_synonym thread = nat
type_synonym mutex_id = nat

text \<open>Who holds each mutex.\<close>

type_synonym locks = "mutex_id \<Rightarrow> thread option"

definition Mutex_lock :: "thread \<Rightarrow> mutex_id \<Rightarrow> locks \<Rightarrow> locks option" where
  "Mutex_lock t m ls = (case ls m of None \<Rightarrow> Some (ls(m \<mapsto> t)) | Some _ \<Rightarrow> None)"

definition Mutex_unlock :: "mutex_id \<Rightarrow> locks \<Rightarrow> locks" where
  "Mutex_unlock m ls = ls(m := None)"

definition Mutex_trylock :: "thread \<Rightarrow> mutex_id \<Rightarrow> locks \<Rightarrow> bool \<times> locks" where
  "Mutex_trylock t m ls = (case ls m of None \<Rightarrow> (True, ls(m \<mapsto> t)) | Some _ \<Rightarrow> (False, ls))"

record ScopedLock =
  m_mutex :: mutex_id
  m_locked :: bool

definition ScopedLock_new :: "thread \<Rightarrow> mutex_id \<Rightarrow> locks \<Rightarrow> (ScopedLock \<times> locks) option" where
  "ScopedLock_new t m ls =
     (case Mutex_lock t m ls of
        None \<Rightarrow> None
      | Some ls' \<Rightarrow> Some (\<lparr>m_mutex = m, m_locked = True\<rparr>, ls'))"

definition ScopedLock_destroy :: "ScopedLock \<Rightarrow> locks \<Rightarrow> locks" where
  "ScopedLock_destroy l ls = (if m_locked l then Mutex_unlock (m_mutex l) ls else ls)"

definition ScopedLock_lock :: "thread \<Rightarrow> ScopedLock \<Rightarrow> locks \<Rightarrow> (ScopedLock \<times> locks) option" where
  "ScopedLock_lock t l ls =
     (if \<not> m_locked l then
        (case Mutex_lock t (m_mutex l) ls of
           None \<Rightarrow> None
         | Some ls' \<Rightarrow> Some (l\<lparr>m_locked := True\<rparr>, ls'))
      else Some (l, ls))"

definition ScopedLock_unlock :: "ScopedLock \<Rightarrow> locks \<Rightarrow> ScopedLock \<times> locks" where
  "ScopedLock_unlock l ls =
     (if m_locked l then (l\<lparr>m_locked := False\<rparr>, Mutex_unlock (m_mutex l) ls) else (l, ls))"

definition ScopedLock_locked :: "ScopedLock \<Rightarrow> bool" where
  "ScopedLock_locked l = m_locked l"

section \<open>Sequences of operations on one scoped lock\<close>

datatype lock_op = Op_lock | Op_unlock

fun lock_step :: "thread \<Rightarrow> lock_op \<Rightarrow> ScopedLock \<times> locks \<Rightarrow> (ScopedLock \<times> locks) option" where
  "lock_step t Op_lock (l, ls) = ScopedLock_lock t l ls"
| "lock_step t Op_unlock (l, ls) = Some (ScopedLock_unlock l ls)"

inductive lock_run :: "thread \<Rightarrow> ScopedLock \<times> locks \<Rightarrow> ScopedLock \<times> locks \<Rightarrow> bool"
  for t :: thread where
  finish: "lock_run t s s"
| step: "lock_step t op s = Some s' \<Longrightarrow> lock_run t s' s'' \<Longrightarrow> lock_run t s s''"

inductive_cases lock_runE: "lock_run t s s'"

text \<open>
  The flag of a scoped lock tells whether its mutex is held by its thread, and no other
  mutex changes hands.
\<close>

definition lock_inv :: "thread \<Rightarrow> mutex_id \<Rightarrow> locks \<Rightarrow> ScopedLock \<times> locks \<Rightarrow> bool" where
  "lock_inv t m ls0 s \<longleftrightarrow>
     m_mutex (fst s) = m \<and>
     snd s = (if m_locked (fst s) then ls0(m \<mapsto> t) else ls0(m := None))"

lemma lock_step_inv:
  "lock_inv t m ls0 s \<Longrightarrow> lock_step t op s = Some s' \<Longrightarrow> lock_inv t m ls0 s'"
  by (cases op; cases s)
    (auto simp: lock_inv_def ScopedLock_lock_def ScopedLock_unlock_def Mutex_lock_def
      Mutex_unlock_def split: if_splits option.splits)

lemma lock_run_inv: "lock_run t s s' \<Longrightarrow> lock_inv t m ls0 s \<Longrightarrow> lock_inv t m ls0 s'"
  by (induction rule: lock_run.induct) (auto dest: lock_step_inv)

lemma ScopedLock_new_inv:
  "ScopedLock_new t m ls = Some s \<Longrightarrow> ls m = None \<and> lock_inv t m ls s"
  by (auto simp: ScopedLock_new_def Mutex_lock_def lock_inv_def split: option.splits)

lemma ScopedLock_destroy_inv:
  "lock_inv t m ls0 (l, ls) \<Longrightarrow> ScopedLock_destroy l ls = ls0(m := None)"
  by (auto simp: lock_inv_def ScopedLock_destroy_def Mutex_unlock_def)



end
