(* ===== verification/Daemon.thy ===== *)
theory Daemon
  imports Supervise Registry Locks
begin

text \<open>
  The process: the object that owns the manager and the event loop (\<open>src/logkafka/logkafka.cc\<close>), the signal handler
  (\<open>src/logkafka/signal_handler.cc\<close>), the command line (\<open>src/logkafka/option.cc\<close>) and \<open>main\<close>
  (\<open>src/logkafka/main.cc\<close>).

  The event loop of libuv calls one handler at a time; which ones and in which order is a list of
  events, and nothing is assumed about it. TCLAP and the logging library are parameters.
\<close>

section \<open>Command line\<close>

record Option =
  logkafka_config_path :: string
  easylogging_config_path :: string
  opt_daemon :: bool

definition Option_default :: Option where
  "Option_default = \<lparr>logkafka_config_path = [], easylogging_config_path = [], opt_daemon = False\<rparr>"

text \<open>The parser answers the values of the three options, or throws.\<close>

definition parseArgs :: "(string list \<Rightarrow> (string \<times> string \<times> bool) option) \<Rightarrow> string list \<Rightarrow> Option \<Rightarrow> Option res" where
  "parseArgs tclap argv option =
     (case tclap argv of
        None \<Rightarrow> Inl Exit_failure
      | Some (f, e, d) \<Rightarrow>
          Inr (option\<lparr>logkafka_config_path := f, easylogging_config_path := e, opt_daemon := d\<rparr>))"

section \<open>The object\<close>

record LogKafka =
  lk_config :: config
  lk_manager :: "manager option"
  lk_zookeeper :: "Zookeeper option"
  lk_loop :: bool
  lk_signal_handler :: "bool option"
  lk_upload_timer_trigger :: "TimerWatcher option"
  lk_exit_handle :: "bool option"
  lk_exit_sent :: bool
  lk_stopping :: bool

definition LogKafka_new :: "config \<Rightarrow> LogKafka" where
  "LogKafka_new c =
     \<lparr>lk_config = c, lk_manager = None, lk_zookeeper = None, lk_loop = False, lk_signal_handler = None, lk_upload_timer_trigger = None,
      lk_exit_handle = None, lk_exit_sent = False, lk_stopping = False\<rparr>"

text \<open>
  The async handle is not there before \<open>start\<close>; afterwards it is open (\<open>Some True\<close>) or closed (\<open>Some False\<close>), and
  \<open>lk_exit_sent\<close> says whether \<open>uv_async_send\<close> was called. \<open>lk_stopping\<close> is set by \<open>uv_stop\<close>.
\<close>

text \<open>
  \<open>lk_zookeeper\<close> is the client that \<open>m_zookeeper\<close> of the manager points to. The flags are the answers of
  \<open>uv_loop_init\<close> here and in \<open>Zookeeper::init\<close>, and of the timer of the client.
\<close>

definition LogKafka_init ::
  "bool \<Rightarrow> bool \<Rightarrow> bool \<Rightarrow> zk_lib \<Rightarrow> manager_lib \<Rightarrow> world \<Rightarrow> KafkaConf \<Rightarrow> LogKafka \<Rightarrow> (bool \<times> LogKafka) res" where
  "LogKafka_init loop_ok zk_loop_ok zk_timer_ok zlib lib w junk_conf l =
     (let l1 = l\<lparr>lk_loop := True\<rparr>; c = lk_config l1
      in if \<not> loop_ok then Inr (False, l1)
         else bindR (Zookeeper_init zk_loop_ok zk_timer_ok (zookeeper_urls c) (kafka_chroot_path c) (logkafka_id c) (Zookeeper_new zlib))
                (\<lambda>(zok, z).
              bindR (Manager_init zok (Manager_new lib w junk_conf c)) (\<lambda>(ok, m).
                Inr (ok, l1\<lparr>lk_manager := Some m, lk_zookeeper := (if zok then Some z else None)\<rparr>))))"

definition manager_of :: "LogKafka \<Rightarrow> manager res" where
  "manager_of l = (case lk_manager l of None \<Rightarrow> Inl Null_deref | Some m \<Rightarrow> Inr m)"

text \<open>
  \<open>getLogConfig\<close> and \<open>getBrokerUrls\<close> as a handler of the manager meets them: what the client holds when the handler
  starts. The thread of the client runs between the handlers.
\<close>

definition sync :: "Zookeeper option \<Rightarrow> manager \<Rightarrow> manager" where
  "sync zk m =
     (case zk of
        None \<Rightarrow> m
      | Some z \<Rightarrow> m\<lparr>mg_lib := (mg_lib m)\<lparr>lib_log_config := (\<lambda>_. getLogConfig z), lib_broker_urls := (\<lambda>_. getBrokerUrls z)\<rparr>\<rparr>)"

definition close_zookeeper :: "Zookeeper option \<Rightarrow> Zookeeper option res" where
  "close_zookeeper zk = (case zk of None \<Rightarrow> Inr None | Some z \<Rightarrow> bindR (Zookeeper_close z) (\<lambda>z'. Inr (Some z')))"

text \<open>\<open>Manager::stop\<close> closes the client after the watchers.\<close>

definition LogKafka_stop :: "LogKafka \<Rightarrow> LogKafka res" where
  "LogKafka_stop l =
     (if \<not> lk_loop l then Inl Assert_failed
      else case lk_upload_timer_trigger l of
             None \<Rightarrow> Inl Null_deref
           | Some t \<Rightarrow>
               bindR (manager_of l) (\<lambda>m.
               bindR (Manager_stop m) (\<lambda>(_, m').
               bindR (close_zookeeper (lk_zookeeper l)) (\<lambda>zk.
                 Inr (l\<lparr>lk_manager := Some m', lk_zookeeper := zk, lk_upload_timer_trigger := Some (TimerWatcher_stop t),
                        lk_stopping := True\<rparr>)))))"

definition LogKafka_close :: "LogKafka \<Rightarrow> LogKafka res" where
  "LogKafka_close l =
     (if \<not> lk_loop l then Inl Assert_failed
      else bindR (LogKafka_stop l) (\<lambda>l1.
             case lk_upload_timer_trigger l1 of
               None \<Rightarrow> Inl Null_deref
             | Some t \<Rightarrow> Inr (l1\<lparr>lk_upload_timer_trigger := Some (TimerWatcher_close t), lk_exit_sent := True\<rparr>)))"

definition onSignal :: "LogKafka option \<Rightarrow> LogKafka option res" where
  "onSignal arg = (case arg of None \<Rightarrow> Inr None | Some l \<Rightarrow> bindR (LogKafka_close l) (\<lambda>l'. Inr (Some l')))"

definition exitAsyncCb :: "LogKafka \<Rightarrow> LogKafka" where
  "exitAsyncCb l = l\<lparr>lk_exit_handle := Some False\<rparr>"

text \<open>The handler of the signal; afterwards it is stopped.\<close>

definition SignalHandler_init :: "world \<Rightarrow> bool \<times> world" where
  "SignalHandler_init w =
     (if \<not> os_uv (w_os w) (w_tick w) then (False, w_step w)
      else (os_uv (w_os w) (w_tick w + 1), w_step (w_step w)))"

definition SignalHandler_default_cb :: "LogKafka \<Rightarrow> LogKafka res" where
  "SignalHandler_default_cb l =
     bindR (onSignal (Some l)) (\<lambda>arg.
       case arg of None \<Rightarrow> Inr l | Some l' \<Rightarrow> Inr (l'\<lparr>lk_signal_handler := Some False\<rparr>))"

section \<open>The event loop\<close>

datatype zk_event = Zk_refresh | Zk_session int int | Zk_brokers int | Zk_config int | Zk_exit

datatype uv_event = Refresh_timer | Upload_timer | Tail_event tail_ptr | Signal_event | Exit_event | Zk_event zk_event

text \<open>
  The thread of the client: its timer while it is active, and the watchers while there is a handle.
\<close>

definition zk_dispatch :: "zk_event \<Rightarrow> Zookeeper \<Rightarrow> Zookeeper res" where
  "zk_dispatch ev z =
     (case ev of
        Zk_refresh \<Rightarrow> if m_refresh_timer_trigger z = Some True then Zookeeper_refresh z else Inr z
      | Zk_session type state \<Rightarrow> if m_zhandle z then globalWatcher type state z else Inr z
      | Zk_brokers type \<Rightarrow> if m_zhandle z then brokerChangeWatcher type z else Inr z
      | Zk_config type \<Rightarrow> if m_zhandle z then configChangeWatcher type z else Inr z
      | Zk_exit \<Rightarrow> Inr (Zookeeper_exitAsyncCb z))"

definition with_manager :: "(manager \<Rightarrow> manager res) \<Rightarrow> LogKafka \<Rightarrow> LogKafka res" where
  "with_manager f l =
     bindR (manager_of l) (\<lambda>m. bindR (f (sync (lk_zookeeper l) m)) (\<lambda>m'. Inr (l\<lparr>lk_manager := Some m'\<rparr>)))"

text \<open>
  The upload timer: the state of the watchers is printed by the JSON writer, a parameter, and handed to
  the client; \<open>strndup\<close> is assumed to succeed.
\<close>

definition upload :: "(json \<Rightarrow> string) \<Rightarrow> LogKafka \<Rightarrow> LogKafka res" where
  "upload print l =
     bindR (manager_of l) (\<lambda>m.
     bindR (uploadCollectingState (Some (sync (lk_zookeeper l) m))) (\<lambda>(info, m').
       Inr (l\<lparr>lk_manager := m',
              lk_zookeeper := (case info of
                                 None \<Rightarrow> lk_zookeeper l
                               | Some v \<Rightarrow> map_option (\<lambda>z. snd (setLogState True (print v) z)) (lk_zookeeper l))\<rparr>)))"

text \<open>The trigger of a tail watcher calls \<open>TailWatcher::onNotify\<close> while one of its handles is active.\<close>

definition tail_active :: "tail_ptr \<Rightarrow> manager \<Rightarrow> bool" where
  "tail_active p m =
     (case t_heap m p of
        None \<Rightarrow> False
      | Some tw \<Rightarrow>
          (case tw_timer_trigger tw of Some t \<Rightarrow> tmw_handle t = Some True | None \<Rightarrow> False) \<or>
          (case tw_stat_trigger tw of Some t \<Rightarrow> stw_handle t = Some True | None \<Rightarrow> False))"

definition dispatch :: "(json \<Rightarrow> string) \<Rightarrow> uv_event \<Rightarrow> LogKafka \<Rightarrow> LogKafka res" where
  "dispatch print ev l =
     (case ev of
        Refresh_timer \<Rightarrow>
          with_manager (\<lambda>m. case mg_refresh_trigger m of
             Some t \<Rightarrow> if tmw_handle t = Some True then TimerWatcher_cb_func (Some refreshWatchers) m else Inr m
           | None \<Rightarrow> Inr m) l
      | Upload_timer \<Rightarrow>
          (case lk_upload_timer_trigger l of
             Some t \<Rightarrow> if tmw_handle t = Some True then upload print l else Inr l
           | None \<Rightarrow> Inr l)
      | Tail_event p \<Rightarrow>
          with_manager (\<lambda>m. if tail_active p m then TailWatcher_onNotify updateWatcherRotate p m else Inr m) l
      | Signal_event \<Rightarrow>
          (if lk_signal_handler l = Some True then SignalHandler_default_cb l else Inr l)
      | Exit_event \<Rightarrow> Inr (if lk_exit_handle l = Some True \<and> lk_exit_sent l then exitAsyncCb l else l)
      | Zk_event e \<Rightarrow>
          (case lk_zookeeper l of
             None \<Rightarrow> Inr l
           | Some z \<Rightarrow> bindR (zk_dispatch e z) (\<lambda>z'. Inr (l\<lparr>lk_zookeeper := Some z'\<rparr>))))"

text \<open>\<open>uv_run\<close>: the events the loop delivers until it returns. After \<open>uv_stop\<close> the rest of the current round may still come.\<close>

definition uv_run :: "(json \<Rightarrow> string) \<Rightarrow> uv_event list \<Rightarrow> LogKafka \<Rightarrow> LogKafka res" where
  "uv_run print = each (dispatch print)"

definition LogKafka_start ::
  "char list option \<Rightarrow> bool \<Rightarrow> bool \<Rightarrow> int \<Rightarrow> (json \<Rightarrow> string) \<Rightarrow> uv_event list \<Rightarrow> LogKafka \<Rightarrow> (bool \<times> LogKafka) res" where
  "LogKafka_start pos_content creatable ftruncate_ok run_res print events l =
     bindR (manager_of l) (\<lambda>m.
     bindR (Manager_start pos_content creatable ftruncate_ok (sync (lk_zookeeper l) m)) (\<lambda>(ok, m1).
       let l1 = l\<lparr>lk_manager := Some m1\<rparr>
       in if \<not> ok then Inr (False, l1)
          else case SignalHandler_init (t_world m1) of
                 (False, w) \<Rightarrow> Inr (False, l1\<lparr>lk_manager := Some (set_world w m1)\<rparr>)
               | (True, w) \<Rightarrow>
                   (case TimerWatcher_init 0 (s64 (zookeeper_upload_interval (lk_config l1))) w of
                      (False, _, w1) \<Rightarrow>
                        Inr (False, l1\<lparr>lk_manager := Some (set_world w1 m1), lk_signal_handler := Some True\<rparr>)
                    | (True, t, w1) \<Rightarrow>
                        bindR (uv_run print events (l1\<lparr>lk_manager := Some (set_world w1 m1), lk_signal_handler := Some True,
                                                lk_upload_timer_trigger := Some t, lk_exit_handle := Some True\<rparr>)) (\<lambda>l2.
                          Inr (0 \<le> run_res, l2)))))"

definition LogKafka_destroy :: "LogKafka \<Rightarrow> LogKafka res" where
  "LogKafka_destroy l =
     (case lk_manager l of
        None \<Rightarrow> Inr (l\<lparr>lk_loop := False, lk_signal_handler := None, lk_upload_timer_trigger := None\<rparr>)
      | Some m \<Rightarrow>
          bindR (Manager_destroy m) (\<lambda>_.
            Inr (l\<lparr>lk_manager := None, lk_zookeeper := None, lk_loop := False, lk_signal_handler := None,
                   lk_upload_timer_trigger := None\<rparr>)))"

section \<open>main\<close>

text \<open>Everything outside the program that a run meets.\<close>

record environment =
  env_tclap :: "string list \<Rightarrow> (string \<times> string \<times> bool) option"
  env_cfg_parse :: "string \<Rightarrow> int \<times> cfg"
  env_realpath :: "string \<Rightarrow> string option"
  env_hostname :: "string option"
  env_loop_ok :: bool
  env_zk_loop_ok :: bool
  env_zk_timer_ok :: bool
  env_zk_lib :: zk_lib
  env_lib :: manager_lib
  env_world :: world
  env_junk_config :: config
  env_junk_conf :: KafkaConf
  env_pos_content :: "char list option"
  env_creatable :: bool
  env_ftruncate_ok :: bool
  env_run_res :: int
  env_print :: "json \<Rightarrow> string"
  env_events :: "uv_event list"
  env_fork :: int
  env_setsid :: int

definition EXIT_SUCCESS :: int where "EXIT_SUCCESS = 0"
definition EXIT_FAILURE :: int where "EXIT_FAILURE = 1"

definition run :: "environment \<Rightarrow> Option \<Rightarrow> int res" where
  "run env option =
     (case Config_init (env_cfg_parse env) (env_realpath env) (env_hostname env) (env_junk_config env)
             (cstr (logkafka_config_path option)) of
        (False, _) \<Rightarrow> Inr EXIT_FAILURE
      | (True, lk_cfg) \<Rightarrow>
          bindR (LogKafka_init (env_loop_ok env) (env_zk_loop_ok env) (env_zk_timer_ok env) (env_zk_lib env) (env_lib env) (env_world env)
                   (env_junk_conf env) (LogKafka_new lk_cfg)) (\<lambda>(ok, lk).
            if \<not> ok then bindR (LogKafka_destroy lk) (\<lambda>_. Inr EXIT_FAILURE)
            else bindR (LogKafka_start (env_pos_content env) (env_creatable env) (env_ftruncate_ok env) (env_run_res env)
                          (env_print env) (env_events env) lk) (\<lambda>(ok2, lk2).
                   if \<not> ok2 then Inr EXIT_FAILURE
                   else bindR (LogKafka_destroy lk2) (\<lambda>_. Inr EXIT_SUCCESS))))"

text \<open>\<open>exit\<close> with the code of a failure is a fault; the parent exits with success.\<close>

definition daemonize :: "environment \<Rightarrow> Option \<Rightarrow> int res" where
  "daemonize env option =
     (if env_fork env < 0 then Inl Exit_failure
      else if env_fork env > 0 then Inr EXIT_SUCCESS
      else if env_setsid env < 0 then Inl Exit_failure
      else bindR (run env option) (\<lambda>_. Inr EXIT_SUCCESS))"

definition main :: "environment \<Rightarrow> string list \<Rightarrow> int res" where
  "main env argv =
     bindR (parseArgs (env_tclap env) argv Option_default) (\<lambda>opt.
       if \<not> opt_daemon opt then run env opt else daemonize env opt)"

text \<open>A daemon whose run failed exits with success all the same.\<close>

lemma daemon_hides_failure:
  assumes "env_fork env = 0" and "0 \<le> env_setsid env" and "run env option = Inr EXIT_FAILURE"
  shows "daemonize env option = Inr EXIT_SUCCESS"
  using assms by (simp add: daemonize_def)

end
