(* ===== verification/Safety.thy ===== *)
theory Safety
  imports Supervise
begin

text \<open>
  Memory safety of the manager: which watchers are allocated, which the manager holds, and that no
  operation leaves it with a pointer to a watcher that was deleted.
\<close>

section \<open>The allocated watchers\<close>

text \<open>The pattern and the path of every allocated watcher; both never change.\<close>

definition names :: "'a tstate_scheme \<Rightarrow> tail_ptr \<Rightarrow> (string \<times> string) option" where
  "names m p = map_option (\<lambda>tw. (tw_path_pattern tw, tw_path tw)) (t_heap m p)"

text \<open>Nothing is allocated, deleted or entered, and the mutex stays as it is.\<close>

definition same_heap :: "manager \<Rightarrow> manager \<Rightarrow> bool" where
  "same_heap m m' \<longleftrightarrow>
     names m' = names m \<and> m_tails m' = m_tails m \<and> m_tails_deleted m' = m_tails_deleted m \<and>
     mg_next m' = mg_next m \<and> mg_locked m' = mg_locked m"

lemma same_heap_refl [simp]: "same_heap m m"
  by (simp add: same_heap_def)

lemma same_heap_trans [trans]: "same_heap a b \<Longrightarrow> same_heap b c \<Longrightarrow> same_heap a c"
  by (simp add: same_heap_def)

lemma names_upd [simp]:
  "names (set_world w m) = names m" "names (m\<lparr>t_world := w\<rparr>) = names m"
  "names (store p tw m) = (names m)(p \<mapsto> (tw_path_pattern tw, tw_path tw))"
  "names (m\<lparr>t_heap := h\<rparr>) = (\<lambda>p. map_option (\<lambda>tw. (tw_path_pattern tw, tw_path tw)) (h p))"
  by (auto simp: names_def fun_eq_iff set_world_def store_def)

lemma names_mg [simp]:
  fixes m :: manager
  shows "names (m\<lparr>m_tails := t\<rparr>) = names m" "names (m\<lparr>m_tails_deleted := d\<rparr>) = names m" "names (m\<lparr>mg_next := n\<rparr>) = names m"
    "names (m\<lparr>m_position_file := pf\<rparr>) = names m" "names (m\<lparr>mg_locked := b\<rparr>) = names m" "names (m\<lparr>m_tasks := ts\<rparr>) = names m"
    "names (m\<lparr>m_task_confs := cs\<rparr>) = names m" "names (m\<lparr>mg_refresh_trigger := tr\<rparr>) = names m" "names (m\<lparr>mg_pos_file := b\<rparr>) = names m"
    "names (put_tail k q m) = names m"
  by (simp_all add: names_def fun_eq_iff put_tail_def)

lemma names_live: "names m p \<noteq> None \<longleftrightarrow> t_heap m p \<noteq> None"
  by (simp add: names_def)

lemma names_deref: "deref p m = Inr tw \<Longrightarrow> names m p = Some (tw_path_pattern tw, tw_path tw)"
  by (auto simp: names_def deref_def split: option.splits)

lemma set_world_set_world [simp]:
  fixes m :: manager
  shows "set_world w (set_world w' m) = set_world w m" "t_heap (set_world w m) = t_heap m"
  by (simp_all add: set_world_def)

lemma same_heap_upd [simp]:
  "same_heap m (set_world w m)" "same_heap m (m\<lparr>m_position_file := pf\<rparr>)"
  by (auto simp: same_heap_def) (simp_all add: set_world_def)

lemma same_heap_store:
  assumes "deref p m = Inr tw0" and "tw_path_pattern tw = tw_path_pattern tw0" and "tw_path tw = tw_path tw0"
  shows "same_heap m (store p tw (set_world w m))" "same_heap m (store p tw m)"
  using names_deref [OF assms(1)] assms(2,3)
  by (auto simp: same_heap_def fun_upd_idem_iff) (simp_all add: store_def set_world_def)

section \<open>Operations on one watcher\<close>

lemma isActive_heap:
  fixes m :: manager
  assumes "isActive p m = Inr (b, m')"
  shows "same_heap m m'"
  using assms by (auto simp: isActive_def Let_def elim!: bindR_InrE split: option.splits prod.splits)

lemma stop_heap:
  fixes m :: manager
  assumes "TailWatcher_stop close_io p m = Inr m'"
  shows "same_heap m m'"
  using assms
  by (auto simp: TailWatcher_stop_def Let_def elim!: bindR_InrE intro!: same_heap_store split: if_splits prod.splits)

lemma position_entry_heap:
  assumes "position_entry pek m = Inr (pe, m')"
  shows "same_heap m m'"
  using assms same_heap_trans [OF same_heap_upd(2) same_heap_upd(1)]
  by (auto simp: position_entry_def split: option.splits prod.splits)

lemma closeWatcher_heap:
  assumes "closeWatcher p close_io rm m = Inr m'"
  shows "same_heap m m'"
proof -
  from assms obtain m1 tw m3 where stop: "TailWatcher_stop close_io p m = Inr m1"
    and m3: "m3 = m1 \<or> (\<exists>pek pe m2 w. position_entry pek m1 = Inr (pe, m2) \<and> m3 = set_world w m2)"
    and m': "m' = m3 \<or> (\<exists>pf. m' = m3\<lparr>m_position_file := pf\<rparr>)"
    unfolding closeWatcher_def Let_def by (auto elim!: bindR_InrE split: if_splits option.splits prod.splits) blast+
  have "same_heap m m1" using stop_heap [OF stop] .
  also have "same_heap m1 m3"
    using m3 same_heap_trans [OF position_entry_heap same_heap_upd(1)] by (elim disjE exE conjE) auto
  also have "same_heap m3 m'" using m' by auto
  finally show ?thesis .
qed

lemma replace_io_heap:
  assumes "deref p m = Inr tw0" and "tw_path_pattern tw = tw_path_pattern tw0" and "tw_path tw = tw_path tw0"
    and "replace_io p tw file (set_world w m) = (b, m')"
  shows "same_heap m m'"
  using assms(4) same_heap_store(1) [OF assms(1), of "tw\<lparr>tw_io_handler := io\<rparr>" for io] assms(2,3)
  by (auto simp: replace_io_def split: prod.splits option.splits)

text \<open>A notification: either nothing happens to the heap, or the function for replaced files is called once.\<close>

lemma onRotate_heap:
  fixes m :: manager
  assumes "TailWatcher_onRotate upd p file m = Inr (b, m')"
  shows "same_heap m m' \<or> (\<exists>tw w. t_heap m p = Some tw \<and>
    upd (tw_path_pattern tw) (tw_path tw) (tw_position_entry tw) (set_world w m) = Inr (b, m'))"
proof -
  from assms obtain tw where tw: "deref p m = Inr tw" and
    run: "(case tw_io_handler tw of None \<Rightarrow> open_first p tw file m | Some io \<Rightarrow> open_again upd p tw io file m) = Inr (b, m')"
    by (auto simp: TailWatcher_onRotate_def elim!: bindR_InrE)
  have heap: "t_heap m p = Some tw" using tw by (auto simp: deref_def split: option.splits)
  show ?thesis
  proof (cases "tw_io_handler tw")
    case None
    then have "\<exists>file w. replace_io p tw file (set_world w m) = (b, m')"
      using run by (auto simp: open_first_def Let_def elim!: bindR_InrE split: prod.splits)
    then show ?thesis using replace_io_heap [OF tw refl refl] by blast
  next
    case (Some io)
    then have "(\<exists>w. replace_io p tw file (set_world w m) = (b, m')) \<or>
        (\<exists>w. upd (tw_path_pattern tw) (tw_path tw) (tw_position_entry tw) (set_world w m) = Inr (b, m'))"
      using run by (auto simp: open_again_def Let_def elim!: bindR_InrE split: prod.splits if_splits)
    then show ?thesis using replace_io_heap [OF tw refl refl] heap by blast
  qed
qed


lemma RotateHandler_heap:
  fixes m :: manager
  assumes "RotateHandler_onNotify f rh m = Inr (rh', m')"
  shows "same_heap m m' \<or> (\<exists>file w b m1. f file (set_world w m) = Inr (b, m1) \<and> same_heap m1 m')"
proof -
  have "same_heap m m' \<or> (\<exists>file w b m1. f file (set_world w m) = Inr (b, m1) \<and> (m' = m1 \<or> (\<exists>w'. m' = set_world w' m1)))"
    using assms
    by (auto simp: RotateHandler_onNotify_def Let_def elim!: bindR_InrE split: if_splits option.splits prod.splits) blast+
  then show ?thesis by (metis same_heap_refl same_heap_upd(1))
qed

lemma notify_rotate_heap:
  fixes m :: manager
  assumes "notify_rotate upd p m = Inr m'"
  shows "same_heap m m' \<or> (\<exists>tw w b m1. t_heap m p = Some tw \<and>
    upd (tw_path_pattern tw) (tw_path tw) (tw_position_entry tw) (set_world w m) = Inr (b, m1) \<and> same_heap m1 m')"
proof -
  from assms obtain tw where tw: "deref p m = Inr tw" by (auto simp: notify_rotate_def elim!: bindR_InrE)
  show ?thesis
  proof (cases "tw_rotate_handler tw")
    case None
    then show ?thesis using assms tw by (simp add: notify_rotate_def)
  next
    case (Some rh)
    then obtain rh' m1 tw1 where rh': "RotateHandler_onNotify (TailWatcher_onRotate upd p) rh m = Inr (rh', m1)"
      and tw1: "deref p m1 = Inr tw1" "m' = store p (tw1\<lparr>tw_rotate_handler := Some rh'\<rparr>) m1"
      using assms tw by (auto simp: notify_rotate_def elim!: bindR_InrE)
    have last: "same_heap m1 m'" using same_heap_store(2) [OF tw1(1)] tw1(2) by simp
    from RotateHandler_heap [OF rh'] show ?thesis
    proof (elim disjE exE conjE)
      assume "same_heap m m1"
      then show ?thesis using same_heap_trans [OF _ last] by blast
    next
      fix fl w b m2
      assume run: "TailWatcher_onRotate upd p fl (set_world w m) = Inr (b, m2)" and "same_heap m2 m1"
      then have "same_heap m2 m'" using same_heap_trans [OF _ last] by blast
      then show ?thesis
        using onRotate_heap [OF run] same_heap_trans [OF same_heap_upd(1), of w m m2] same_heap_trans [of m m2 m'] by fastforce
    qed
  qed
qed

lemma notify_io_heap:
  fixes m :: manager
  assumes "notify_io p m = Inr m'"
  shows "same_heap m m'"
  using assms by (auto simp: notify_io_def elim!: bindR_InrE intro!: same_heap_store split: option.splits)

lemma notify_heap:
  fixes m :: manager
  assumes "TailWatcher_onNotify upd p m = Inr m'"
  shows "same_heap m m' \<or> (\<exists>tw w b m1. t_heap m p = Some tw \<and>
    upd (tw_path_pattern tw) (tw_path tw) (tw_position_entry tw) (set_world w m) = Inr (b, m1) \<and> same_heap m1 m')"
proof -
  from assms obtain m2 where m2: "notify_rotate upd p m = Inr m2" and io: "notify_io p m2 = Inr m'"
    by (auto simp: TailWatcher_onNotify_def elim!: bindR_InrE)
  show ?thesis using notify_rotate_heap [OF m2] same_heap_trans [OF _ notify_io_heap [OF io]] by blast
qed

text \<open>While the mutex is held, a notification cannot replace a watcher.\<close>

lemma locked_notify_heap:
  assumes "TailWatcher_onNotify updateWatcherRotate p m = Inr m'" and "mg_locked m"
  shows "same_heap m m'"
  using notify_heap [OF assms(1)] assms(2) by (auto simp: updateWatcherRotate_def set_world_def)

section \<open>The pointers of the manager\<close>

text \<open>
  A pointer of the map or of the list of watchers to be deleted is allocated, and none is held twice. New
  watchers get fresh addresses.
\<close>

definition pointers_ok :: "manager \<Rightarrow> bool" where
  "pointers_ok m \<longleftrightarrow>
     smap_ok (m_tails m) \<and> distinct (m_tails_deleted m) \<and>
     (\<forall>p \<in> set (m_tails_deleted m). names m p \<noteq> None) \<and>
     (\<forall>k p. smap_find (m_tails m) k = Some (Some p) \<longrightarrow> names m p \<noteq> None \<and> p \<notin> set (m_tails_deleted m)) \<and>
     (\<forall>k j p. smap_find (m_tails m) k = Some (Some p) \<longrightarrow> smap_find (m_tails m) j = Some (Some p) \<longrightarrow> j = k) \<and>
     (\<forall>p. names m p \<noteq> None \<longrightarrow> p < mg_next m)"

lemma pointers_ok_same: "same_heap m m' \<Longrightarrow> pointers_ok m' = pointers_ok m"
  by (simp add: same_heap_def pointers_ok_def)

lemma pointers_ok_upd [simp]:
  "pointers_ok (m\<lparr>mg_locked := b\<rparr>) = pointers_ok m" "pointers_ok (m\<lparr>m_task_confs := cs\<rparr>) = pointers_ok m"
  "pointers_ok (m\<lparr>m_tasks := ts\<rparr>) = pointers_ok m" "pointers_ok (set_world w m) = pointers_ok m"
  "pointers_ok (m\<lparr>mg_refresh_trigger := tr\<rparr>) = pointers_ok m" "pointers_ok (m\<lparr>m_position_file := pf\<rparr>) = pointers_ok m"
  "pointers_ok (m\<lparr>mg_pos_file := b\<rparr>) = pointers_ok m"
  by (simp_all add: pointers_ok_def) (simp add: set_world_def)

text \<open>A watcher is entered under a key, the ones before stay allocated.\<close>

definition new_tail :: "tail_ptr option \<Rightarrow> manager \<Rightarrow> manager \<Rightarrow> bool" where
  "new_tail q m m' \<longleftrightarrow>
     m_tails m' = m_tails m \<and> m_tails_deleted m' = m_tails_deleted m \<and> mg_locked m' = mg_locked m \<and> mg_next m \<le> mg_next m' \<and>
     (case q of
        None \<Rightarrow> names m' = names m
      | Some p \<Rightarrow> p = mg_next m \<and> mg_next m' = Suc p \<and> (\<exists>n. names m' = (names m)(p \<mapsto> n)))"

lemma names_fresh: "(\<forall>p. names m p \<noteq> None \<longrightarrow> p < mg_next m) \<Longrightarrow> names m (mg_next m) = None"
  by (metis less_irrefl)

lemma setupWatcher_heap:
  assumes "setupWatcher cf pat path pe m = Inr (q, m')" and "names m (mg_next m) = None"
  shows "new_tail q m m'"
  using assms
  by (auto simp: setupWatcher_def Let_def new_tail_def TailWatcher_destroy_def deref_def names_def fun_eq_iff
      elim!: bindR_InrE split: if_splits prod.splits bool.splits option.splits)
    (auto simp: set_world_def store_def)

lemma pointers_fresh: "pointers_ok m \<Longrightarrow> names m (mg_next m) = None"
  using names_fresh [of m] unfolding pointers_ok_def by blast

lemma new_tail_bound:
  assumes "pointers_ok m" and "new_tail q m m'" and "names m p \<noteq> None"
  shows "p < mg_next m'"
proof -
  have "p < mg_next m" using assms(1,3) by (simp add: pointers_ok_def)
  also have "\<dots> \<le> mg_next m'" using assms(2) by (simp add: new_tail_def)
  finally show ?thesis .
qed

lemma pointers_ok_put:
  assumes "pointers_ok m" and "new_tail q m m'"
  shows "pointers_ok (put_tail k q m')"
proof (cases q)
  case None
  then show ?thesis
    using assms new_tail_bound [OF assms] by (auto simp: pointers_ok_def new_tail_def put_tail_def sm.find_put sm.ok_put)
next
  case (Some p)
  then obtain n where n: "names m' = (names m)(p \<mapsto> n)" and p: "p = mg_next m" "mg_next m' = Suc p"
    and eq: "m_tails m' = m_tails m" "m_tails_deleted m' = m_tails_deleted m"
    using assms(2) by (auto simp: new_tail_def)
  have fresh: "names m p = None" using pointers_fresh [OF assms(1)] p(1) by simp
  have "p \<notin> set (m_tails_deleted m)" "smap_find (m_tails m) j \<noteq> Some (Some p)" for j
    using assms(1) fresh unfolding pointers_ok_def by (metis, metis)
  then show ?thesis
    using assms(1) n p eq Some unfolding pointers_ok_def
    by (auto simp: put_tail_def sm.find_put sm.ok_put less_Suc_eq split: if_splits)
qed

lemma new_tail_None: "new_tail None m m' \<Longrightarrow> pointers_ok m \<Longrightarrow> pointers_ok m'"
  using new_tail_bound [of m None m'] by (auto simp: pointers_ok_def new_tail_def)

section \<open>Starting and stopping\<close>

lemma set_enabled_heap:
  assumes "set_enabled p b m = Inr m'"
  shows "same_heap m m'"
  using assms by (auto simp: set_enabled_def TailWatcher_setEnabled_def elim!: bindR_InrE intro!: same_heap_store)

lemma start_entry_heap:
  assumes "start_entry k t m = Inr (pe, m')"
  shows "same_heap m m'"
  using assms
  by (auto simp: start_entry_def elim!: bindR_InrE dest!: position_entry_heap split: if_splits prod.splits
      intro!: same_heap_trans [OF _ same_heap_upd(1)])

lemma pointers_ok_setup:
  assumes "pointers_ok m" and "setupWatcher cf pat path pe m = Inr (q, m')"
  shows "pointers_ok (put_tail k q m')" "q = None \<Longrightarrow> pointers_ok m'" "mg_locked m' = mg_locked m"
  using setupWatcher_heap [OF assms(2) pointers_fresh [OF assms(1)]] pointers_ok_put [OF assms(1)] new_tail_None assms(1)
  by (auto simp: new_tail_def)

definition safe :: "manager \<Rightarrow> bool" where
  "safe m \<longleftrightarrow> pointers_ok m \<and> mg_locked m"

lemma safe_same:
  assumes "same_heap m m'"
  shows "safe m' = safe m"
  using pointers_ok_same [OF assms] assms by (simp add: safe_def same_heap_def)

lemma safe_setup:
  assumes "safe m" and "setupWatcher cf pat path pe m = Inr (q, m')"
  shows "safe (put_tail k q m')" "q = None \<Longrightarrow> safe m'"
  using pointers_ok_setup [OF _ assms(2)] assms(1) by (auto simp: safe_def put_tail_def)

lemma startWatchers_safe: "startWatchers ks m = Inr m' \<Longrightarrow> safe m \<Longrightarrow> safe m'"
proof (induction ks arbitrary: m)
  case (Cons k ks)
  show ?case
  proof (cases "m' = m")
    case False
    with Cons.prems(1) obtain t pe m1 q m2 where e: "start_entry k t m = Inr (pe, m1)"
      and q: "setupWatcher (conf t) k (Task_getPath t) pe m1 = Inr (q, m2)"
      and rest: "startWatchers ks (if q = None then m2 else put_tail k q m2) = Inr m'"
      by (auto elim!: bindR_InrE split: if_splits)
    have "safe m1" using safe_same [OF start_entry_heap [OF e]] Cons.prems(2) by simp
    then have "safe (if q = None then m2 else put_tail k q m2)" using safe_setup [OF _ q] by simp
    then show ?thesis using Cons.IH [OF rest] by blast
  qed (use Cons.prems in simp)
qed simp

text \<open>Deleting a watcher that is taken out of the map, or that is to be deleted anyway.\<close>

lemma destroy_heap:
  fixes m :: manager
  assumes "TailWatcher_destroy p m = Inr m'"
  shows "m' = m\<lparr>t_heap := (t_heap m)(p := None)\<rparr>"
  using assms by (auto simp: TailWatcher_destroy_def elim!: bindR_InrE split: if_splits)

lemma pointers_ok_destroy:
  assumes "pointers_ok m" and "smap_find (m_tails m) k = Some (Some p)" and "TailWatcher_destroy p m = Inr m'"
  shows "pointers_ok (m'\<lparr>m_tails := smap_erase k (m_tails m')\<rparr>)"
  using assms(1,2) destroy_heap [OF assms(3)]
  by (auto simp: pointers_ok_def names_def sm.find_erase sm.ok_erase split: if_splits)

lemma stopWatchers_safe:
  "stopWatchers ks immediate unwatched m = Inr m' \<Longrightarrow> pointers_ok m \<Longrightarrow> pointers_ok m' \<and> mg_locked m' = mg_locked m"
proof (induction ks arbitrary: m)
  case (Cons k ks)
  show ?case
  proof (cases "smap_find (m_tails m) k")
    case None
    then show ?thesis using Cons by simp
  next
    case (Some q)
    with Cons.prems(1) obtain p tw where p: "q = Some p" and tw: "deref p m = Inr tw"
      by (auto elim!: bindR_InrE split: option.splits)
    let ?m1 = "store p (tw\<lparr>tw_unwatched := unwatched\<rparr>) m"
    have s1: "same_heap m ?m1" using same_heap_store(2) [OF tw] by simp
    show ?thesis
    proof (cases immediate)
      case False
      then show ?thesis
        using Cons.IH [of ?m1] Cons.prems Some p tw s1 pointers_ok_same [OF s1] by (simp add: same_heap_def)
    next
      case True
      with Cons.prems(1) Some p tw obtain m2 m3 where m2: "closeWatcher p True True ?m1 = Inr m2"
        and m3: "TailWatcher_destroy p m2 = Inr m3"
        and rest: "stopWatchers ks True unwatched (m3\<lparr>m_tails := smap_erase k (m_tails m3)\<rparr>) = Inr m'"
        by (auto simp: Let_def elim!: bindR_InrE)
      have s2: "same_heap m m2" using same_heap_trans [OF s1 closeWatcher_heap [OF m2]] .
      then have "pointers_ok m2" "smap_find (m_tails m2) k = Some (Some p)"
        using pointers_ok_same [OF s2] Cons.prems(2) Some p by (simp_all add: same_heap_def)
      then have "pointers_ok (m3\<lparr>m_tails := smap_erase k (m_tails m3)\<rparr>)" using pointers_ok_destroy m3 by blast
      moreover have "mg_locked m3 = mg_locked m" using s2 destroy_heap [OF m3] by (simp add: same_heap_def)
      ultimately show ?thesis using Cons.IH rest True by fastforce
    qed
  qed
qed simp

lemma destroy_all_heap:
  fixes m :: manager
  assumes "each TailWatcher_destroy ps m = Inr m'"
  shows "m' = m\<lparr>t_heap := (\<lambda>p. if p \<in> set ps then None else t_heap m p)\<rparr>"
  using assms
proof (induction ps arbitrary: m)
  case (Cons p ps)
  let ?m1 = "m\<lparr>t_heap := (t_heap m)(p := None)\<rparr>"
  from Cons.prems obtain m1 where "TailWatcher_destroy p m = Inr m1" and rest: "each TailWatcher_destroy ps m1 = Inr m'"
    by (auto elim!: bindR_InrE)
  then have m1: "m1 = ?m1" using destroy_heap by blast
  have "(\<lambda>q. if q \<in> set ps then None else t_heap ?m1 q) = (\<lambda>q. if q \<in> set (p # ps) then None else t_heap m q)"
    by (simp add: fun_eq_iff)
  then have "m1\<lparr>t_heap := (\<lambda>q. if q \<in> set ps then None else t_heap m1 q)\<rparr> =
      m\<lparr>t_heap := (\<lambda>q. if q \<in> set (p # ps) then None else t_heap m q)\<rparr>"
    unfolding m1 by simp
  then show ?case using Cons.IH [OF rest] by simp
qed simp

lemma delete_old_tails_safe:
  assumes "delete_old_tails m = Inr m'" and "pointers_ok m"
  shows "pointers_ok m' \<and> mg_locked m' = mg_locked m"
proof -
  from assms(1) obtain m1 where m1: "each TailWatcher_destroy (m_tails_deleted m) m = Inr m1"
    and m': "m' = m1\<lparr>m_tails_deleted := []\<rparr>"
    by (auto simp: delete_old_tails_def elim!: bindR_InrE)
  show ?thesis
    unfolding m' destroy_all_heap [OF m1] using assms(2) by (auto simp: pointers_ok_def names_def)
qed


section \<open>Updating and refreshing\<close>

lemma replace_watcher_safe:
  assumes "replace_watcher k t p m = Inr m'" and "safe m"
  shows "safe m'"
proof -
  from assms(1) obtain m1 pek pe m2 q m3 where m1: "closeWatcher p True False m = Inr m1"
    and m2: "position_entry pek m1 = Inr (pe, m2)"
    and q: "setupWatcher (conf t) k (Task_getPath t) pe m2 = Inr (q, m3)" and m': "m' = put_tail k q m3"
    by (auto simp: replace_watcher_def elim!: bindR_InrE)
  have "safe m2"
    using safe_same [OF same_heap_trans [OF closeWatcher_heap [OF m1] position_entry_heap [OF m2]]] assms(2) by simp
  then show ?thesis using safe_setup(1) [OF _ q] m' by blast
qed

lemma TailWatcher_start_safe:
  assumes "TailWatcher_start updateWatcherRotate p m = Inr m'" and "safe m"
  shows "safe m'"
proof -
  from assms(1) obtain tw where tw: "deref p m = Inr tw" by (auto simp: TailWatcher_start_def elim!: bindR_InrE)
  then obtain tm st w where run: "TailWatcher_onNotify updateWatcherRotate p
      (store p (tw\<lparr>tw_timer_trigger := tm, tw_stat_trigger := st\<rparr>) (set_world w m)) = Inr m'"
    using assms(1) by (auto simp: TailWatcher_start_def Let_def elim!: bindR_InrE split: prod.splits)
  let ?m1 = "store p (tw\<lparr>tw_timer_trigger := tm, tw_stat_trigger := st\<rparr>) (set_world w m)"
  have s1: "same_heap m ?m1" by (rule same_heap_store(1) [OF tw]) simp_all
  then have "safe ?m1" using safe_same assms(2) by blast
  then have "same_heap ?m1 m'" using locked_notify_heap [OF run] by (simp add: safe_def)
  then show ?thesis using safe_same \<open>safe ?m1\<close> by blast
qed

lemma safe_stop: "stopWatchers ks b c m = Inr m' \<Longrightarrow> safe m \<Longrightarrow> safe m'"
  using stopWatchers_safe by (auto simp: safe_def)

text \<open>The three things an update of a watcher does.\<close>

lemma update_watcher_steps:
  assumes "update_watcher k m = Inr m'"
  obtains (same) "m' = m"
  | (moved) m1 where "stopWatchers [k] True True m = Inr m1" and "startWatchers [k] m1 = Inr m'"
  | (changed) t p m1 m2 where "m1 = m \<or> replace_watcher k t p m = Inr m1"
    and "m2 = m1 \<or> (\<exists>m0. TailWatcher_start updateWatcherRotate p m1 = Inr m0 \<and> set_enabled p True m0 = Inr m2)"
    and "m' = m2 \<or> (\<exists>m0. TailWatcher_stop False p m2 = Inr m0 \<and> set_enabled p False m0 = Inr m')"
proof -
  from assms obtain t p tail where tail: "deref p m = Inr tail" and
    run: "(if TaskConf_eq (conf t) (tw_conf tail) then
         (if Task_getPath t \<noteq> tw_path tail then bindR (stopWatchers [k] True True m) (startWatchers [k]) else Inr m)
       else
         bindR (if \<not> LogConf_eq (log_conf (conf t)) (log_conf (tw_conf tail))
                  \<or> \<not> KafkaTopicConf_eq (kafka_topic_conf (conf t)) (kafka_topic_conf (tw_conf tail))
                  \<or> \<not> FilterConf_eq (filter_conf (conf t)) (filter_conf (tw_conf tail))
                then replace_watcher k t p m else Inr m) (\<lambda>m1.
         bindR (if Task_getEnabled t \<and> \<not> TailWatcher_getEnabled tail
                then bindR (TailWatcher_start updateWatcherRotate p m1) (set_enabled p True)
                else Inr m1) (\<lambda>m2.
         bindR (deref p m2) (\<lambda>tail2.
           if \<not> Task_getEnabled t \<and> TailWatcher_getEnabled tail2
           then bindR (TailWatcher_stop False p m2) (set_enabled p False)
           else Inr m2)))) = Inr m'"
    unfolding update_watcher_def by (elim bindR_InrE) blast
  show ?thesis
  proof (cases "TaskConf_eq (conf t) (tw_conf tail)")
    case True
    show ?thesis
      using run [unfolded if_P [OF True]] same moved by (cases "Task_getPath t \<noteq> tw_path tail") (auto elim: bindR_InrE)
  next
    case False
    from run [unfolded if_not_P [OF False]] obtain m1 m2 tail2 where
      "m1 = m \<or> replace_watcher k t p m = Inr m1"
      "m2 = m1 \<or> (\<exists>m0. TailWatcher_start updateWatcherRotate p m1 = Inr m0 \<and> set_enabled p True m0 = Inr m2)"
      "m' = m2 \<or> (\<exists>m0. TailWatcher_stop False p m2 = Inr m0 \<and> set_enabled p False m0 = Inr m')"
      by (elim bindR_InrE) (auto elim!: bindR_InrE split: if_splits)
    then show ?thesis by (rule changed)
  qed
qed

lemma update_watcher_safe:
  assumes "update_watcher k m = Inr m'" and "safe m"
  shows "safe m'"
  using assms(1)
proof (cases rule: update_watcher_steps)
  case (changed t p m1 m2)
  have "safe m1" using changed(1) replace_watcher_safe assms(2) by blast
  then have "safe m2" using changed(2) TailWatcher_start_safe safe_same set_enabled_heap by blast
  then show ?thesis using changed(3) safe_same stop_heap set_enabled_heap by blast
qed (use assms(2) safe_stop startWatchers_safe in blast)+

text \<open>The tasks do not touch the heap.\<close>

lemma same_heap_tasks [simp]:
  "same_heap m (m\<lparr>m_tasks := ts\<rparr>)" "same_heap m (m\<lparr>m_task_confs := cs\<rparr>)" "same_heap m (put_task k t m)" "same_heap m (next_tick m)"
  by (simp_all add: same_heap_def put_task_def next_tick_def) (simp add: set_world_def)

lemma first_update_heap:
  assumes "first_update k e t m = Inr (t', m')"
  shows "same_heap m m'"
  using assms
  by (auto simp: first_update_def getPathPatternGlobed_def Let_def elim!: bindR_InrE split: if_splits option.splits prod.splits)

lemma expire_step_heap:
  assumes "expire_step k e (t, m) = Inr (again, t', m')"
  shows "same_heap m m'"
  using assms
  by (auto simp: expire_step_def expire_missing_def elim!: bindR_InrE dest!: isActive_heap split: if_splits prod.splits)

lemma expire_loop_heap:
  assumes "loop (expire_step k e) (t, m) = Some (Inr (t', m'))"
  shows "same_heap m m'"
proof -
  have "case (t', m') of (t', m') \<Rightarrow> same_heap m m'"
    by (rule loop_keeps [OF assms]) (auto intro: same_heap_trans expire_step_heap)
  then show ?thesis by simp
qed

lemma updateTaskPaths_heap:
  assumes "updateTaskPaths k m = Inr m'"
  shows "same_heap m m'"
proof -
  from assms obtain e m1 t t1 m2 t2 m3 where m1: "expandPath k m = (e, m1)" and m2: "first_update k e t m1 = Inr (t1, m2)"
    and loop: "returns (loop (expire_step k e) (t1, m2)) = Inr (t2, m3)"
    and m': "m' = put_task k (snd (addPath t2 e)) m3"
    by (auto simp: updateTaskPaths_def elim!: bindR_InrE split: if_splits prod.splits)
  have "same_heap m m1" using m1 by (auto simp: expandPath_def Let_def split: if_splits option.splits)
  also have "same_heap m1 m2" using first_update_heap [OF m2] .
  also have "same_heap m2 m3" using loop expire_loop_heap by (auto simp: returns_def split: option.splits)
  also have "same_heap m3 m'" using m' by simp
  finally show ?thesis .
qed

lemma refreshTasks_safe:
  assumes "refreshTasks m = Inr (ok, m')" and "safe m"
  shows "safe m'"
proof -
  have add: "safe m2" if "add_task k m1 = Inr m2" "safe m1" for k m1 m2
    using that(1) safe_same [OF same_heap_trans [OF same_heap_trans [OF same_heap_tasks(2) same_heap_tasks(3)] updateTaskPaths_heap]]
      safe_same [OF same_heap_trans [OF same_heap_tasks(3) updateTaskPaths_heap]] that(2)
    by (auto simp: add_task_def task_conf_at_def split: option.splits)
  have upd: "safe m2" if "update_task k m1 = Inr m2" "safe m1" for k m1 m2
    using that(1) safe_same [OF same_heap_trans [OF same_heap_trans [OF same_heap_tasks(2) same_heap_tasks(3)] updateTaskPaths_heap]]
      safe_same [OF same_heap_trans [OF same_heap_tasks(3) updateTaskPaths_heap]] that(2)
    by (auto simp: update_task_def task_conf_at_def elim!: bindR_InrE split: option.splits)
  from assms(1) obtain added deleted keeped m1 m2 where m1: "addTasks added (deleteTasks deleted m) = Inr m1"
    and m2: "updateTasks keeped m1 = Inr m2" and m': "delete_old_tails m2 = Inr m'"
    by (auto simp: refreshTasks_def Let_def elim!: bindR_InrE)
  have "safe (deleteTasks deleted m)" using assms(2) by (simp add: deleteTasks_def safe_def)
  then have "safe m1" using m1 add unfolding addTasks_def by (elim each_invariant) blast+
  then have "safe m2" using m2 upd unfolding updateTasks_def by (elim each_invariant) blast+
  then show ?thesis using delete_old_tails_safe [OF m'] by (simp add: safe_def)
qed

lemma updateWatchers_safe: "updateWatchers ks m = Inr m' \<Longrightarrow> safe m \<Longrightarrow> safe m'"
  unfolding updateWatchers_def by (erule each_invariant) (blast intro: update_watcher_safe)+

lemma refreshWatchers_steps:
  assumes "refreshWatchers m = Inr m'"
  obtains ok m1 where "refreshTaskConfs (m\<lparr>mg_locked := True\<rparr>) = Inr (ok, m1)"
    and "m' = m1\<lparr>mg_locked := False\<rparr> \<or> (\<exists>ok2 m2. refreshTasks m1 = Inr (ok2, m2) \<and> (m' = m2\<lparr>mg_locked := False\<rparr> \<or>
      (\<exists>deleted added keeped m3 m4 m5. stopWatchers deleted True True m2 = Inr m3 \<and> startWatchers added m3 = Inr m4 \<and>
        updateWatchers keeped m4 = Inr m5 \<and> m' = m5\<lparr>mg_locked := False\<rparr>)))"
  using assms that unfolding refreshWatchers_def Let_def by (auto elim!: bindR_InrE split: if_splits) blast+

lemma refreshWatchers_pointers:
  assumes "refreshWatchers m = Inr m'" and "pointers_ok m"
  shows "pointers_ok m'"
  using assms(1)
proof (rule refreshWatchers_steps)
  fix ok m1 assume m1: "refreshTaskConfs (m\<lparr>mg_locked := True\<rparr>) = Inr (ok, m1)" and
    run: "m' = m1\<lparr>mg_locked := False\<rparr> \<or> (\<exists>ok2 m2. refreshTasks m1 = Inr (ok2, m2) \<and> (m' = m2\<lparr>mg_locked := False\<rparr> \<or>
      (\<exists>deleted added keeped m3 m4 m5. stopWatchers deleted True True m2 = Inr m3 \<and> startWatchers added m3 = Inr m4 \<and>
        updateWatchers keeped m4 = Inr m5 \<and> m' = m5\<lparr>mg_locked := False\<rparr>)))"
  have "same_heap (m\<lparr>mg_locked := True\<rparr>) m1"
    using m1 same_heap_trans [OF same_heap_tasks(4) same_heap_tasks(2)]
    by (auto simp: refreshTaskConfs_def Let_def split: if_splits option.splits json.splits)
  then have "safe m1" using safe_same assms(2) by (simp add: safe_def)
  then have "\<exists>mx. safe mx \<and> m' = mx\<lparr>mg_locked := False\<rparr>"
    using run refreshTasks_safe safe_stop startWatchers_safe updateWatchers_safe by metis
  then show ?thesis by (auto simp: safe_def)
qed

section \<open>Rotation\<close>

lemma pointers_ok_aside:
  assumes "pointers_ok m" and "names m p \<noteq> None" and "p \<notin> set (m_tails_deleted m)"
    and "\<And>j. smap_find (m_tails m) j \<noteq> Some (Some p)"
  shows "pointers_ok (m\<lparr>m_tails_deleted := m_tails_deleted m @ [p]\<rparr>)"
  using assms by (auto simp: pointers_ok_def)

lemma put_tail_simps [simp]:
  "m_tails (put_tail k q m) = smap_put k q (m_tails m)" "m_tails_deleted (put_tail k q m) = m_tails_deleted m"
  by (simp_all add: put_tail_def)

text \<open>A file that was replaced: the watcher of its path is put aside and a new one is entered.\<close>

lemma rotate_steps:
  assumes "updateWatcherRotate pat path pe m = Inr (b, m')"
  obtains (active) p where "tail_at path m = Inr p" and "\<not> b" and "same_heap m m'"
  | (replaced) p m2 w tw q m3 where "tail_at path m = Inr p" and "same_heap m m2"
    and "setupWatcher (tw_conf (tw :: TailWatcher)) pat path pe (set_world w m2) = Inr (q, m3)"
    and "b = (q \<noteq> None)"
    and "m' = (if q = None then m3 else (put_tail pat q m3)\<lparr>m_tails_deleted := m_tails_deleted m3 @ [p]\<rparr>)"
proof -
  from assms obtain p act m1 where p: "tail_at path m = Inr p" and m1: "isActive p m = Inr (act, m1)"
    and run: "(if act then Inr (False, m1)
             else bindR (closeWatcher p True False m1) (\<lambda>m2.
                  bindR (pe_updatePos pe 0 (t_world m2)) (\<lambda>w.
                  bindR (deref p m2) (\<lambda>tw.
                  bindR (task_at pat m2) (\<lambda>t.
                  bindR (setupWatcher (tw_conf tw) pat path pe (set_world w m2)) (\<lambda>(tw_new, m3).
                    if tw_new = None then Inr (False, m3)
                    else Inr (True, (put_tail pat tw_new m3)\<lparr>m_tails_deleted := m_tails_deleted m3 @ [p]\<rparr>))))))) = Inr (b, m')"
    by (auto simp: updateWatcherRotate_def elim!: bindR_InrE split: if_splits)
  have s1: "same_heap m m1" using isActive_heap [OF m1] .
  show ?thesis
  proof (cases act)
    case True
    then show ?thesis using run s1 p active by auto
  next
    case False
    with run obtain m2 w and tw :: TailWatcher and r where m2: "closeWatcher p True False m1 = Inr m2"
      and r: "setupWatcher (tw_conf tw) pat path pe (set_world w m2) = Inr r"
      and m': "(if fst r = None then Inr (False, snd r)
        else Inr (True, (put_tail pat (fst r) (snd r))\<lparr>m_tails_deleted := m_tails_deleted (snd r) @ [p]\<rparr>)) = (Inr (b, m') :: (bool \<times> manager) res)"
      unfolding case_prod_beta by (simp only: if_False) (elim bindR_InrE, blast)
    show ?thesis
    proof (rule replaced [OF p same_heap_trans [OF s1 closeWatcher_heap [OF m2]]])
      show "setupWatcher (tw_conf tw) pat path pe (set_world w m2) = Inr (fst r, snd r)" using r by simp
    qed (use m' in \<open>auto split: if_splits\<close>)
  qed
qed

lemma rotate_pointers:
  assumes "updateWatcherRotate pat path pe m = Inr (b, m')" and "pointers_ok m"
    and "smap_find (m_tails m) path \<noteq> None \<longrightarrow> pat = path"
  shows "pointers_ok m'"
  using assms(1)
proof (cases rule: rotate_steps)
  case active
  then show ?thesis using pointers_ok_same assms(2) by blast
next
  case (replaced p m2 w tw q m3)
  let ?m2 = "set_world w m2"
  have found: "smap_find (m_tails m) pat = Some (Some p)"
    using replaced(1) assms(3) by (auto simp: tail_at_def getTailWatcher_def split: option.splits)
  have s2: "same_heap m ?m2" using same_heap_trans [OF replaced(2) same_heap_upd(1)] .
  then have ok2: "pointers_ok ?m2" using pointers_ok_same assms(2) by blast
  have found2: "smap_find (m_tails ?m2) pat = Some (Some p)" using s2 found by (simp add: same_heap_def)
  have new: "new_tail q ?m2 m3" using setupWatcher_heap [OF replaced(3) pointers_fresh [OF ok2]] .
  show ?thesis
  proof (cases q)
    case None
    then show ?thesis using replaced(5) pointers_ok_setup(2) [OF ok2 replaced(3)] by simp
  next
    case (Some r)
    then have m': "m' = (put_tail pat q m3)\<lparr>m_tails_deleted := m_tails_deleted m3 @ [p]\<rparr>" using replaced(5) by simp
    have put: "pointers_ok (put_tail pat q m3)" using pointers_ok_setup(1) [OF ok2 replaced(3)] .
    have eq: "m_tails m3 = m_tails ?m2" "m_tails_deleted m3 = m_tails_deleted ?m2" "r = mg_next ?m2"
      and nm: "names m3 p \<noteq> None" "p \<notin> set (m_tails_deleted m3)"
      using new Some ok2 found2 by (auto simp: new_tail_def pointers_ok_def)
    have "p \<noteq> r" using ok2 found2 eq(3) pointers_fresh [OF ok2] unfolding pointers_ok_def by metis
    moreover have "smap_find (m_tails m3) j = Some (Some p) \<Longrightarrow> j = pat" for j
      using ok2 found2 eq(1) unfolding pointers_ok_def by metis
    ultimately have "smap_find (m_tails (put_tail pat q m3)) j \<noteq> Some (Some p)" for j
      using Some by (auto simp: sm.find_put)
    then show ?thesis using pointers_ok_aside [OF put] nm unfolding m' by simp
  qed
qed

text \<open>No pattern is the path of a file that is followed for another pattern.\<close>

definition own_paths :: "manager \<Rightarrow> bool" where
  "own_paths m \<longleftrightarrow>
     (\<forall>p pat path. names m p = Some (pat, path) \<longrightarrow> smap_find (m_tails m) path \<noteq> None \<longrightarrow> pat = path)"

lemma notify_pointers:
  assumes "TailWatcher_onNotify updateWatcherRotate p m = Inr m'" and "pointers_ok m" and "own_paths m"
  shows "pointers_ok m'"
  using notify_heap [OF assms(1)]
proof (elim disjE exE conjE)
  assume "same_heap m m'"
  then show ?thesis using pointers_ok_same assms(2) by blast
next
  fix tw w b m1
  assume tw: "t_heap m p = Some tw" and "same_heap m1 m'"
    and run: "updateWatcherRotate (tw_path_pattern tw) (tw_path tw) (tw_position_entry tw) (set_world w m) = Inr (b, m1)"
  have "names m p = Some (tw_path_pattern tw, tw_path tw)" using tw by (simp add: names_def)
  then have "smap_find (m_tails (set_world w m)) (tw_path tw) \<noteq> None \<longrightarrow> tw_path_pattern tw = tw_path tw"
    using assms(3) by (simp add: own_paths_def) (simp add: set_world_def)
  then have "pointers_ok m1" using rotate_pointers [OF run] assms(2) by simp
  then show ?thesis using pointers_ok_same \<open>same_heap m1 m'\<close> by blast
qed

section \<open>A rotation of the wrong watcher\<close>

text \<open>
  C33: When the path of a file that is rotated is also the pattern of another task, the rotation puts that
  other watcher aside but leaves it in the map: the deletion of the old watchers in the next refresh leaves the map
  with a pointer to a deleted watcher, and the update of that task uses it.
\<close>

theorem rotation_dangles:
  assumes "updateWatcherRotate pat path pe m = Inr (True, m')" and "pat \<noteq> path" and "delete_old_tails m' = Inr m2"
  shows "\<exists>p. smap_find (m_tails m2) path = Some (Some p) \<and> t_heap m2 p = None \<and>
    (getTask m2 path \<noteq> None \<longrightarrow> update_watcher path m2 = Inl Null_deref)"
  using assms(1)
proof (cases rule: rotate_steps)
  case (replaced p x w tw q m3)
  have "m_tails m3 = m_tails m"
    using replaced(2) setupWatcher_frame(2) [OF replaced(3)] by (simp add: same_heap_def) (simp add: set_world_def)
  moreover have "smap_find (m_tails m) path = Some (Some p)"
    using replaced(1) by (auto simp: tail_at_def getTailWatcher_def split: option.splits)
  ultimately have found: "smap_find (m_tails m') path = Some (Some p)" and aside: "p \<in> set (m_tails_deleted m')"
    using replaced(4,5) assms(2) by (auto simp: sm.find_put)
  from assms(3) obtain m0 where "each TailWatcher_destroy (m_tails_deleted m') m' = Inr m0" "m2 = m0\<lparr>m_tails_deleted := []\<rparr>"
    by (auto simp: delete_old_tails_def elim!: bindR_InrE)
  then have "m_tails m2 = m_tails m'" "t_heap m2 p = None" using destroy_all_heap aside by fastforce+
  then show ?thesis
    using found by (auto simp: update_watcher_def task_at_def tail_at_def getTailWatcher_def deref_def split: option.split)
qed simp

definition sample_shadowed :: manager where
  "sample_shadowed =
     (sample_running True (PE_mem 0) ''/a1'')
       \<lparr>t_heap := [0 \<mapsto> (sample_rotated True (PE_mem 0))
                  \<lparr>tw_io_handler := Some ((sample_handler 2 0 [])\<lparr>m_file := None, m_last_io_time := 0\<rparr>)\<rparr>],
        m_tasks := [(''/a%d'', Some (Task_new True 5)), (''/a1'', Some (Task_new True 5))]\<rparr>"

theorem rotation_dangles_witness:
  "\<exists>m' m2 p. updateWatcherRotate ''/a%d'' ''/a1'' (PE_mem 0) sample_shadowed = Inr (True, m') \<and> delete_old_tails m' = Inr m2 \<and>
    smap_find (m_tails m2) ''/a1'' = Some (Some p) \<and> t_heap m2 p = None \<and> update_watcher ''/a1'' m2 = Inl Null_deref"
proof -
  have "case updateWatcherRotate ''/a%d'' ''/a1'' (PE_mem 0) sample_shadowed of Inl _ \<Rightarrow> False
      | Inr (ok, m') \<Rightarrow> ok \<and> (case delete_old_tails m' of Inl _ \<Rightarrow> False | Inr m2 \<Rightarrow> getTask m2 ''/a1'' \<noteq> None)"
    by code_simp
  then obtain m' where m': "updateWatcherRotate ''/a%d'' ''/a1'' (PE_mem 0) sample_shadowed = Inr (True, m')"
    and del: "case delete_old_tails m' of Inl _ \<Rightarrow> False | Inr m2 \<Rightarrow> getTask m2 ''/a1'' \<noteq> None"
    by (cases "updateWatcherRotate ''/a%d'' ''/a1'' (PE_mem 0) sample_shadowed") auto
  then obtain m2 where m2: "delete_old_tails m' = Inr m2" "getTask m2 ''/a1'' \<noteq> None"
    by (cases "delete_old_tails m'") auto
  then show ?thesis using rotation_dangles [OF m' _ m2(1)] m' by fastforce
qed

end
