(* ===== verification/Records.thy ===== *)
theory Records
  imports Safety
begin

text \<open>
  The records of the position file while the daemon runs: the file stays the image of a list of entries, and
  every watcher writes into an entry of its own pattern.
\<close>

section \<open>The keys of the file\<close>

text \<open>Where the record of a key starts depends only on the keys before it.\<close>

definition offset :: "PositionEntryKey list \<Rightarrow> nat \<Rightarrow> nat" where
  "offset ks i = sum_list (map (\<lambda>k. length (entry_prefix k) + 26) (take i ks)) + length (entry_prefix (ks ! i))"

lemma seek_at_offset: "i < length es \<Longrightarrow> seek_at es i = offset (map fst es) i"
  by (simp add: seek_at_def offset_def image_of_length take_map o_def)

lemma offset_append: "i < length ks \<Longrightarrow> offset (ks @ js) i = offset ks i"
  by (simp add: offset_def nth_append)

text \<open>A position entry that is the record of a key.\<close>

definition points :: "PositionEntryKey list \<Rightarrow> PositionEntryPtr \<Rightarrow> PositionEntryKey \<Rightarrow> bool" where
  "points ks pe k \<longleftrightarrow> (\<exists>i < length ks. ks ! i = k \<and> pe = PE_file (offset ks i))"

lemma points_append: "points ks pe k \<Longrightarrow> points (ks @ js) pe k"
  unfolding points_def using offset_append by (metis nth_append trans_less_add1 length_append)

text \<open>The file holds a list of entries with these keys.\<close>

definition keys_file :: "PositionEntryKey list \<Rightarrow> PositionFile \<Rightarrow> world \<Rightarrow> bool" where
  "keys_file ks pf w \<longleftrightarrow> (\<exists>es. map fst es = ks \<and> pf_rep es pf (w_posfile w))"

lemma keys_file_data: "p_data (w_posfile w') = p_data (w_posfile w) \<Longrightarrow> keys_file ks pf w' = keys_file ks pf w"
  by (simp add: keys_file_def pf_rep_def)

lemma keys_file_update:
  assumes "keys_file ks pf w" and "points ks pe k" and "pe_update pe ino pos w = Inr w'"
  shows "keys_file ks pf w'"
proof -
  obtain es i where es: "map fst es = ks" "pf_rep es pf (w_posfile w)" and i: "i < length es" "pe = PE_file (seek_at es i)"
    using assms(1,2) by (auto simp: keys_file_def points_def seek_at_offset)
  then have "w_posfile w' = FilePE_update (seek_at es i) ino pos (w_posfile w)"
    using assms(3) by (auto simp: pe_update_def)
  then show ?thesis
    using update_rep [OF es(2) i(1), of pos ino] map_fst_update [OF i(1)] es(1) unfolding keys_file_def by metis
qed

lemma keys_file_updatePos:
  assumes "keys_file ks pf w" and "points ks pe k" and "pe_updatePos pe pos w = Inr w'"
  shows "keys_file ks pf w'"
proof -
  obtain es i where es: "map fst es = ks" "pf_rep es pf (w_posfile w)" and i: "i < length es" "pe = PE_file (seek_at es i)"
    using assms(1,2) by (auto simp: keys_file_def points_def seek_at_offset)
  then have "w_posfile w' = FilePE_updatePos (seek_at es i) pos (w_posfile w)"
    using assms(3) by (auto simp: pe_updatePos_def)
  then show ?thesis
    using updatePos_rep [OF es(2) i(1), of pos] map_fst_update [OF i(1)] es(1) unfolding keys_file_def by metis
qed

lemma read_data:
  "pe_readInode pe w = Inr (i, w') \<Longrightarrow> p_data (w_posfile w') = p_data (w_posfile w)"
  "pe_readPos pe w = Inr (i, w') \<Longrightarrow> p_data (w_posfile w') = p_data (w_posfile w)"
  by (auto simp: pe_readInode_def pe_readPos_def FilePE_readInode_def FilePE_readPos_def p_fread_def p_fseek_def Let_def
      split: PositionEntryPtr.splits option.splits prod.splits if_splits)

section \<open>The io handler\<close>

text \<open>It writes to its own position entry only; everything but the commit leaves the file alone.\<close>

definition io_quiet :: "IOHandler \<times> world \<Rightarrow> IOHandler \<times> world \<Rightarrow> bool" where
  "io_quiet a b \<longleftrightarrow> m_position_entry (fst b) = m_position_entry (fst a) \<and> w_posfile (snd b) = w_posfile (snd a)"

lemma io_quiet_time:
  "io_quiet (h, w) (updateLastIOTime h w)" "io_quiet (h, w) (updateLastBufferStuckTime h w)"
  by (simp_all add: updateLastIOTime_def updateLastBufferStuckTime_def io_quiet_def split: option.split)

lemma isBufferStuck_quiet: "w_posfile (snd (isBufferStuck h w)) = w_posfile w"
  by (simp add: isBufferStuck_def getLastBufferStuckTime_def split: option.split)

lemma flush_quiet: "io_quiet (h, w) (flush_stuck h w)"
proof -
  obtain h1 w1 where t: "updateLastIOTime h w = (h1, w1)" by fastforce
  obtain b w2 where "isBufferStuck h1 w1 = (b, w2)" by fastforce
  then show ?thesis
    using io_quiet_time(1) [of h w] isBufferStuck_quiet [of h1 w1] t by (simp add: flush_stuck_def io_quiet_def)
qed

lemma split_quiet: "io_quiet (h, w) (snd (split_buffer h w))"
proof (cases "m_buffer_len h = 0")
  case False
  obtain i c ls b where l: "split_loop h 0 0 (m_lines h) = (i, c, ls, b)" by (metis prod_cases4)
  let ?h = "h\<lparr>m_lines := ls, m_buffer_last_segment := (i = m_buffer_len h), m_buffer_len := m_buffer_len h - c,
      m_buffer := buf_str h c (m_buffer_len h - c) @ drop (m_buffer_len h - c) (m_buffer h)\<rparr>"
  obtain h2 w2 where t: "updateLastBufferStuckTime ?h w = (h2, w2)" by fastforce
  then have "io_quiet (h, w) (h2, w2)" using io_quiet_time(2) [of ?h w] by (simp add: io_quiet_def)
  then show ?thesis using False l t by (simp add: split_buffer_def Let_def) (simp add: io_quiet_def)
qed (simp add: split_buffer_def io_quiet_def)

lemma read_quiet: "read_buffer h w = Inr (n, h', w') \<Longrightarrow> io_quiet (h, w) (h', w')"
  by (auto simp: read_buffer_def io_quiet_def split: option.splits prod.splits if_splits)

lemma read_step_quiet:
  assumes "read_step (r, h, w) = Inr (b, r', h', w')"
  shows "io_quiet (h, w) (h', w')"
proof -
  from assms obtain n h1 w1 where r: "read_buffer h w = Inr (n, h1, w1)" by (auto simp: read_step_def elim!: bindR_InrE)
  moreover obtain c h2 w2 where "split_buffer h1 w1 = (c, h2, w2)" by (metis prod_cases3)
  moreover from this r assms have "h' = h2 \<and> w' = w2" by (auto simp: read_step_def Let_def split: if_splits)
  ultimately show ?thesis using read_quiet [OF r] split_quiet [of h1 w1] by (simp add: io_quiet_def)
qed

lemma read_loop_quiet:
  assumes "loop read_step (r, h, w) = Some (Inr (r', h', w'))"
  shows "io_quiet (h, w) (h', w')"
proof -
  have "case (r', h', w') of (_, st) \<Rightarrow> io_quiet (h, w) st"
    by (rule loop_keeps [OF assms]) (auto dest: read_step_quiet simp: io_quiet_def)
  then show ?thesis by simp
qed

definition io_keys :: "PositionEntryKey list \<Rightarrow> PositionFile \<Rightarrow> PositionEntryPtr \<Rightarrow> IOHandler \<times> world \<Rightarrow> bool" where
  "io_keys ks pf pe st \<longleftrightarrow> m_position_entry (fst st) = pe \<and> keys_file ks pf (snd st)"

lemma io_keys_quiet: "io_quiet a b \<Longrightarrow> io_keys ks pf pe b = io_keys ks pf pe a"
  by (simp add: io_quiet_def io_keys_def keys_file_def)

lemma receive_keys:
  assumes "receive_step h w = Inr (unsent, h', w')" and "io_keys ks pf pe (h, w)" and "points ks pe k"
  shows "io_keys ks pf pe (h', w')"
proof (cases "m_lines h = []")
  case False
  obtain h1 w1 where t: "updateLastIOTime h w = (h1, w1)" by fastforce
  have k1: "io_keys ks pf pe (h1, w1)" using io_keys_quiet [OF io_quiet_time(1) [of h w]] t assms(2) by simp
  then have k2: "keys_file ks pf (w1\<lparr>w_kafka := x\<rparr>)" for x by (simp add: io_keys_def keys_file_def)
  show ?thesis
    using assms(1) False t k1 keys_file_updatePos [OF k2 assms(3)]
    by (auto simp: receive_step_def Let_def io_keys_def k2 elim!: bindR_InrE split: option.splits if_splits)
qed (use assms in \<open>simp add: receive_step_def\<close>)

lemma notify_step_keys:
  assumes "notify_step st = Inr (b, st')" and "io_keys ks pf pe st" and "points ks pe k"
  shows "io_keys ks pf pe st'"
proof -
  obtain h w h' w' where [simp]: "st = (h, w)" "st' = (h', w')" by (metis surj_pair)
  from assms(1) obtain r h1 w1 unsent where r: "returns (loop read_step (False, h, w)) = Inr (r, h1, w1)"
    and s: "receive_step h1 w1 = Inr (unsent, h', w')"
    by (auto simp: notify_step_def elim!: bindR_InrE)
  have "io_quiet (h, w) (h1, w1)"
    using r read_loop_quiet by (auto simp: returns_def split: option.splits)
  then have "io_keys ks pf pe (h1, w1)" using io_keys_quiet assms(2) by simp
  then show ?thesis using receive_keys [OF s _ assms(3)] by simp
qed

lemma IOHandler_onNotify_keys:
  assumes "IOHandler_onNotify (Some h) w = Inr (io', w')" and "io_keys ks pf pe (h, w)" and "points ks pe k"
  shows "\<exists>h'. io' = Some h' \<and> io_keys ks pf pe (h', w')"
proof (cases "m_receive_func h = None \<or> m_file h = None")
  case False
  obtain h1 w1 where f: "flush_stuck h w = (h1, w1)" by fastforce
  have k1: "io_keys ks pf pe (h1, w1)" using io_keys_quiet [OF flush_quiet [of h w]] f assms(2) by simp
  from assms(1) False f obtain unsent h2 w2 where r: "receive_step h1 w1 = Inr (unsent, h2, w2)"
    by (auto simp: IOHandler_onNotify_def elim!: bindR_InrE)
  have k2: "io_keys ks pf pe (h2, w2)" using receive_keys [OF r k1 assms(3)] .
  show ?thesis
  proof (cases "unsent = []")
    case True
    then obtain h3 where l: "loop notify_step (h2, w2) = Some (Inr (h3, w'))" and "io' = Some h3"
      using assms(1) False f r by (auto simp: IOHandler_onNotify_def returns_def elim!: bindR_InrE split: option.splits)
    moreover have "io_keys ks pf pe (h3, w')"
      by (rule loop_keeps [where I = "io_keys ks pf pe", OF l k2]) (rule notify_step_keys [OF _ _ assms(3)])
    ultimately show ?thesis by simp
  next
    case False
    then show ?thesis
      using assms(1) f r k2 \<open>\<not> (m_receive_func h = None \<or> m_file h = None)\<close> by (auto simp: IOHandler_onNotify_def)
  qed
qed (use assms in \<open>auto simp: IOHandler_onNotify_def split: if_splits\<close>)

section \<open>The records of a manager\<close>

text \<open>
  A watcher writes into a record of its own pattern, and so does its io handler. The path of that record need not be the
  path of the watcher: see \<open>reconfigured_wrong_record\<close>.
\<close>

definition owns :: "PositionEntryKey list \<Rightarrow> TailWatcher \<Rightarrow> bool" where
  "owns ks tw \<longleftrightarrow>
     (\<exists>path. points ks (tw_position_entry tw) (PositionEntryKey (tw_path_pattern tw) path)) \<and>
     (\<forall>io. tw_io_handler tw = Some io \<longrightarrow> m_position_entry io = tw_position_entry tw)"

definition records :: "PositionEntryKey list \<Rightarrow> manager \<Rightarrow> bool" where
  "records ks m \<longleftrightarrow>
     (\<exists>pf. m_position_file m = Some pf \<and> keys_file ks pf (t_world m)) \<and>
     (\<forall>p tw. t_heap m p = Some tw \<longrightarrow> owns ks tw)"

definition records_ok :: "manager \<Rightarrow> bool" where
  "records_ok m \<longleftrightarrow> (\<exists>ks. records ks m)"

definition extends :: "PositionEntryKey list \<Rightarrow> manager \<Rightarrow> bool" where
  "extends ks m \<longleftrightarrow> (\<exists>js. records (ks @ js) m)"

lemma extendsI [intro]: "records ks m \<Longrightarrow> extends ks m"
  unfolding extends_def by (metis append_Nil2)

lemma extends_append: "extends (ks @ js) m \<Longrightarrow> extends ks m"
  by (auto simp: extends_def)

lemma records_okI [intro]: "extends ks m \<Longrightarrow> records_ok m" "records ks m \<Longrightarrow> records_ok m"
  by (auto simp: extends_def records_ok_def)

lemma owns_append: "owns ks tw \<Longrightarrow> owns (ks @ js) tw"
  unfolding owns_def using points_append by blast

lemma owns_upd [simp]:
  "owns ks (tw\<lparr>tw_rotate_handler := rh\<rparr>) = owns ks tw" "owns ks (tw\<lparr>tw_unwatched := b\<rparr>) = owns ks tw"
  "owns ks (tw\<lparr>tw_timer_trigger := tm, tw_stat_trigger := st\<rparr>) = owns ks tw" "owns ks (tw\<lparr>tw_conf := c\<rparr>) = owns ks tw"
  by (simp_all add: owns_def)

lemma owns_io: "owns ks tw \<Longrightarrow> m_position_entry io = tw_position_entry tw \<Longrightarrow> owns ks (tw\<lparr>tw_io_handler := Some io\<rparr>)"
  by (simp add: owns_def)

text \<open>What the records do not depend on.\<close>

lemma records_same:
  assumes "t_heap m' = t_heap m" and "m_position_file m' = m_position_file m"
    and "p_data (w_posfile (t_world m')) = p_data (w_posfile (t_world m))"
  shows "records ks m' = records ks m"
  using keys_file_data [OF assms(3)] assms(1,2) by (simp add: records_def)

lemma records_upd [simp]:
  "records ks (m\<lparr>m_tails := t\<rparr>) = records ks m" "records ks (m\<lparr>m_tails_deleted := d\<rparr>) = records ks m"
  "records ks (m\<lparr>mg_next := n\<rparr>) = records ks m" "records ks (m\<lparr>mg_locked := b\<rparr>) = records ks m"
  "records ks (m\<lparr>m_tasks := ts\<rparr>) = records ks m" "records ks (m\<lparr>m_task_confs := cs\<rparr>) = records ks m"
  "records ks (m\<lparr>mg_refresh_trigger := tr\<rparr>) = records ks m" "records ks (m\<lparr>mg_pos_file := b\<rparr>) = records ks m"
  "records ks (put_tail k q m) = records ks m"
  by (rule records_same, simp_all add: put_tail_def)+

lemma world_simps [simp]:
  fixes m :: manager
  shows "t_world (set_world w m) = w" "set_world (t_world m) m = m"
    "m_position_file (set_world w m) = m_position_file m"
  by (simp_all add: set_world_def)

lemma records_step [simp]: "records ks (set_world (w_step w) m) = records ks (set_world w m)"
  by (rule records_same) simp_all

lemma records_world:
  assumes "records ks m" and "p_data (w_posfile w) = p_data (w_posfile (t_world m))"
  shows "records ks (set_world w m)"
  using assms records_same [of "set_world w m" m ks] by simp

lemma records_read:
  assumes "records ks (set_world w m)"
  shows "pe_readInode pe w = Inr (i, w') \<Longrightarrow> records ks (set_world w' m)" "pe_readPos pe w = Inr (i, w') \<Longrightarrow> records ks (set_world w' m)"
  using records_world [OF assms, of w'] read_data by simp_all

lemma records_write:
  assumes "records ks (set_world w m)" and "points ks pe k"
  shows "pe_update pe ino pos w = Inr w' \<Longrightarrow> records ks (set_world w' m)" "pe_updatePos pe pos w = Inr w' \<Longrightarrow> records ks (set_world w' m)"
proof -
  obtain pf where pf: "m_position_file m = Some pf" "keys_file ks pf w" using assms(1) by (auto simp: records_def)
  show "pe_update pe ino pos w = Inr w' \<Longrightarrow> records ks (set_world w' m)" "pe_updatePos pe pos w = Inr w' \<Longrightarrow> records ks (set_world w' m)"
    using keys_file_update [OF pf(2) assms(2)] keys_file_updatePos [OF pf(2) assms(2)] assms(1) pf(1)
    by (simp_all add: records_def)
qed

lemma records_deref: "records ks m \<Longrightarrow> deref p m = Inr tw \<Longrightarrow> owns ks tw"
  by (auto simp: records_def deref_def split: option.splits)

lemma records_store [simp]:
  fixes m :: manager
  shows "records ks m \<Longrightarrow> owns ks tw \<Longrightarrow> records ks (store p tw m)"
  by (auto simp: records_def store_def)

lemma records_forget: "records ks m \<Longrightarrow> \<forall>p tw. h p = Some tw \<longrightarrow> t_heap m p = Some tw \<Longrightarrow> records ks (m\<lparr>t_heap := h\<rparr>)"
  by (auto simp: records_def)

section \<open>Operations on one watcher\<close>

lemma isActive_records: "isActive p m = Inr (b, m') \<Longrightarrow> records ks m' = records ks m"
  by (rule records_same)
    (auto simp: isActive_def getLastIOTime_def Let_def set_world_def elim!: bindR_InrE split: option.splits prod.splits if_splits)

lemma io_records:
  assumes "IOHandler_onNotify (tw_io_handler tw) (t_world m) = Inr (io', w')" and "records ks m" and "owns ks tw"
  shows "records ks (set_world w' m)" and "io' = Some h \<Longrightarrow> m_position_entry h = tw_position_entry tw"
proof -
  have "records ks (set_world w' m) \<and> (\<forall>h. io' = Some h \<longrightarrow> m_position_entry h = tw_position_entry tw)"
  proof (cases "tw_io_handler tw")
    case None
    then show ?thesis using assms by (auto simp: IOHandler_onNotify_def)
  next
    case (Some io)
    obtain pf k where "m_position_file m = Some pf" "keys_file ks pf (t_world m)" "points ks (tw_position_entry tw) k"
      using assms(2,3) by (auto simp: records_def owns_def)
    moreover have "m_position_entry io = tw_position_entry tw" using assms(3) Some by (simp add: owns_def)
    ultimately have "\<exists>h'. io' = Some h' \<and> io_keys ks pf (tw_position_entry tw) (h', w')"
      using IOHandler_onNotify_keys [of io "t_world m" io' w' ks pf "tw_position_entry tw" k] assms(1) Some
      by (simp add: io_keys_def)
    then show ?thesis
      using assms(2) \<open>m_position_file m = Some pf\<close> by (auto simp: records_def io_keys_def)
  qed
  then show "records ks (set_world w' m)" "io' = Some h \<Longrightarrow> m_position_entry h = tw_position_entry tw" by blast+
qed

lemma stop_records:
  assumes "TailWatcher_stop close_io p m = Inr m'" and "records ks m"
  shows "records ks m'"
proof -
  from assms(1) obtain tw where tw: "deref p m = Inr tw" by (auto simp: TailWatcher_stop_def elim!: bindR_InrE)
  let ?tw = "tw\<lparr>tw_timer_trigger := map_option TimerWatcher_stop (tw_timer_trigger tw),
      tw_stat_trigger := map_option StatWatcher_stop (tw_stat_trigger tw)\<rparr>"
  have own: "owns ks tw" using records_deref [OF assms(2) tw] .
  show ?thesis
  proof (cases "close_io \<and> tw_io_handler tw \<noteq> None")
    case True
    then obtain io' w' where io: "IOHandler_onNotify (tw_io_handler tw) (t_world m) = Inr (io', w')"
      and m': "m' = store p (?tw\<lparr>tw_io_handler := map_option IOHandler_close io'\<rparr>) (set_world w' m)"
      using assms(1) tw by (auto simp: TailWatcher_stop_def Let_def elim!: bindR_InrE)
    have "owns ks (?tw\<lparr>tw_io_handler := map_option IOHandler_close io'\<rparr>)"
      using own io_records(2) [OF io assms(2) own] by (auto simp: owns_def IOHandler_close_def)
    then show ?thesis using io_records(1) [OF io assms(2) own] by (simp add: m')
  next
    case False
    then have "m' = store p ?tw m" using assms(1) tw by (auto simp: TailWatcher_stop_def Let_def)
    then show ?thesis using assms(2) own by simp
  qed
qed

lemma position_entry_records:
  assumes "position_entry k m = Inr (pe, m')" and "records ks m"
  shows "\<exists>js. records (ks @ js) m' \<and> points (ks @ js) pe k"
proof -
  obtain pf es where pf: "m_position_file m = Some pf" and es: "map fst es = ks" "pf_rep es pf (w_posfile (t_world m))"
    using assms(2) by (auto simp: records_def keys_file_def)
  have heap: "owns (ks @ js) tw" if "t_heap m p = Some tw" for p tw js
    using assms(2) that owns_append by (auto simp: records_def)
  show ?thesis
  proof (cases "smap_find (m_pe_map pf) k")
    case None
    from index_new [OF es(2) None] obtain pf' f' where
      i: "PositionFile_index k (pf, w_posfile (t_world m)) = (seek_at (es @ [(k, 0, 0)]) (length es), (pf', f'))"
      and rep: "pf_rep (es @ [(k, 0, 0)]) pf' f'"
      by blast
    then have m': "pe = PE_file (seek_at (es @ [(k, 0, 0)]) (length es))"
      "m' = set_world ((t_world m)\<lparr>w_posfile := f'\<rparr>) (m\<lparr>m_position_file := Some pf'\<rparr>)"
      using assms(1) pf by (simp_all add: position_entry_def)
    have "keys_file (ks @ [k]) pf' ((t_world m)\<lparr>w_posfile := f'\<rparr>)"
      unfolding keys_file_def using rep es(1) by (intro exI [of _ "es @ [(k, 0, 0)]"]) simp
    then have "records (ks @ [k]) m'" using m'(2) heap by (simp add: records_def)
    moreover have "points (ks @ [k]) pe k"
      unfolding points_def using es(1) m'(1)
      by (intro exI [of _ "length es"]) (auto simp: seek_at_offset nth_append)
    ultimately show ?thesis by blast
  next
    case (Some s)
    then have "m' = set_world ((t_world m)\<lparr>w_posfile := w_posfile (t_world m)\<rparr>) (m\<lparr>m_position_file := Some pf\<rparr>)" "pe = PE_file s"
      using assms(1) pf index_old [OF Some] by (simp_all add: position_entry_def)
    moreover obtain i where "i < length es" "e_key (es ! i) = k" "s = seek_at es i"
      using es(2) Some unfolding pf_rep_def by blast
    ultimately have "records (ks @ []) m' \<and> points (ks @ []) pe k"
      using assms(2) es(1) pf by (auto simp: points_def seek_at_offset records_def intro!: exI [of _ i])
    then show ?thesis by blast
  qed
qed

lemma closeWatcher_records:
  assumes "closeWatcher p close_io rm m = Inr m'" and "records ks m"
  shows "extends ks m'"
proof -
  from assms(1) obtain m1 and tw :: TailWatcher and m3 where stop: "TailWatcher_stop close_io p m = Inr m1"
    and mark: "(if tw_unwatched tw \<and> m_position_file m1 \<noteq> None then
         bindR (position_entry (PositionEntryKey (tw_path_pattern tw) (tw_path tw)) m1) (\<lambda>(pe, m2).
         bindR (pe_updatePos pe UNWATCHED_POSITION (t_world m2)) (\<lambda>w. Inr (set_world w m2)))
       else Inr m1) = Inr m3"
    and m': "(if rm then
         (case m_position_file m3 of
            None \<Rightarrow> Inl Null_deref
          | Some pf \<Rightarrow> Inr (m3\<lparr>m_position_file := Some (PositionFile_remove (PositionEntryKey (tw_path_pattern tw) (tw_path tw)) pf)\<rparr>))
       else Inr m3) = Inr m'"
    unfolding closeWatcher_def Let_def by (elim bindR_InrE) blast
  have m1: "records ks m1" using stop_records [OF stop assms(2)] .
  obtain js where js: "records (ks @ js) m3"
  proof (cases "m3 = m1")
    case True
    then show ?thesis using m1 that [of "[]"] by simp
  next
    case False
    then obtain pek pe m2 w where e: "position_entry pek m1 = Inr (pe, m2)"
      and w: "pe_updatePos pe UNWATCHED_POSITION (t_world m2) = Inr w" "m3 = set_world w m2"
      using mark by (auto elim!: bindR_InrE split: if_splits)
    then obtain js where "records (ks @ js) (set_world (t_world m2) m2)" "points (ks @ js) pe pek"
      using position_entry_records [OF e m1] by auto
    then show ?thesis using records_write(2) w that by blast
  qed
  have "records (ks @ js) (m3\<lparr>m_position_file := Some (PositionFile_remove pek pf)\<rparr>)" if "m_position_file m3 = Some pf" for pek pf
    using js that remove_rep unfolding records_def keys_file_def by fastforce
  then show ?thesis using m' js unfolding extends_def by (auto split: if_splits option.splits)
qed

lemma setupWatcher_file:
  assumes "setupWatcher cf pat path pe m = Inr (q, m')"
  shows "m_position_file m' = m_position_file m" and "w_posfile (t_world m') = w_posfile (t_world m)"
    and "t_heap m' p = Some tw \<Longrightarrow> t_heap m p = Some tw \<or>
      tw_path_pattern tw = pat \<and> tw_path tw = path \<and> tw_position_entry tw = pe \<and> tw_io_handler tw = None"
proof -
  have "m_position_file m' = m_position_file m \<and> w_posfile (t_world m') = w_posfile (t_world m) \<and>
    (\<forall>p tw. t_heap m' p = Some tw \<longrightarrow> t_heap m p = Some tw \<or>
      tw_path_pattern tw = pat \<and> tw_path tw = path \<and> tw_position_entry tw = pe \<and> tw_io_handler tw = None)"
    using assms
    by (auto simp: setupWatcher_def Let_def TailWatcher_init_def TimerWatcher_init_def StatWatcher_init_def
        TailWatcher_destroy_def deref_def set_world_def store_def w_step_def
        elim!: bindR_InrE split: if_splits prod.splits bool.splits option.splits)
  then show "m_position_file m' = m_position_file m" "w_posfile (t_world m') = w_posfile (t_world m)"
    "t_heap m' p = Some tw \<Longrightarrow> t_heap m p = Some tw \<or>
      tw_path_pattern tw = pat \<and> tw_path tw = path \<and> tw_position_entry tw = pe \<and> tw_io_handler tw = None"
    by blast+
qed

lemma setupWatcher_records:
  assumes "setupWatcher cf pat path pe m = Inr (q, m')" and "records ks m" and "points ks pe (PositionEntryKey pat x)"
  shows "records ks m'"
  using assms(2,3) setupWatcher_file [OF assms(1)] keys_file_data [of "t_world m'" "t_world m"]
  unfolding records_def owns_def by fastforce

lemma set_enabled_records: "set_enabled p b m = Inr m' \<Longrightarrow> records ks m \<Longrightarrow> records ks m'"
  using records_deref [of ks m p] by (auto simp: set_enabled_def TailWatcher_setEnabled_def elim!: bindR_InrE)

lemma destroy_records: "TailWatcher_destroy p m = Inr m' \<Longrightarrow> records ks m \<Longrightarrow> records ks m'" for m :: manager
  using destroy_heap [of p m m'] by (auto intro: records_forget split: if_splits)

lemma start_entry_records:
  assumes "start_entry k t m = Inr (pe, m')" and "records ks m"
  shows "\<exists>js. records (ks @ js) m' \<and> points (ks @ js) pe (PositionEntryKey k (Task_getPath t))"
proof -
  have "m_position_file m \<noteq> None" using assms(2) by (auto simp: records_def)
  with assms(1) obtain m1 where e: "position_entry (PositionEntryKey k (Task_getPath t)) m = Inr (pe, m1)"
    and m': "m' = m1 \<or> (\<exists>i w. pe_readInode pe (t_world m1) = Inr (i, w) \<and> (m' = set_world w m1 \<or>
      (\<exists>ino w'. pe_update pe ino 0 (w_step w) = Inr w' \<and> m' = set_world w' m1)))"
    by (auto simp: start_entry_def elim!: bindR_InrE split: if_splits) blast+
  obtain js where js: "records (ks @ js) (set_world (t_world m1) m1)" "points (ks @ js) pe (PositionEntryKey k (Task_getPath t))"
    using position_entry_records [OF e assms(2)] by auto
  have "records (ks @ js) m'"
    using m' records_read(1) [OF js(1)] records_write(1) [OF _ js(2)] js(1) by (metis records_step world_simps(2))
  then show ?thesis using js(2) by blast
qed

text \<open>A replaced file: the rotation stores the new watcher with the position entry it is called with.\<close>

lemma rotate_records:
  assumes "updateWatcherRotate pat path pe m = Inr (b, m')" and "records ks m" and "points ks pe (PositionEntryKey pat x)"
  shows "records_ok m'"
proof -
  from assms(1) obtain p act m1 where m1: "isActive p m = Inr (act, m1)"
    and run: "(if act then Inr (False, m1)
             else bindR (closeWatcher p True False m1) (\<lambda>m2.
                  bindR (pe_updatePos pe 0 (t_world m2)) (\<lambda>w.
                  bindR (deref p m2) (\<lambda>tw.
                  bindR (task_at pat m2) (\<lambda>t.
                  bindR (setupWatcher (tw_conf tw) pat path pe (set_world w m2)) (\<lambda>(tw_new, m3).
                    if tw_new = None then Inr (False, m3)
                    else Inr (True, (put_tail pat tw_new m3)\<lparr>m_tails_deleted := m_tails_deleted m3 @ [p]\<rparr>))))))) = Inr (b, m')"
    by (auto simp: updateWatcherRotate_def elim!: bindR_InrE split: if_splits)
  have r1: "records ks m1" using isActive_records [OF m1] assms(2) by simp
  show ?thesis
  proof (cases act)
    case True
    then show ?thesis using run r1 by auto
  next
    case False
    with run obtain m2 w and tw :: TailWatcher and r where m2: "closeWatcher p True False m1 = Inr m2"
      and w: "pe_updatePos pe 0 (t_world m2) = Inr w"
      and r: "setupWatcher (tw_conf tw) pat path pe (set_world w m2) = Inr r"
      and m': "(if fst r = None then Inr (False, snd r)
        else Inr (True, (put_tail pat (fst r) (snd r))\<lparr>m_tails_deleted := m_tails_deleted (snd r) @ [p]\<rparr>)) = (Inr (b, m') :: (bool \<times> manager) res)"
      unfolding case_prod_beta by (simp only: if_False) (elim bindR_InrE, blast)
    obtain js where js: "records (ks @ js) (set_world (t_world m2) m2)"
      using closeWatcher_records [OF m2 r1] by (auto simp: extends_def)
    have pt: "points (ks @ js) pe (PositionEntryKey pat x)" using points_append [OF assms(3)] .
    have "records (ks @ js) (snd r)"
      using setupWatcher_records [of "tw_conf tw" pat path pe "set_world w m2" "fst r" "snd r"] r records_write(2) [OF js pt w] pt by simp
    then show ?thesis using m' by (auto split: if_splits)
  qed
qed

section \<open>Notifications\<close>

lemma replace_io_records:
  assumes "replace_io p tw file (set_world w m) = (b, m')" and "records ks (set_world w m)" and "owns ks tw"
  shows "records ks m'"
proof -
  obtain io w' where io: "new_io tw file w = (io, w')" by fastforce
  then have w': "w_posfile w' = w_posfile w" "\<forall>h. io = Some h \<longrightarrow> m_position_entry h = tw_position_entry tw"
    by (auto simp: new_io_def IOHandler_init_def split: if_splits option.splits)
  have r: "records ks (set_world w' m)" using records_world [OF assms(2), of w'] w'(1) by simp
  show ?thesis
    using assms(1) io r w'(2) owns_io [OF assms(3)] by (auto simp: replace_io_def split: option.splits)
qed

lemma open_first_records:
  assumes "open_first p tw file m = Inr (b, m')" and "records ks m" and "owns ks tw"
  shows "records ks m'"
proof -
  obtain k where k: "points ks (tw_position_entry tw) k" using assms(3) by (auto simp: owns_def)
  obtain fsize inode where f: "os_fstat (os_fs (w_os (t_world m)) (w_tick (t_world m))) (f_ino file) = (fsize, inode)" by fastforce
  from assms(1) obtain i w1 pos w2 where w1: "pe_readInode (tw_position_entry tw) (w_step (t_world m)) = Inr (i, w1)"
    and w2: "(\<exists>x. pe_readPos (tw_position_entry tw) w1 = Inr (x, w2)) \<or> (\<exists>x. pe_update (tw_position_entry tw) inode x w1 = Inr w2)"
    and m': "replace_io p tw (fseek_set file pos) (set_world w2 m) = (b, m')"
    by (auto simp: open_first_def Let_def f elim!: bindR_InrE split: if_splits) blast+
  have "records ks (set_world (w_step (t_world m)) m)" using assms(2) by simp
  then have "records ks (set_world w1 m)" using records_read(1) w1 by blast
  then have "records ks (set_world w2 m)" using w2 records_read(2) records_write(1) [OF _ k] by blast
  then show ?thesis using replace_io_records [OF m' _ assms(3)] by blast
qed

text \<open>The function that is called for a replaced file: the one of the manager is one such function.\<close>

definition upd_law :: "(string \<Rightarrow> string \<Rightarrow> PositionEntryPtr \<Rightarrow> manager \<Rightarrow> (bool \<times> manager) res) \<Rightarrow> bool" where
  "upd_law upd \<longleftrightarrow>
     (\<forall>ks pat path pe m b m' x. upd pat path pe m = Inr (b, m') \<longrightarrow> records ks m \<longrightarrow> points ks pe (PositionEntryKey pat x) \<longrightarrow>
        records_ok m')"

lemma rotate_law: "upd_law updateWatcherRotate"
  unfolding upd_law_def using rotate_records by blast

lemma open_again_records:
  assumes "open_again upd p tw io file m = Inr (b, m')" and "records ks m" and "owns ks tw" and "upd_law upd"
  shows "records_ok m'"
proof -
  obtain x where k: "points ks (tw_position_entry tw) (PositionEntryKey (tw_path_pattern tw) x)"
    using assms(3) by (auto simp: owns_def)
  obtain fsize inode where f: "os_fstat (os_fs (w_os (t_world m)) (w_tick (t_world m))) (f_ino file) = (fsize, inode)" by fastforce
  from assms(1) obtain i w1 where w1: "pe_readInode (tw_position_entry tw) (w_step (t_world m)) = Inr (i, w1)"
    and rest: "(\<exists>w2. (pe_updatePos (tw_position_entry tw) fsize w1 = Inr w2 \<or>
          pe_update (tw_position_entry tw) inode (ftell file) w1 = Inr w2) \<and>
        replace_io p tw file (set_world w2 m) = (b, m')) \<or>
      upd (tw_path_pattern tw) (tw_path tw) (tw_position_entry tw) (set_world w1 m) = Inr (b, m')"
    by (auto simp: open_again_def Let_def f elim!: bindR_InrE split: if_splits) blast+
  have "records ks (set_world (w_step (t_world m)) m)" using assms(2) by simp
  then have r1: "records ks (set_world w1 m)" using records_read(1) w1 by blast
  from rest show ?thesis
  proof (elim disjE exE conjE)
    fix w2 assume "pe_updatePos (tw_position_entry tw) fsize w1 = Inr w2" "replace_io p tw file (set_world w2 m) = (b, m')"
    then show ?thesis using replace_io_records [OF _ _ assms(3)] records_write(2) [OF r1 k] by blast
  next
    fix w2 assume "pe_update (tw_position_entry tw) inode (ftell file) w1 = Inr w2" "replace_io p tw file (set_world w2 m) = (b, m')"
    then show ?thesis using replace_io_records [OF _ _ assms(3)] records_write(1) [OF r1 k] by blast
  next
    assume "upd (tw_path_pattern tw) (tw_path tw) (tw_position_entry tw) (set_world w1 m) = Inr (b, m')"
    then show ?thesis using assms(4) r1 k unfolding upd_law_def by blast
  qed
qed

lemma onRotate_records:
  assumes "TailWatcher_onRotate upd p file m = Inr (b, m')" and "records ks m" and "upd_law upd"
  shows "records_ok m'"
proof -
  from assms(1) obtain tw where tw: "deref p m = Inr tw" and
    run: "(case tw_io_handler tw of None \<Rightarrow> open_first p tw file m | Some io \<Rightarrow> open_again upd p tw io file m) = Inr (b, m')"
    by (auto simp: TailWatcher_onRotate_def elim!: bindR_InrE)
  have own: "owns ks tw" using records_deref [OF assms(2) tw] .
  show ?thesis
    using run records_okI(2) [OF open_first_records [OF _ assms(2) own]] open_again_records [OF _ assms(2) own assms(3)]
    by (cases "tw_io_handler tw") auto
qed

lemma RotateHandler_records:
  assumes "RotateHandler_onNotify f rh m = Inr (rh', m')" and "records ks m"
    and law: "\<And>file w b m1. f file (set_world w m) = Inr (b, m1) \<Longrightarrow> records ks (set_world w m) \<Longrightarrow> records_ok m1"
  shows "records_ok m'"
proof -
  let ?w = "t_world m"
  have step: "records ks (set_world (w_step ?w) m)" "records ks (set_world (w_step (w_step ?w)) m)"
    using assms(2) by simp_all
  obtain fsize inode where st: "(case os_stat (os_fs (w_os ?w) (w_tick ?w)) (rh_path rh) of
      Some (fsize, inode) \<Rightarrow> (fsize, inode) | None \<Rightarrow> (0, INO_NONE)) = (fsize, inode)"
    by fastforce
  show ?thesis
  proof (cases "rh_inode rh \<noteq> inode \<or> fsize < rh_fsize rh")
    case False
    then have "m' = set_world (w_step ?w) m"
      using assms(1) by (auto simp: RotateHandler_onNotify_def Let_def st split: if_splits)
    then show ?thesis using step by blast
  next
    case changed: True
    show ?thesis
    proof (cases "fopen_r (os_fs (w_os ?w) (w_tick ?w + 1)) (rh_path rh)")
      case None
      then have "m' = set_world (w_step (w_step ?w)) m"
        using assms(1) changed by (simp add: RotateHandler_onNotify_def Let_def st)
      then show ?thesis using step by blast
    next
      case (Some fl)
      then obtain ok m1 where run: "f fl (set_world (w_step (w_step ?w)) m) = Inr (ok, m1)"
        and rest: "(if ok then (case updateLastRotateTime rh (t_world m1) of
              (rh', w') \<Rightarrow> Inr (rh'\<lparr>rh_inode := inode, rh_fsize := fsize\<rparr>, set_world w' m1)) else Inr (rh, m1)) = (Inr (rh', m') :: (RotateHandler \<times> manager) res)"
        using assms(1) changed by (auto simp: RotateHandler_onNotify_def Let_def st elim!: bindR_InrE)
      obtain js where "records js m1" using law [OF run step(2)] by (auto simp: records_ok_def)
      moreover have "w_posfile (snd (updateLastRotateTime rh (t_world m1))) = w_posfile (t_world m1)"
        by (simp add: updateLastRotateTime_def)
      ultimately have "records js (set_world (snd (updateLastRotateTime rh (t_world m1))) m1)"
        using records_world by simp
      then show ?thesis using rest \<open>records js m1\<close> by (auto split: if_splits prod.splits)
    qed
  qed
qed

lemma notify_records:
  assumes "TailWatcher_onNotify upd p m = Inr m'" and "records ks m" and "upd_law upd"
  shows "records_ok m'"
proof -
  from assms(1) obtain m2 where m2: "notify_rotate upd p m = Inr m2" and io: "notify_io p m2 = Inr m'"
    by (auto simp: TailWatcher_onNotify_def elim!: bindR_InrE)
  from m2 obtain tw where tw: "deref p m = Inr tw" by (auto simp: notify_rotate_def elim!: bindR_InrE)
  obtain js where js: "records js m2"
  proof (cases "tw_rotate_handler tw")
    case None
    then show ?thesis using m2 tw assms(2) that by (simp add: notify_rotate_def)
  next
    case (Some rh)
    then obtain rh' m1 tw1 where rh': "RotateHandler_onNotify (TailWatcher_onRotate upd p) rh m = Inr (rh', m1)"
      and tw1: "deref p m1 = Inr tw1" "m2 = store p (tw1\<lparr>tw_rotate_handler := Some rh'\<rparr>) m1"
      using m2 tw by (auto simp: notify_rotate_def elim!: bindR_InrE)
    obtain js where js: "records js m1"
      using RotateHandler_records [OF rh' assms(2)] onRotate_records [OF _ _ assms(3)] unfolding records_ok_def by blast
    then have "records js m2" using tw1 records_deref [OF js tw1(1)] by simp
    then show ?thesis by (rule that)
  qed
  from io obtain tw2 where tw2: "deref p m2 = Inr tw2" by (auto simp: notify_io_def elim!: bindR_InrE)
  have own: "owns js tw2" using records_deref [OF js tw2] .
  show ?thesis
  proof (cases "tw_io_handler tw2")
    case None
    then show ?thesis using io tw2 js by (auto simp: notify_io_def)
  next
    case (Some h)
    then obtain io' w' where run: "IOHandler_onNotify (tw_io_handler tw2) (t_world m2) = Inr (io', w')"
      and m': "m' = store p (tw2\<lparr>tw_io_handler := io'\<rparr>) (set_world w' m2)"
      using io tw2 by (auto simp: notify_io_def elim!: bindR_InrE)
    have "owns js (tw2\<lparr>tw_io_handler := io'\<rparr>)" using own io_records(2) [OF run js own] by (auto simp: owns_def)
    then have "records js m'" unfolding m' by (rule records_store [OF io_records(1) [OF run js own]])
    then show ?thesis by blast
  qed
qed

section \<open>Starting, stopping and updating\<close>

lemma startWatchers_records: "startWatchers ks m = Inr m' \<Longrightarrow> records_ok m \<Longrightarrow> records_ok m'"
proof (induction ks arbitrary: m)
  case (Cons k ks)
  show ?case
  proof (cases "m' = m")
    case False
    with Cons.prems(1) obtain t pe m1 q m2 where e: "start_entry k t m = Inr (pe, m1)"
      and q: "setupWatcher (conf t) k (Task_getPath t) pe m1 = Inr (q, m2)"
      and rest: "startWatchers ks (if q = None then m2 else put_tail k q m2) = Inr m'"
      by (auto elim!: bindR_InrE split: if_splits)
    obtain js where js: "records js m" using Cons.prems(2) by (auto simp: records_ok_def)
    from start_entry_records [OF e js] obtain ns where
      r: "records (js @ ns) m1" "points (js @ ns) pe (PositionEntryKey k (Task_getPath t))"
      by blast
    have "records (js @ ns) m2" using setupWatcher_records [OF q r] .
    then have "records_ok (if q = None then m2 else put_tail k q m2)" by (auto simp: records_ok_def)
    then show ?thesis using Cons.IH [OF rest] by blast
  qed (use Cons.prems in simp)
qed simp

lemma stopWatchers_records:
  "stopWatchers ks immediate unwatched m = Inr m' \<Longrightarrow> records_ok m \<Longrightarrow> records_ok m'"
proof (induction ks arbitrary: m)
  case (Cons k ks)
  show ?case
  proof (cases "smap_find (m_tails m) k")
    case None
    then show ?thesis using Cons by simp
  next
    case (Some q)
    with Cons.prems(1) obtain p tw where p: "q = Some p" and tw: "deref p m = Inr tw"
      by (auto elim!: bindR_InrE split: option.splits)
    let ?m1 = "store p (tw\<lparr>tw_unwatched := unwatched\<rparr>) m"
    obtain js where js: "records js m" using Cons.prems(2) by (auto simp: records_ok_def)
    then have r1: "records js ?m1" using records_deref [OF js tw] by simp
    show ?thesis
    proof (cases immediate)
      case False
      then show ?thesis using Cons.IH [of ?m1] Cons.prems Some p tw r1 by (auto simp: records_ok_def)
    next
      case True
      with Cons.prems(1) Some p tw obtain m2 m3 where m2: "closeWatcher p True True ?m1 = Inr m2"
        and m3: "TailWatcher_destroy p m2 = Inr m3"
        and rest: "stopWatchers ks True unwatched (m3\<lparr>m_tails := smap_erase k (m_tails m3)\<rparr>) = Inr m'"
        by (auto simp: Let_def elim!: bindR_InrE)
      obtain ns where "records (js @ ns) m2" using closeWatcher_records [OF m2 r1] by (auto simp: extends_def)
      then have "records (js @ ns) m3" by (rule destroy_records [OF m3])
      then have "records_ok (m3\<lparr>m_tails := smap_erase k (m_tails m3)\<rparr>)" by (auto simp: records_ok_def)
      then show ?thesis using Cons.IH rest True by fastforce
    qed
  qed
qed simp

lemma replace_watcher_records:
  assumes "replace_watcher k t p m = Inr m'" and "records_ok m"
  shows "records_ok m'"
proof -
  from assms(1) obtain m1 x pe m2 q m3 where m1: "closeWatcher p True False m = Inr m1"
    and m2: "position_entry (PositionEntryKey k x) m1 = Inr (pe, m2)"
    and q: "setupWatcher (conf t) k (Task_getPath t) pe m2 = Inr (q, m3)" and m': "m' = put_tail k q m3"
    by (auto simp: replace_watcher_def elim!: bindR_InrE)
  from assms(2) obtain ks where "records ks m" by (auto simp: records_ok_def)
  then obtain js where "records (ks @ js) m1" using closeWatcher_records [OF m1] by (auto simp: extends_def)
  from position_entry_records [OF m2 this] obtain ns where r: "records (ks @ js @ ns) m2" "points (ks @ js @ ns) pe (PositionEntryKey k x)"
    by auto
  show ?thesis using setupWatcher_records [OF q r] m' by (auto simp: records_ok_def)
qed

lemma TailWatcher_start_records:
  assumes "TailWatcher_start updateWatcherRotate p m = Inr m'" and "records_ok m"
  shows "records_ok m'"
proof -
  from assms(1) obtain tw where tw: "deref p m = Inr tw" by (auto simp: TailWatcher_start_def elim!: bindR_InrE)
  then obtain tm st w where run: "TailWatcher_onNotify updateWatcherRotate p
      (store p (tw\<lparr>tw_timer_trigger := tm, tw_stat_trigger := st\<rparr>) (set_world w m)) = Inr m'"
    and w: "w_posfile w = w_posfile (t_world m)"
    using assms(1)
    by (auto simp: TailWatcher_start_def TimerWatcher_start_def StatWatcher_start_def Let_def elim!: bindR_InrE
        split: prod.splits option.splits)
  obtain ks where ks: "records ks m" using assms(2) by (auto simp: records_ok_def)
  then have "records ks (store p (tw\<lparr>tw_timer_trigger := tm, tw_stat_trigger := st\<rparr>) (set_world w m))"
    using records_world [OF ks, of w] records_deref [OF ks tw] w by simp
  then show ?thesis using notify_records [OF run _ rotate_law] by blast
qed

lemma update_watcher_records:
  assumes "update_watcher k m = Inr m'" and "records_ok m"
  shows "records_ok m'"
  using assms(1)
proof (cases rule: update_watcher_steps)
  case (changed t p m1 m2)
  have enabled: "set_enabled p b a = Inr c \<Longrightarrow> records_ok a \<Longrightarrow> records_ok c" for a b c
    using set_enabled_records unfolding records_ok_def by blast
  have stop: "TailWatcher_stop False p a = Inr c \<Longrightarrow> records_ok a \<Longrightarrow> records_ok c" for a c
    using stop_records unfolding records_ok_def by blast
  have "records_ok m1" using changed(1) replace_watcher_records assms(2) by blast
  then have "records_ok m2" using changed(2) TailWatcher_start_records enabled by blast
  then show ?thesis using changed(3) stop enabled by blast
qed (use assms(2) startWatchers_records stopWatchers_records in blast)+

text \<open>The tasks leave the file and the watchers alone.\<close>

definition same_records :: "manager \<Rightarrow> manager \<Rightarrow> bool" where
  "same_records m m' \<longleftrightarrow>
     t_heap m' = t_heap m \<and> m_position_file m' = m_position_file m \<and>
     w_posfile (t_world m') = w_posfile (t_world m)"

lemma same_records_ok: "same_records m m' \<Longrightarrow> records_ok m' = records_ok m"
  using records_same [of m' m] by (simp add: same_records_def records_ok_def)

lemma same_records_refl [simp]: "same_records m m"
  by (simp add: same_records_def)

lemma same_records_trans [trans]: "same_records a b \<Longrightarrow> same_records b c \<Longrightarrow> same_records a c"
  by (simp add: same_records_def)

lemma same_records_upd [simp]:
  "same_records m (m\<lparr>m_tasks := ts\<rparr>)" "same_records m (m\<lparr>m_task_confs := cs\<rparr>)" "same_records m (put_task k t m)"
  "same_records m (next_tick m)" "same_records m (at_tick n m)"
  by (simp_all add: same_records_def put_task_def next_tick_def at_tick_def)

lemma isActive_same_records: "isActive p m = Inr (b, m') \<Longrightarrow> same_records m m'"
  unfolding same_records_def
  by (auto simp: isActive_def getLastIOTime_def Let_def set_world_def elim!: bindR_InrE split: option.splits prod.splits if_splits)

lemma first_update_records:
  assumes "first_update k e t m = Inr (t', m')"
  shows "same_records m m'"
  using assms
  by (auto simp: first_update_def getPathPatternGlobed_def Let_def elim!: bindR_InrE split: if_splits option.splits prod.splits)

lemma expire_step_records:
  assumes "expire_step k e (t, m) = Inr (again, t', m')"
  shows "same_records m m'"
  using assms
  by (auto simp: expire_step_def expire_missing_def elim!: bindR_InrE dest!: isActive_same_records split: if_splits prod.splits)

lemma expire_loop_records:
  assumes "loop (expire_step k e) (t, m) = Some (Inr (t', m'))"
  shows "same_records m m'"
proof -
  have "case (t', m') of (t', m') \<Rightarrow> same_records m m'"
    by (rule loop_keeps [OF assms]) (auto intro: same_records_trans expire_step_records)
  then show ?thesis by simp
qed

lemma updateTaskPaths_records:
  assumes "updateTaskPaths k m = Inr m'"
  shows "same_records m m'"
proof -
  from assms obtain e m1 t t1 m2 t2 m3 where m1: "expandPath k m = (e, m1)" and m2: "first_update k e t m1 = Inr (t1, m2)"
    and loop: "returns (loop (expire_step k e) (t1, m2)) = Inr (t2, m3)"
    and m': "m' = put_task k (snd (addPath t2 e)) m3"
    by (auto simp: updateTaskPaths_def elim!: bindR_InrE split: if_splits prod.splits)
  have "same_records m m1" using m1 by (auto simp: expandPath_def Let_def split: if_splits option.splits)
  also have "same_records m1 m2" using first_update_records [OF m2] .
  also have "same_records m2 m3" using loop expire_loop_records by (auto simp: returns_def split: option.splits)
  also have "same_records m3 m'" using m' by simp
  finally show ?thesis .
qed

lemma refreshTasks_records:
  assumes "refreshTasks m = Inr (ok, m')" and "records_ok m"
  shows "records_ok m'"
proof -
  have retask: "same_records a c"
    if "updateTaskPaths k (put_task k t b) = Inr c" "same_records a b" for k t a b c
    using same_records_trans [OF same_records_trans [OF that(2) same_records_upd(3)] updateTaskPaths_records [OF that(1)]] .
  have add: "records_ok b" if "add_task k a = Inr b" "records_ok a" for k a b
    using that same_records_ok [OF retask [of k _ _ b a]] by (auto simp: add_task_def task_conf_at_def split: option.splits)
  have upd: "records_ok b" if "update_task k a = Inr b" "records_ok a" for k a b
    using that same_records_ok [OF retask [of k _ _ b a]]
    by (auto simp: update_task_def task_conf_at_def elim!: bindR_InrE split: option.splits)
  from assms(1) obtain added deleted keeped m1 m2 where m1: "addTasks added (deleteTasks deleted m) = Inr m1"
    and m2: "updateTasks keeped m1 = Inr m2" and m': "delete_old_tails m2 = Inr m'"
    by (auto simp: refreshTasks_def Let_def elim!: bindR_InrE)
  have "records_ok (deleteTasks deleted m)" using assms(2) by (auto simp: deleteTasks_def records_ok_def)
  then have "records_ok m1" using m1 add unfolding addTasks_def by (elim each_invariant) blast+
  then have r2: "records_ok m2" using m2 upd unfolding updateTasks_def by (elim each_invariant) blast+
  from m' obtain m3 where m3: "each TailWatcher_destroy (m_tails_deleted m2) m2 = Inr m3" and "m' = m3\<lparr>m_tails_deleted := []\<rparr>"
    by (auto simp: delete_old_tails_def elim!: bindR_InrE)
  moreover have "records_ok m3"
    using m3 r2 by (rule each_invariant) (metis destroy_records records_ok_def)
  ultimately show ?thesis by (auto simp: records_ok_def)
qed

lemma updateWatchers_records: "updateWatchers ks m = Inr m' \<Longrightarrow> records_ok m \<Longrightarrow> records_ok m'"
  unfolding updateWatchers_def by (erule each_invariant) (blast intro: update_watcher_records)+

lemma refreshWatchers_records:
  assumes "refreshWatchers m = Inr m'" and "records_ok m"
  shows "records_ok m'"
  using assms(1)
proof (rule refreshWatchers_steps)
  fix ok m1 assume m1: "refreshTaskConfs (m\<lparr>mg_locked := True\<rparr>) = Inr (ok, m1)" and
    run: "m' = m1\<lparr>mg_locked := False\<rparr> \<or> (\<exists>ok2 m2. refreshTasks m1 = Inr (ok2, m2) \<and> (m' = m2\<lparr>mg_locked := False\<rparr> \<or>
      (\<exists>deleted added keeped m3 m4 m5. stopWatchers deleted True True m2 = Inr m3 \<and> startWatchers added m3 = Inr m4 \<and>
        updateWatchers keeped m4 = Inr m5 \<and> m' = m5\<lparr>mg_locked := False\<rparr>)))"
  have "same_records m m1"
    using m1
    by (auto simp: refreshTaskConfs_def Let_def same_records_def next_tick_def set_world_def split: if_splits option.splits json.splits)
  then have "records_ok m1" using same_records_ok assms(2) by simp
  then have "\<exists>mx. records_ok mx \<and> m' = mx\<lparr>mg_locked := False\<rparr>"
    using run refreshTasks_records stopWatchers_records startWatchers_records updateWatchers_records by metis
  then show ?thesis by (auto simp: records_ok_def)
qed

lemma collecting_members_records:
  "collecting_members ts m = Inr (vs, m') \<Longrightarrow> same_records m m'"
proof (induction ts arbitrary: m vs m')
  case (Cons kt ts)
  obtain k tw where [simp]: "kt = (k, tw)" by fastforce
  have w: "same_records m (set_world w m)" if "TailWatcher_Serialize tail (t_world m) = (v, w)" for tail v w
    using that by (auto simp: TailWatcher_Serialize_def getLastRotateTime_def same_records_def Let_def split: option.splits prod.splits)
  have "\<exists>vs1 m1. collecting_members ts m1 = Inr (vs1, m') \<and> same_records m m1"
    using Cons.prems w same_records_refl [of m]
    by (auto elim!: bindR_InrE split: option.splits if_splits prod.splits) (metis same_records_refl)+
  then show ?case using Cons.IH same_records_trans by blast
qed simp

lemma stop_manager_records:
  assumes "Manager_stop m = Inr (b, m')" and "records_ok m"
  shows "records_ok m'"
proof -
  from assms(1) obtain m2 where m2: "stopWatchers (getTailsKeys m) True False
      (m\<lparr>mg_refresh_trigger := map_option TimerWatcher_stop (mg_refresh_trigger m)\<rparr>) = Inr m2" and m': "m' = m2\<lparr>mg_pos_file := False\<rparr>"
    by (auto simp: Manager_stop_def Let_def getTailsKeys_def elim!: bindR_InrE split: if_splits)
  have "records_ok m2" by (rule stopWatchers_records [OF m2]) (use assms(2) in \<open>auto simp: records_ok_def\<close>)
  then show ?thesis using m' by (auto simp: records_ok_def)
qed

section \<open>The record of another path\<close>

lemma setupWatcher_new:
  assumes "setupWatcher cf pat path pe m = Inr (Some q, m')"
  shows "\<exists>tw. t_heap m' q = Some tw \<and> tw_path_pattern tw = pat \<and> tw_path tw = path \<and> tw_position_entry tw = pe"
  using assms
  by (auto simp: setupWatcher_def Let_def TailWatcher_init_def set_world_def store_def
      elim!: bindR_InrE split: if_splits prod.splits bool.splits option.splits)

text \<open>
  C34: A watcher whose configuration changes keeps the record of the path it had: the new watcher follows the first path of the
  task, but its position entry is the record of the path of the old watcher. When the two differ (a dated path that
  moved on in the same refresh), the positions in the new file are stored, and found after a restart, as
  positions in the old one.
\<close>

theorem reconfigured_wrong_record:
  assumes "replace_watcher k t p m = Inr m'" and "records_ok m" and "deref p m = Inr tail"
    and "getTailWatcher m' k = Some q"
  shows "\<exists>tw es i. t_heap m' q = Some tw \<and> tw_path tw = Task_getPath t \<and>
    p_data (w_posfile (t_world m')) = image_of es \<and> i < length es \<and> tw_position_entry tw = PE_file (seek_at es i) \<and>
    e_key (es ! i) = PositionEntryKey k (tw_path tail)"
proof -
  from assms(1) obtain m1 tail1 pe m2 r m3 where m1: "closeWatcher p True False m = Inr m1" and d: "deref p m1 = Inr tail1"
    and m2: "position_entry (PositionEntryKey k (tw_path tail1)) m1 = Inr (pe, m2)"
    and r: "setupWatcher (conf t) k (Task_getPath t) pe m2 = Inr (r, m3)" and m': "m' = put_tail k r m3"
    by (auto simp: replace_watcher_def elim!: bindR_InrE)
  have same: "tw_path tail1 = tw_path tail"
    using closeWatcher_heap [OF m1] names_deref [OF d] names_deref [OF assms(3)] by (simp add: same_heap_def)
  obtain ks where "records ks m" using assms(2) by (auto simp: records_ok_def)
  then obtain js where "records (ks @ js) m1" using closeWatcher_records [OF m1] by (auto simp: extends_def)
  from position_entry_records [OF m2 this] obtain ns where
    ns: "records ns m2" "points ns pe (PositionEntryKey k (tw_path tail1))"
    by auto
  have r3: "records ns m3" using setupWatcher_records [OF r ns] .
  have "r = Some q" using assms(4) m' by (simp add: getTailWatcher_def put_tail_def sm.find_put)
  then obtain tw where "t_heap m3 q = Some tw" "tw_path tw = Task_getPath t" "tw_position_entry tw = pe"
    using setupWatcher_new r by blast
  moreover obtain es pf where "map fst es = ns" "pf_rep es pf (w_posfile (t_world m3))"
    using r3 by (auto simp: records_def keys_file_def)
  ultimately show ?thesis
    using ns(2) m' same by (fastforce simp: points_def seek_at_offset pf_rep_def put_tail_def)
qed

text \<open>The path of the task moved from one file to the next.\<close>

definition sample_recorded :: "(PositionEntryPtr \<times> manager) res" where
  "sample_recorded = position_entry (PositionEntryKey ''/a%d'' ''/a1'')
     (sample_manager\<lparr>t_world := (sample_world sample_text 0)\<lparr>w_posfile := \<lparr>p_data = [], p_pos = 0\<rparr>\<rparr>, mg_next := 1\<rparr>)"

definition sample_old :: "PositionEntryPtr \<Rightarrow> TailWatcher" where
  "sample_old pe = sample_tw\<lparr>tw_path_pattern := ''/a%d'', tw_path := ''/a1'', tw_position_entry := pe, tw_io_handler := None\<rparr>"

definition sample_moved :: Task where
  "sample_moved = snd (addPath ((Task_new True 5)\<lparr>conf := TaskConf_new True\<rparr>) ''/a2'')"

theorem reconfigured_wrong_record_witness:
  "\<exists>pe m1 m' q tw es i. sample_recorded = Inr (pe, m1) \<and>
    replace_watcher ''/a%d'' sample_moved 0 (store 0 (sample_old pe) m1) = Inr m' \<and>
    getTailWatcher m' ''/a%d'' = Some q \<and> t_heap m' q = Some tw \<and> tw_path tw = ''/a2'' \<and>
    p_data (w_posfile (t_world m')) = image_of es \<and> i < length es \<and> tw_position_entry tw = PE_file (seek_at es i) \<and>
    e_key (es ! i) = PositionEntryKey ''/a%d'' ''/a1''"
proof -
  have "case sample_recorded of Inl _ \<Rightarrow> False | Inr (pe, m1) \<Rightarrow>
      (case replace_watcher ''/a%d'' sample_moved 0 (store 0 (sample_old pe) m1) of Inl _ \<Rightarrow> False
       | Inr m' \<Rightarrow> getTailWatcher m' ''/a%d'' \<noteq> None)"
    by code_simp
  then obtain pe m1 m' q where pe: "sample_recorded = Inr (pe, m1)"
    and m': "replace_watcher ''/a%d'' sample_moved 0 (store 0 (sample_old pe) m1) = Inr m'"
    and q: "getTailWatcher m' ''/a%d'' = Some q"
    by (auto dest!: res_InrD)
  have "records [] (sample_manager\<lparr>t_world := (sample_world sample_text 0)\<lparr>w_posfile := \<lparr>p_data = [], p_pos = 0\<rparr>\<rparr>, mg_next := 1\<rparr>)"
    using pf_rep_empty by (simp add: records_def keys_file_def sample_manager_def Manager_new_def)
  from position_entry_records [OF pe [unfolded sample_recorded_def] this] obtain js where
    js: "records js m1" "points js pe (PositionEntryKey ''/a%d'' ''/a1'')"
    by auto
  have "owns js (sample_old pe)" using js(2) by (auto simp: owns_def sample_old_def)
  then have "records_ok (store 0 (sample_old pe) m1)" using records_store [OF js(1)] by blast
  moreover have "deref 0 (store 0 (sample_old pe) m1) = Inr (sample_old pe)" by (simp add: deref_def store_def)
  moreover have "Task_getPath sample_moved = ''/a2''" by code_simp
  moreover have "tw_path (sample_old pe) = ''/a1''" by (simp add: sample_old_def)
  ultimately show ?thesis using reconfigured_wrong_record [OF m' _ _ q] pe m' q by metis
qed

end
