(* ===== verification/Runs.thy ===== *)
theory Runs
  imports Daemon Records
begin

text \<open>
  Runs of the daemon: what the handlers of the manager keep, every sequence of events keeps. The locale
  \<open>manager_law\<close> proves it once; it is interpreted with the mutex, with the pointers (\<open>Safety\<close>) and with the records of
  the position file (\<open>Records\<close>).
\<close>

section \<open>The mutex of the watchers\<close>

lemma locked_simps [simp]:
  fixes m :: manager
  shows "mg_locked (set_world w m) = mg_locked m" "mg_locked (store p tw m) = mg_locked m"
    "mg_locked (put_tail k q m) = mg_locked m" "mg_locked (sync zk m) = mg_locked m"
  by (simp_all add: set_world_def store_def put_tail_def sync_def split: option.split)

lemma same_heap_locked: "same_heap m m' \<Longrightarrow> mg_locked m' = mg_locked m"
  by (simp add: same_heap_def)

lemmas closeWatcher_locked = closeWatcher_heap [THEN same_heap_locked]
lemmas isActive_locked = isActive_heap [THEN same_heap_locked]

lemma destroy_locked:
  fixes m :: manager
  shows "TailWatcher_destroy p m = Inr m' \<Longrightarrow> mg_locked m' = mg_locked m"
  using destroy_heap by fastforce

lemma setupWatcher_locked: "setupWatcher cf k path pe m = Inr (tw, m') \<Longrightarrow> mg_locked m' = mg_locked m"
  by (auto simp: setupWatcher_def Let_def dest!: destroy_locked elim!: bindR_InrE split: if_splits prod.splits bool.splits)

lemma rotate_locked: "updateWatcherRotate path_pattern path pe m = Inr (b, m') \<Longrightarrow> mg_locked m' = mg_locked m"
  by (auto simp: updateWatcherRotate_def dest!: closeWatcher_locked isActive_locked setupWatcher_locked
      elim!: bindR_InrE split: if_splits prod.splits)

lemma notify_locked:
  assumes "TailWatcher_onNotify updateWatcherRotate p m = Inr m'"
  shows "mg_locked m' = mg_locked m"
  using notify_heap [OF assms] rotate_locked by (fastforce simp: same_heap_def)

lemma stopWatchers_locked: "stopWatchers ks immediate unwatched m = Inr m' \<Longrightarrow> mg_locked m' = mg_locked m"
proof (induction ks arbitrary: m)
  case (Cons k ks)
  show ?case
  proof (cases "smap_find (m_tails m) k")
    case None
    then show ?thesis using Cons by simp
  next
    case (Some q)
    with Cons.prems obtain p tw m1 where p: "q = Some p" "deref p m = Inr tw"
      and m1: "stopWatchers ks immediate unwatched m1 = Inr m'" "mg_locked m1 = mg_locked m"
      by (auto simp: Let_def dest!: closeWatcher_locked destroy_locked elim!: bindR_InrE
          split: if_splits option.splits)
    then show ?thesis using Cons.IH [OF m1(1)] by simp
  qed
qed simp

lemma Manager_stop_locked: "Manager_stop m = Inr (b, m') \<Longrightarrow> mg_locked m' = mg_locked m"
  by (auto simp: Manager_stop_def Let_def dest!: stopWatchers_locked elim!: bindR_InrE split: if_splits)

lemma collecting_members_locked: "collecting_members ts m = Inr (vs, m') \<Longrightarrow> mg_locked m' = mg_locked m"
proof (induction ts arbitrary: m vs m')
  case (Cons kt ts)
  obtain k tw where [simp]: "kt = (k, tw)" by fastforce
  have "\<exists>vs1 m1. collecting_members ts m1 = Inr (vs1, m') \<and> mg_locked m1 = mg_locked m"
    using Cons.prems by (auto elim!: bindR_InrE split: option.splits if_splits prod.splits) (metis locked_simps(1))
  then show ?case using Cons.IH by metis
qed simp

lemma uploadCollectingState_locked:
  "uploadCollectingState (Some m) = Inr (info, m') \<Longrightarrow> \<exists>n. m' = Some n \<and> mg_locked n = mg_locked m"
  by (auto simp: uploadCollectingState_def getCollectingState_def dest!: collecting_members_locked elim!: bindR_InrE
      split: if_splits)

lemma refreshWatchers_unlocks: "refreshWatchers m = Inr m' \<Longrightarrow> \<not> mg_locked m'"
  by (auto simp: refreshWatchers_def Let_def elim!: bindR_InrE split: if_splits)

section \<open>Invariants of the manager\<close>

definition lk_holds :: "(manager \<Rightarrow> bool) \<Rightarrow> LogKafka \<Rightarrow> bool" where
  "lk_holds I l \<longleftrightarrow> (case lk_manager l of None \<Rightarrow> True | Some m \<Rightarrow> I m)"

text \<open>
  What the handlers of the manager keep, the event loop keeps. Before a notification of a watcher, the stronger
  \<open>J\<close> may be asked for.
\<close>

locale manager_law =
  fixes I :: "manager \<Rightarrow> bool" and J :: "manager \<Rightarrow> bool"
  assumes J_I: "J m \<Longrightarrow> I m"
    and keeps_sync: "I m \<Longrightarrow> I (sync zk m)" "J m \<Longrightarrow> J (sync zk m)"
    and keeps_refresh: "refreshWatchers m = Inr m' \<Longrightarrow> I m \<Longrightarrow> I m'"
    and keeps_notify: "TailWatcher_onNotify updateWatcherRotate p m = Inr m' \<Longrightarrow> J m \<Longrightarrow> I m'"
    and keeps_report: "getCollectingState m = Inr (info, m') \<Longrightarrow> I m \<Longrightarrow> I m'"
    and keeps_stop: "Manager_stop m = Inr (b, m') \<Longrightarrow> I m \<Longrightarrow> I m'"
begin

lemma holds_with_manager:
  assumes "with_manager f l = Inr l'" and "lk_holds J l" and "\<And>m m'. f m = Inr m' \<Longrightarrow> J m \<Longrightarrow> I m'"
  shows "lk_holds I l'"
  using assms keeps_sync(2) by (auto simp: with_manager_def manager_of_def lk_holds_def elim!: bindR_InrE split: option.splits)

lemma holds_weak: "lk_holds J l \<Longrightarrow> lk_holds I l"
  using J_I by (auto simp: lk_holds_def split: option.splits)

lemma holds_upload: "upload print l = Inr l' \<Longrightarrow> lk_holds I l \<Longrightarrow> lk_holds I l'"
  using keeps_sync(1) keeps_report
  by (auto simp: upload_def uploadCollectingState_def manager_of_def lk_holds_def elim!: bindR_InrE split: option.splits if_splits)

lemma holds_close: "LogKafka_close l = Inr l' \<Longrightarrow> lk_holds I l \<Longrightarrow> lk_holds I l'"
  using keeps_stop
  by (auto simp: LogKafka_close_def LogKafka_stop_def manager_of_def lk_holds_def elim!: bindR_InrE split: if_splits option.splits)

lemma holds_signal:
  assumes "SignalHandler_default_cb l = Inr l'" and "lk_holds I l"
  shows "lk_holds I l'"
proof -
  from assms(1) obtain x where "LogKafka_close l = Inr x" "l' = x\<lparr>lk_signal_handler := Some False\<rparr>"
    by (auto simp: SignalHandler_default_cb_def onSignal_def elim!: bindR_InrE)
  then show ?thesis using holds_close assms(2) by (fastforce simp: lk_holds_def)
qed

lemma holds_dispatch:
  assumes "dispatch print ev l = Inr l'" and "lk_holds J l"
  shows "lk_holds I l'"
proof (cases ev)
  case Refresh_timer
  then have "with_manager (\<lambda>m. case mg_refresh_trigger m of
      Some t \<Rightarrow> if tmw_handle t = Some True then TimerWatcher_cb_func (Some refreshWatchers) m else Inr m
    | None \<Rightarrow> Inr m) l = Inr l'"
    using assms(1) by (simp add: dispatch_def)
  then show ?thesis
    using assms(2) by (rule holds_with_manager)
      (auto simp: TimerWatcher_cb_func_def dest: keeps_refresh J_I split: option.splits if_splits)
next
  case Upload_timer
  then show ?thesis
    using assms(1) holds_weak [OF assms(2)] holds_upload by (auto simp: dispatch_def split: option.splits if_splits)
next
  case (Tail_event p)
  then have "with_manager (\<lambda>m. if tail_active p m then TailWatcher_onNotify updateWatcherRotate p m else Inr m) l = Inr l'"
    using assms(1) by (simp add: dispatch_def)
  then show ?thesis
    using assms(2) by (rule holds_with_manager) (auto dest: keeps_notify J_I split: if_splits)
next
  case Signal_event
  then show ?thesis using assms(1) holds_weak [OF assms(2)] holds_signal by (auto simp: dispatch_def split: if_splits)
next
  case Exit_event
  then show ?thesis using assms(1) holds_weak [OF assms(2)] by (auto simp: dispatch_def exitAsyncCb_def lk_holds_def)
next
  case Zk_event
  then show ?thesis
    using assms(1) holds_weak [OF assms(2)] by (auto simp: dispatch_def lk_holds_def elim!: bindR_InrE split: option.splits)
qed

end

text \<open>The mutex is free, whatever happens.\<close>

interpretation free: manager_law "\<lambda>m. \<not> mg_locked m" "\<lambda>m. \<not> mg_locked m"
  by unfold_locales
    (auto simp: getCollectingState_def elim!: bindR_InrE split: if_splits
      dest: refreshWatchers_unlocks notify_locked collecting_members_locked Manager_stop_locked)

text \<open>The pointers stay valid, as long as no pattern is the path of a file of another one.\<close>

lemma names_sync [simp]: "names (sync zk m) = names m"
  by (simp add: names_def fun_eq_iff sync_def split: option.split)

lemma sync_simps [simp]:
  "m_tails (sync zk m) = m_tails m" "m_tails_deleted (sync zk m) = m_tails_deleted m" "mg_next (sync zk m) = mg_next m"
  by (simp_all add: sync_def split: option.split)

lemma sync_ok [simp]: "pointers_ok (sync zk m) = pointers_ok m" "own_paths (sync zk m) = own_paths m"
  by (simp_all add: pointers_ok_def own_paths_def)

lemma collecting_members_heap: "collecting_members ts m = Inr (vs, m') \<Longrightarrow> same_heap m m'"
proof (induction ts arbitrary: m vs m')
  case (Cons kt ts)
  obtain k tw where [simp]: "kt = (k, tw)" by fastforce
  have "\<exists>vs1 m1. collecting_members ts m1 = Inr (vs1, m') \<and> same_heap m m1"
    using Cons.prems
    by (auto elim!: bindR_InrE split: option.splits if_splits prod.splits) (metis same_heap_refl same_heap_upd(1))+
  then show ?case using Cons.IH same_heap_trans by blast
qed simp

lemma stop_pointers:
  assumes "Manager_stop m = Inr (b, m')" and "pointers_ok m"
  shows "pointers_ok m'"
  using assms stopWatchers_safe by (fastforce simp: Manager_stop_def Let_def elim!: bindR_InrE split: if_splits)

interpretation pointers: manager_law pointers_ok "\<lambda>m. pointers_ok m \<and> own_paths m"
proof unfold_locales
  fix m info m'
  assume "getCollectingState m = Inr (info, m')" and ok: "pointers_ok m"
  then obtain vs where "collecting_members (m_tails m) m = Inr (vs, m')"
    by (auto simp: getCollectingState_def elim!: bindR_InrE split: if_splits)
  then show "pointers_ok m'" using pointers_ok_same [OF collecting_members_heap] ok by blast
qed (auto intro: refreshWatchers_pointers notify_pointers stop_pointers)

definition lk_free :: "LogKafka \<Rightarrow> bool" where
  "lk_free l \<longleftrightarrow> lk_holds (\<lambda>m. \<not> mg_locked m) l"

lemma run_free: "uv_run print evs l = Inr l' \<Longrightarrow> lk_free l \<Longrightarrow> lk_free l'"
  unfolding uv_run_def lk_free_def by (rule each_invariant) (auto dest: free.holds_dispatch)

lemma init_free: "LogKafka_init loop_ok zk_loop zk_timer zlib lib w kc (LogKafka_new c) = Inr (ok, l) \<Longrightarrow> lk_free l"
  by (auto simp: LogKafka_init_def Let_def LogKafka_new_def Manager_init_def initZookeeper_def initKafkaConf_def Manager_new_def
      lk_free_def lk_holds_def elim!: bindR_InrE split: if_splits)

lemma Manager_start_free: "Manager_start d cr tr m = Inr (ok, m') \<Longrightarrow> \<not> mg_locked m \<Longrightarrow> \<not> mg_locked m'"
  by (auto simp: Manager_start_def Let_def dest!: refreshWatchers_unlocks elim!: bindR_InrE split: option.splits prod.splits)

text \<open>The client of a run is in a state that \<open>zk_reach\<close> allows.\<close>

definition zk_known :: "zk_lib \<Rightarrow> LogKafka \<Rightarrow> bool" where
  "zk_known zlib l \<longleftrightarrow> (case lk_zookeeper l of None \<Rightarrow> True | Some z \<Rightarrow> zk_reach zlib z)"

lemma zk_dispatch_reach: "zk_reach zlib z \<Longrightarrow> zk_dispatch e z = Inr z' \<Longrightarrow> zk_reach zlib z'"
  by (cases e) (auto simp: zk_dispatch_def split: if_splits intro: zk_reach.step zk_step.intros)

lemma upload_known: "upload print l = Inr l' \<Longrightarrow> zk_known zlib l \<Longrightarrow> zk_known zlib l'"
proof -
  have "zk_reach zlib (snd (setLogState True buf z))" if "zk_reach zlib z" for buf z
    using that zk_reach.step zk_step.report [of True buf z] by (metis prod.collapse)
  then show "upload print l = Inr l' \<Longrightarrow> zk_known zlib l \<Longrightarrow> zk_known zlib l'"
    by (auto simp: upload_def zk_known_def elim!: bindR_InrE split: option.splits)
qed

lemma close_known: "LogKafka_close l = Inr l' \<Longrightarrow> zk_known zlib l \<Longrightarrow> zk_known zlib l'"
  by (auto simp: LogKafka_close_def LogKafka_stop_def close_zookeeper_def zk_known_def elim!: bindR_InrE
      split: if_splits option.splits) (blast intro: zk_reach.step zk_step.closing)

lemma dispatch_known:
  assumes "dispatch print ev l = Inr l'" and "zk_known zlib l"
  shows "zk_known zlib l'"
proof (cases ev)
  case Upload_timer
  then show ?thesis using assms upload_known by (auto simp: dispatch_def split: option.splits if_splits)
next
  case Signal_event
  then show ?thesis
    using assms
    by (auto simp: dispatch_def SignalHandler_default_cb_def onSignal_def zk_known_def
        dest!: close_known [unfolded zk_known_def, of _ _ zlib] elim!: bindR_InrE split: if_splits option.splits)
next
  case (Zk_event e)
  then show ?thesis
    using assms zk_dispatch_reach by (fastforce simp: dispatch_def zk_known_def elim!: bindR_InrE split: option.splits)
qed (use assms in \<open>auto simp: dispatch_def with_manager_def exitAsyncCb_def zk_known_def elim!: bindR_InrE\<close>)

lemma run_known: "uv_run print evs l = Inr l' \<Longrightarrow> zk_known zlib l \<Longrightarrow> zk_known zlib l'"
  unfolding uv_run_def by (rule each_invariant) (auto dest: dispatch_known)

lemma init_known: "LogKafka_init loop_ok zk_loop zk_timer zlib lib w kc (LogKafka_new c) = Inr (ok, l) \<Longrightarrow> zk_known zlib l"
  by (auto simp: LogKafka_init_def Let_def LogKafka_new_def zk_known_def elim!: bindR_InrE split: if_splits intro: zk_reach.start)


definition sample_daemon :: "(bool \<times> LogKafka) res" where
  "sample_daemon =
     LogKafka_init True True True sample_zk_lib (sample_lib\<lparr>lib_json := (\<lambda>_. None)\<rparr>) (sample_world sample_text 0)
       (mg_kafka_conf sample_manager) (LogKafka_new sample_config)"

definition sample_run :: "(bool \<times> LogKafka) res" where
  "sample_run =
     bindR sample_daemon (\<lambda>(_, l).
       LogKafka_start (Some []) True True 0 (\<lambda>_. ''{}'')
         [Refresh_timer, Upload_timer, Tail_event 0, Zk_event (Zk_session (- 1) 3), Signal_event, Exit_event] l)"


section \<open>Pointers\<close>

text \<open>
  The states of a run in which no pattern is the path of a file of another pattern, at least whenever an event is
  handled.
\<close>

inductive daemon_reach :: "(json \<Rightarrow> string) \<Rightarrow> LogKafka \<Rightarrow> LogKafka \<Rightarrow> bool" for print l0 where
  start: "daemon_reach print l0 l0"
| event: "daemon_reach print l0 l \<Longrightarrow> lk_holds own_paths l \<Longrightarrow> dispatch print ev l = Inr l' \<Longrightarrow> daemon_reach print l0 l'"

lemma reach_pointers: "daemon_reach print l0 l \<Longrightarrow> lk_holds pointers_ok l0 \<Longrightarrow> lk_holds pointers_ok l"
proof (induction rule: daemon_reach.induct)
  case (event l ev l')
  then have "lk_holds (\<lambda>m. pointers_ok m \<and> own_paths m) l" by (simp add: lk_holds_def split: option.splits)
  then show ?case using pointers.holds_dispatch event.hyps(3) by blast
qed simp

lemma init_pointers:
  assumes "LogKafka_init loop_ok zk_loop zk_timer zlib lib w kc (LogKafka_new c) = Inr (ok, l)"
  shows "lk_holds pointers_ok l"
  using assms
  by (auto simp: LogKafka_init_def Let_def LogKafka_new_def Manager_init_def initZookeeper_def initKafkaConf_def Manager_new_def
      lk_holds_def pointers_ok_def names_def smap_ok_def smap_find_def elim!: bindR_InrE split: if_splits)

lemma Manager_start_pointers:
  assumes "Manager_start d cr tr m = Inr (ok, m')" and "pointers_ok m"
  shows "pointers_ok m'"
proof (cases "open_pos_file d cr")
  case None
  then show ?thesis using assms by (simp add: Manager_start_def)
next
  case (Some f)
  with assms(1) obtain pf f1 m1 w1 tr where "refreshWatchers (set_world f1 (m\<lparr>m_position_file := pf, mg_pos_file := True\<rparr>)) = Inr m1"
    and "m' = set_world w1 (m1\<lparr>mg_refresh_trigger := tr\<rparr>)"
    by (auto simp: Manager_start_def Let_def elim!: bindR_InrE split: prod.splits)
  then show ?thesis using refreshWatchers_pointers assms(2) by fastforce
qed

text \<open>
  C4: No dangling pointers: in every state the daemon reaches by handling events, every watcher in the map of the manager
  or in its list of watchers to be deleted is allocated, none is in both, and none is in the map under two patterns, so
  none is freed twice. The one thing asked of the run is that when an event is handled
  no pattern is the path of a file that is followed for another pattern.
\<close>

theorem watcher_pointers_valid:
  assumes "LogKafka_init loop_ok zk_loop zk_timer zlib lib w kc (LogKafka_new c) = Inr (ok, l)"
    and "LogKafka_start d cr tr res print [] l = Inr (ok', l0)"
    and "daemon_reach print l0 l1"
  shows "lk_holds pointers_ok l1"
proof -
  from assms(2) obtain m m1 ok1 where m: "lk_manager l = Some m"
    and m1: "Manager_start d cr tr (sync (lk_zookeeper l) m) = Inr (ok1, m1)"
    by (auto simp: LogKafka_start_def manager_of_def elim!: bindR_InrE split: option.splits)
  have "pointers_ok m1" using Manager_start_pointers [OF m1] init_pointers [OF assms(1)] m by (simp add: lk_holds_def)
  then have "lk_holds pointers_ok l0"
    using assms(2) m m1
    by (auto simp: LogKafka_start_def manager_of_def lk_holds_def uv_run_def Let_def elim!: bindR_InrE
        split: if_splits prod.splits bool.splits)
  then show ?thesis using reach_pointers [OF assms(3)] by blast
qed

definition own_check :: "manager \<Rightarrow> bool" where
  "own_check m \<longleftrightarrow>
     (\<forall>p \<in> set [0..<mg_next m]. case t_heap m p of None \<Rightarrow> True | Some tw \<Rightarrow> tw_path_pattern tw = tw_path tw)"

lemma own_paths_check: "pointers_ok m \<Longrightarrow> own_check m \<Longrightarrow> own_paths m"
  by (auto simp: own_check_def own_paths_def pointers_ok_def names_def split: option.splits)

definition sample_busy :: "(bool \<times> LogKafka) res" where
  "sample_busy =
     bindR (LogKafka_init True True True sample_zk_lib sample_lib (sample_world sample_text 0) (mg_kafka_conf sample_manager)
       (LogKafka_new sample_config)) (\<lambda>(_, l). LogKafka_start (Some []) True True 0 (\<lambda>_. ''{}'') [] l)"

text \<open>A watcher is running, and the upload timer fires.\<close>

definition sample_busy_ok :: "LogKafka \<Rightarrow> bool" where
  "sample_busy_ok l \<longleftrightarrow>
     (case lk_manager l of None \<Rightarrow> False | Some m \<Rightarrow> m_tails m = [(''/a'', Some 0)] \<and> own_check m) \<and>
     \<not> isl (dispatch (\<lambda>_. ''{}'') Upload_timer l)"

lemma sample_busy_runs: "case sample_busy of Inl _ \<Rightarrow> False | Inr (ok, l0) \<Rightarrow> ok \<and> sample_busy_ok l0"
  by code_simp

theorem watcher_pointers_valid_witness:
  "\<exists>l0 l1. sample_busy = Inr (True, l0) \<and> dispatch (\<lambda>_. ''{}'') Upload_timer l0 = Inr l1 \<and> lk_holds pointers_ok l1"
proof -
  let ?pr = "\<lambda>_ :: json. ''{}''"
  obtain l0 where l0: "sample_busy = Inr (True, l0)" and ok: "sample_busy_ok l0"
    using res_InrD [OF sample_busy_runs] by auto
  obtain m where m: "lk_manager l0 = Some m" "own_check m"
    using ok by (cases "lk_manager l0") (auto simp: sample_busy_ok_def)
  obtain l1 where l1: "dispatch ?pr Upload_timer l0 = Inr l1"
    using ok by (cases "dispatch ?pr Upload_timer l0") (auto simp: sample_busy_ok_def)
  from l0 obtain b l where init: "LogKafka_init True True True sample_zk_lib sample_lib (sample_world sample_text 0)
      (mg_kafka_conf sample_manager) (LogKafka_new sample_config) = Inr (b, l)"
    and st: "LogKafka_start (Some []) True True 0 ?pr [] l = Inr (True, l0)"
    by (auto simp: sample_busy_def elim!: bindR_InrE)
  have "lk_holds pointers_ok l0" by (rule watcher_pointers_valid [OF init st daemon_reach.start])
  then have "lk_holds own_paths l0" using own_paths_check m by (simp add: lk_holds_def)
  then have "daemon_reach ?pr l0 l1" using daemon_reach.event [OF daemon_reach.start] l1 by blast
  then show ?thesis using watcher_pointers_valid [OF init st] l0 l1 by blast
qed

section \<open>Records\<close>

lemma sync_records: "records ks (sync zk m) = records ks m"
  by (rule records_same) (simp_all add: sync_def split: option.split)

interpretation records: manager_law records_ok records_ok
proof unfold_locales
  fix m info m'
  assume "getCollectingState m = Inr (info, m')" and ok: "records_ok m"
  then obtain vs where "collecting_members (m_tails m) m = Inr (vs, m')"
    by (auto simp: getCollectingState_def elim!: bindR_InrE split: if_splits)
  then show "records_ok m'" using same_records_ok [OF collecting_members_records] ok by blast
next
  fix p m m'
  assume "TailWatcher_onNotify updateWatcherRotate p m = Inr m'" and "records_ok m"
  then show "records_ok m'" using notify_records [OF _ _ rotate_law] by (auto simp: records_ok_def)
qed (auto simp: records_ok_def sync_records intro: refreshWatchers_records [unfolded records_ok_def]
    stop_manager_records [unfolded records_ok_def])

lemma run_records: "uv_run print evs l = Inr l' \<Longrightarrow> lk_holds records_ok l \<Longrightarrow> lk_holds records_ok l'"
  unfolding uv_run_def by (rule each_invariant) (auto dest: records.holds_dispatch)

lemma dispatch_manager:
  assumes "dispatch print ev l = Inr l'" and "lk_manager l \<noteq> None"
  shows "lk_manager l' \<noteq> None"
proof (cases ev)
  case Upload_timer
  then show ?thesis
    using assms
    by (auto simp: dispatch_def upload_def uploadCollectingState_def elim!: bindR_InrE split: option.splits if_splits)
next
  case Signal_event
  then show ?thesis
    using assms
    by (auto simp: dispatch_def SignalHandler_default_cb_def onSignal_def LogKafka_close_def LogKafka_stop_def elim!: bindR_InrE
        split: if_splits option.splits)
qed (use assms in \<open>auto simp: dispatch_def with_manager_def exitAsyncCb_def elim!: bindR_InrE split: option.splits if_splits\<close>)

lemma run_manager: "uv_run print evs l = Inr l' \<Longrightarrow> lk_manager l \<noteq> None \<Longrightarrow> lk_manager l' \<noteq> None"
  unfolding uv_run_def by (rule each_invariant [where I = "\<lambda>l. lk_manager l \<noteq> None"]) (auto dest: dispatch_manager)

lemma init_manager:
  assumes "LogKafka_init loop_ok zk_loop zk_timer zlib lib w kc (LogKafka_new c) = Inr (ok, l)" and "lk_manager l = Some m"
  shows "t_world m = w \<and> t_heap m = (\<lambda>_. None) \<and> mg_lib m = lib"
  using assms
  by (auto simp: LogKafka_init_def Let_def LogKafka_new_def Manager_init_def initZookeeper_def initKafkaConf_def Manager_new_def
      elim!: bindR_InrE split: if_splits)

lemma Manager_start_records:
  assumes "Manager_start d True True m = Inr (ok, m')" and "pcre2_position_ok (lib_pcre2 (mg_lib m))"
    and "\<forall>e \<in> set es. key_ok (e_key e)" and "os_malloc (w_os (t_world m)) (w_tick (t_world m))"
    and "d = None \<and> es = [] \<or> d = Some (image_of es)" and "t_heap m = (\<lambda>_. None)"
  shows "records_ok m'"
proof -
  obtain f where f: "open_pos_file d True = Some f" "p_data f = image_of es"
    using assms(5) by (auto simp: open_pos_file_def)
  from parse_entries [OF assms(2,3) f(2)] obtain pf f1 where
    parse: "PositionFile_parse True True (lib_pcre2 (mg_lib m)) f = (Some pf, f1)" and rep: "pf_rep (compacted es) pf f1"
    by blast
  let ?m1 = "set_world (w_step ((t_world m)\<lparr>w_posfile := f1\<rparr>)) (m\<lparr>m_position_file := Some pf, mg_pos_file := True\<rparr>)"
  from assms(1) obtain m2 w2 tr where m2: "refreshWatchers ?m1 = Inr m2" and m': "m' = set_world w2 (m2\<lparr>mg_refresh_trigger := tr\<rparr>)"
    and w2: "w_posfile w2 = w_posfile (t_world m2)"
    by (auto simp: Manager_start_def Let_def f parse assms(4) TimerWatcher_init_def elim!: bindR_InrE split: if_splits)
  have "records (map fst (compacted es)) ?m1"
    using rep assms(6) by (auto simp: records_def keys_file_def set_world_def w_step_def)
  then have "records_ok m2" using refreshWatchers_records [OF m2] by blast
  then show ?thesis using w2 records_world [of _ "m2\<lparr>mg_refresh_trigger := tr\<rparr>" w2] unfolding m' by (auto simp: records_ok_def)
qed

text \<open>What the records mean for the bytes of the file.\<close>

lemma records_bytes:
  assumes "records_ok m"
  shows "\<exists>es. p_data (w_posfile (t_world m)) = image_of es \<and>
    (\<forall>p tw. t_heap m p = Some tw \<longrightarrow>
      (\<exists>i < length es. tw_position_entry tw = PE_file (seek_at es i) \<and> e_pattern (es ! i) = tw_path_pattern tw))"
proof -
  obtain ks pf es where es: "map fst es = ks" "pf_rep es pf (w_posfile (t_world m))"
    and own: "\<And>p tw. t_heap m p = Some tw \<Longrightarrow> owns ks tw"
    using assms by (auto simp: records_ok_def records_def keys_file_def)
  have "\<exists>i < length es. tw_position_entry tw = PE_file (seek_at es i) \<and> e_pattern (es ! i) = tw_path_pattern tw"
    if "t_heap m p = Some tw" for p tw
    using own [OF that] es(1) by (auto simp: owns_def points_def seek_at_offset e_pattern_def)
  then show ?thesis using es(2) by (auto simp: pf_rep_def)
qed


definition sample_recording_lib :: manager_lib where
  "sample_recording_lib = sample_lib\<lparr>lib_pcre2 := (\<lambda>_. Some position_match)\<rparr>"

text \<open>A start on an empty file, then a refresh and an upload.\<close>

definition sample_recording :: "(bool \<times> LogKafka) res" where
  "sample_recording =
     bindR (LogKafka_init True True True sample_zk_lib sample_recording_lib (sample_world sample_text 0)
       (mg_kafka_conf sample_manager) (LogKafka_new sample_config)) (\<lambda>(_, l).
       LogKafka_start (Some []) True True 0 (\<lambda>_. ''{}'') [Refresh_timer, Upload_timer] l)"

definition has_watcher :: "LogKafka \<Rightarrow> bool" where
  "has_watcher l \<longleftrightarrow> (case lk_manager l of None \<Rightarrow> False | Some m \<Rightarrow> t_heap m 0 \<noteq> None)"

lemma sample_recording_runs: "case sample_recording of Inl _ \<Rightarrow> False | Inr (ok, l) \<Rightarrow> ok \<and> has_watcher l"
  by code_simp


end
