(* ===== verification/Wiring.thy ===== *)
theory Wiring
  imports Supervise
begin

text \<open>
  What the watchers made by \<open>startWatchers\<close> work with: the sizes, the delimiter and the filter come from the
  configuration, and the producer of their codec is there. Starting watchers changes neither the files nor what was sent.
\<close>

section \<open>The configuration of a watcher\<close>

definition filter_from :: "manager \<Rightarrow> TaskConf \<Rightarrow> FilterRegex option" where
  "filter_from m c =
     (case FilterRegex_init (lib_pcre2 (mg_lib m)) (FilterRegex_new (filter_conf c)) of
        (True, fr) \<Rightarrow> Some fr | (False, _) \<Rightarrow> None)"

definition cutter_from :: "manager \<Rightarrow> TaskConf \<Rightarrow> cutter" where
  "cutter_from m c =
     \<lparr>c_delim = line_delimiter (log_conf c), c_remove = remove_delimiter (log_conf c), c_max = nat (line_max_bytes (mg_config m))\<rparr>"

definition sized :: "manager \<Rightarrow> TailWatcher \<Rightarrow> bool" where
  "sized m tw \<longleftrightarrow>
     tw_max_line_at_once tw = u64 (batchsize (log_conf (tw_conf tw))) \<and>
     tw_line_max_bytes tw = line_max_bytes (mg_config m) \<and> tw_read_max_bytes tw = read_max_bytes (mg_config m) \<and>
     cutter_of_tail tw = cutter_from m (tw_conf tw) \<and> tw_filter tw = filter_from m (tw_conf tw)"

definition has_producer :: "manager \<Rightarrow> TailWatcher \<Rightarrow> bool" where
  "has_producer m tw \<longleftrightarrow> producer_of (compression_codec (kafka_topic_conf (tw_conf tw))) (w_kafka (t_world m)) \<noteq> None"

definition wired_up :: "manager \<Rightarrow> bool" where
  "wired_up m \<longleftrightarrow> (\<forall>p tw. t_heap m p = Some tw \<longrightarrow> sized m tw \<and> has_producer m tw)"

section \<open>What stays\<close>

definition same_outside :: "manager \<Rightarrow> manager \<Rightarrow> bool" where
  "same_outside m m' \<longleftrightarrow>
     w_os (t_world m') = w_os (t_world m) \<and> k_rd (w_kafka (t_world m')) = k_rd (w_kafka (t_world m)) \<and>
     k_log (w_kafka (t_world m')) = k_log (w_kafka (t_world m)) \<and> mg_config m' = mg_config m \<and> mg_lib m' = mg_lib m"

definition keeps_producers :: "manager \<Rightarrow> manager \<Rightarrow> bool" where
  "keeps_producers m m' \<longleftrightarrow>
     (\<forall>c. producer_of c (w_kafka (t_world m)) \<noteq> None \<longrightarrow> producer_of c (w_kafka (t_world m')) \<noteq> None)"

lemma same_outside_refl [simp]: "same_outside m m"
  by (simp add: same_outside_def)

lemma same_outside_trans [trans]: "same_outside a b \<Longrightarrow> same_outside b c \<Longrightarrow> same_outside a c"
  by (simp add: same_outside_def)

lemma sized_same: "same_outside m m' \<Longrightarrow> sized m' tw = sized m tw"
  by (simp add: same_outside_def sized_def filter_from_def cutter_from_def)

lemma initProducer_keeps:
  assumes "initProducer urls codec k = (b, k')"
  shows "k_rd k' = k_rd k" and "k_log k' = k_log k" and "b \<Longrightarrow> producer_of codec k' \<noteq> None"
    and "producer_of c k \<noteq> None \<Longrightarrow> producer_of c k' \<noteq> None"
proof -
  have init: "k_rd k2 = k_rd k1 \<and> k_log k2 = k_log k1" if "Producer_init urls codec kc k1 = (p, k2)" for kc k1 k2 p
    using that by (auto simp: Producer_init_def k_step_def Let_def split: if_splits)
  have touch: "k_rd (touch_producer codec k) = k_rd k" "k_log (touch_producer codec k) = k_log k"
    by (simp_all add: touch_producer_def split: option.split)
  show "k_rd k' = k_rd k" "k_log k' = k_log k"
    using assms touch
    by (auto simp: initProducer_def Let_def dest!: init split: option.splits prod.splits)
  show "b \<Longrightarrow> producer_of codec k' \<noteq> None"
    using assms by (auto simp: initProducer_def Let_def producer_of_put split: option.splits prod.splits)
  show "producer_of c k' \<noteq> None" if "producer_of c k \<noteq> None"
    using assms that
    by (auto simp: initProducer_def Let_def producer_of_put producer_of_touch producer_of_map [OF Producer_init_map]
        split: option.splits prod.splits)
qed

section \<open>Starting watchers\<close>

lemma start_entry_outside:
  assumes "start_entry k t m = Inr (pe, m')"
  shows "same_outside m m'" and "w_kafka (t_world m') = w_kafka (t_world m)" and "t_heap m' = t_heap m"
proof -
  have read: "w_os w' = w_os w \<and> w_kafka w' = w_kafka w" if "pe_readInode pe w = Inr (i, w')" for i w w'
    using that by (auto simp: pe_readInode_def split: PositionEntryPtr.splits option.splits prod.splits)
  have upd: "w_os w' = w_os w \<and> w_kafka w' = w_kafka w" if "pe_update pe i p w = Inr w'" for i p w w'
    using that by (auto simp: pe_update_def split: PositionEntryPtr.splits option.splits prod.splits)
  have entry: "same_outside m m1 \<and> w_kafka (t_world m1) = w_kafka (t_world m) \<and> t_heap m1 = t_heap m"
    if "position_entry key m = Inr (pe, m1)" for key m1
    using that by (auto simp: position_entry_def same_outside_def set_world_def split: option.splits prod.splits)
  have "same_outside m m' \<and> w_kafka (t_world m') = w_kafka (t_world m) \<and> t_heap m' = t_heap m"
  proof (cases "m' = m")
    case False
    with assms obtain m1 where e: "position_entry (PositionEntryKey k (Task_getPath t)) m = Inr (pe, m1)"
      and run: "m' = m1 \<or> (\<exists>i w. pe_readInode pe (t_world m1) = Inr (i, w) \<and> (m' = set_world w m1 \<or>
        (\<exists>ino w'. pe_update pe ino 0 (w_step w) = Inr w' \<and> m' = set_world w' m1)))"
      by (auto simp: start_entry_def elim!: bindR_InrE split: if_splits) blast+
    show ?thesis using run entry [OF e] by (auto simp: same_outside_def set_world_def dest!: read upd)
  qed simp
  then show "same_outside m m'" "w_kafka (t_world m') = w_kafka (t_world m)" "t_heap m' = t_heap m" by blast+
qed

lemma TailWatcher_init_wires:
  assumes "TailWatcher_init pcre2 pat path pe sil rfh ml lm rm d rd recv cf out w = (b, tw, w')"
  shows "w_os w' = w_os w" and "w_kafka w' = w_kafka w" and "tw_conf tw = cf" and "tw_max_line_at_once tw = ml"
    and "tw_line_max_bytes tw = lm" and "tw_read_max_bytes tw = rm" and "tw_line_delimiter tw = d" and "tw_remove_delimiter tw = rd"
    and "tw_filter tw = (case FilterRegex_init pcre2 (FilterRegex_new (filter_conf cf)) of (True, fr) \<Rightarrow> Some fr | (False, _) \<Rightarrow> None)"
  using assms
  by (auto simp: TailWatcher_init_def TimerWatcher_init_def StatWatcher_init_def Let_def w_step_def split: if_splits)

lemma setupWatcher_wires:
  assumes "setupWatcher cf pat path pe m = Inr (q, m')" and "wired_up m"
  shows "same_outside m m'" and "keeps_producers m m'" and "wired_up m'"
proof -
  let ?codec = "compression_codec (kafka_topic_conf cf)" and ?k0 = "setKafkaConf (mg_kafka_conf m) (w_kafka (t_world m))"
  obtain b k1 where k1: "initProducer (lib_broker_urls (mg_lib m) (w_tick (t_world m))) ?codec ?k0 = (b, k1)" by fastforce
  note p = initProducer_keeps [OF k1]
  have k0: "producer_of c ?k0 = producer_of c (w_kafka (t_world m))" "k_rd ?k0 = k_rd (w_kafka (t_world m))"
    "k_log ?k0 = k_log (w_kafka (t_world m))" for c
    by (simp_all add: setKafkaConf_def producer_of_def)
  let ?w = "w_step ((t_world m)\<lparr>w_kafka := k1\<rparr>)"
  obtain ok tw w' where i: "TailWatcher_init (lib_pcre2 (mg_lib m)) pat path pe
      (stat_silent_max_ms (mg_config m)) (read_from_head (log_conf cf)) (u64 (batchsize (log_conf cf)))
      (line_max_bytes (mg_config m)) (read_max_bytes (mg_config m)) (line_delimiter (log_conf cf))
      (remove_delimiter (log_conf cf)) (Some receiveLines) cf
      (Some (setKafkaTopicConf (kafka_topic_conf cf) \<lparr>m_kafka_topic_conf = KafkaTopicConf_new\<rparr>)) ?w = (ok, tw, w')"
    by (metis prod_cases3)
  note i' = TailWatcher_init_wires [OF i]
  have sized: "sized m tw"
    using i' by (simp add: sized_def filter_from_def cutter_from_def cutter_of_tail_def)
  have "m' = set_world ?w m \<or> b \<and> (\<exists>m1. m1 = (store (mg_next m) tw (set_world w' m))\<lparr>mg_next := mg_next m + 1\<rparr> \<and>
      (m' = m1 \<or> TailWatcher_destroy (mg_next m) m1 = Inr m'))"
    using assms(1) by (auto simp: setupWatcher_def Let_def k1 i elim!: bindR_InrE split: if_splits bool.splits)
  then have kafka: "w_kafka (t_world m') = k1"
    and frame: "w_os (t_world m') = w_os (t_world m)" "mg_config m' = mg_config m" "mg_lib m' = mg_lib m"
    and heap: "\<And>x tw'. t_heap m' x = Some tw' \<Longrightarrow> t_heap m x = Some tw' \<or> b \<and> tw_conf tw' = cf \<and> sized m tw'"
    using i' sized
    by (auto simp: TailWatcher_destroy_def deref_def set_world_def store_def split: if_splits option.splits elim!: bindR_InrE)
  show same: "same_outside m m'" using p(1,2) k0(2,3) kafka frame by (simp add: same_outside_def)
  show keep: "keeps_producers m m'" using p(4) k0(1) kafka by (simp add: keeps_producers_def)
  show "wired_up m'"
    using assms(2) heap p(3) keep sized_same [OF same] kafka
    unfolding wired_up_def has_producer_def keeps_producers_def by metis
qed

lemma startWatchers_wires:
  "startWatchers ks m = Inr m' \<Longrightarrow> wired_up m \<Longrightarrow> same_outside m m' \<and> wired_up m'"
proof (induction ks arbitrary: m)
  case (Cons k ks)
  show ?case
  proof (cases "m' = m")
    case False
    with Cons.prems(1) obtain t pe m1 q m2 where e: "start_entry k t m = Inr (pe, m1)"
      and q: "setupWatcher (conf t) k (Task_getPath t) pe m1 = Inr (q, m2)"
      and rest: "startWatchers ks (if q = None then m2 else put_tail k q m2) = Inr m'"
      by (auto elim!: bindR_InrE split: if_splits)
    note e' = start_entry_outside [OF e]
    have "wired_up m1"
      using Cons.prems(2) e'(2,3) sized_same [OF e'(1)] by (simp add: wired_up_def has_producer_def)
    note w = setupWatcher_wires [OF q this]
    let ?m2 = "if q = None then m2 else put_tail k q m2"
    have "same_outside m2 ?m2" by (simp add: same_outside_def put_tail_def)
    moreover have "wired_up ?m2"
      using w(3) sized_same [OF \<open>same_outside m2 ?m2\<close>] by (simp add: wired_up_def has_producer_def put_tail_def)
    ultimately show ?thesis
      using Cons.IH [OF rest] same_outside_trans e'(1) w(1) by blast
  qed (use Cons.prems in simp)
qed simp

end
