(* ===== verification/Restart.thy ===== *)
theory Restart
  imports Records Wiring
begin

text \<open>
  A restart of the daemon: from the bytes of the position file to the watchers and the entries they
  resume from.
\<close>

section \<open>The first path of a task\<close>

text \<open>
  The path at which a task made by the first refresh starts: the last one of the position file for a dated
  pattern, and the pattern itself for a pattern without conversion specifications. The files are still there.
\<close>

definition expands_to :: "manager \<Rightarrow> nat \<Rightarrow> string \<Rightarrow> string" where
  "expands_to m n k = (case lib_strftime (mg_lib m) n (cstr k) of None \<Rightarrow> k | Some p \<Rightarrow> cstr p)"

definition resumes_at :: "manager \<Rightarrow> string \<Rightarrow> TaskConf \<Rightarrow> string \<Rightarrow> bool" where
  "resumes_at m k c l \<longleftrightarrow>
     (\<forall>n p. lib_access (mg_lib m) n p) \<and>
     ((\<forall>n. expands_to m n k \<noteq> k) \<and> follow_last (log_conf c) \<and>
        (\<exists>pf. m_position_file m = Some pf \<and> PositionFile_getPath k pf = Some l) \<or>
      (\<forall>n. expands_to m n k = k) \<and> l = k)"

lemma expandPath_at: "expandPath k m = (expands_to m (tick m) k, at_tick (tick m + 1) m)"
  by (simp add: expandPath_def expands_to_def next_tick_at)

lemma expands_at [simp]: "expands_to (at_tick i m) n k = expands_to m n k"
  by (simp add: expands_to_def)

lemma first_in_queue: "Task_getPath t = (case paths (stat t) of [] \<Rightarrow> [] | p # _ \<Rightarrow> p)"
  by (simp add: Task_getPath_def getFirstPath_def TaskStat_getPath_def split: list.split)

lemma addPath_front: "Task_getPath (snd (addPath t p)) = (if hasPath t then Task_getPath t else p)"
  by (simp add: first_in_queue addPath_def hasPath_def Let_def split: list.split)

lemma fold_addPath_front:
  "hasPath t \<Longrightarrow> hasPath (fold (\<lambda>p t. snd (addPath t p)) ps t) \<and> Task_getPath (fold (\<lambda>p t. snd (addPath t p)) ps t) = Task_getPath t"
proof (induction ps arbitrary: t)
  case (Cons p ps)
  then show ?case using pq.add_last [of t p] addPath_front [of t p] by (simp add: hasPath_def)
qed simp

lemma flag_front:
  "hasPath (t\<lparr>stat := (stat t)\<lparr>first_update_paths := b\<rparr>\<rparr>) = hasPath t"
  "Task_getPath (t\<lparr>stat := (stat t)\<lparr>first_update_paths := b\<rparr>\<rparr>) = Task_getPath t"
  by (simp_all add: hasPath_def first_in_queue)

lemma first_update_same: "first_update k k t m = Inr (t', m') \<Longrightarrow> t' = t"
  by (simp add: first_update_def)

lemma first_update_front:
  assumes "first_update k e t m = Inr (t', m')" and "\<not> hasPath t"
    and "e \<noteq> k" and "first_update_paths (stat t)" and "follow_last (log_conf (conf t))" and "m_position_file m = Some pf"
    and "PositionFile_getPath k pf = Some l"
  shows "hasPath t' \<and> Task_getPath t' = l"
proof -
  define t1 where "t1 = snd (addPath t l)"
  have t1: "hasPath t1" "Task_getPath t1 = l"
    using pq.add_last [of t l] addPath_front [of t l] assms(2) by (simp_all add: hasPath_def t1_def)
  obtain ok gs m1 where g: "getPathPatternGlobed k m = Inr (ok, gs, m1)"
    using assms(1,3-7) by (auto simp: first_update_def Let_def elim!: bindR_InrE)
  then have "t' = (let t2 = (if ok then fold (\<lambda>p t. snd (addPath t p)) (filter (\<lambda>p. p > l \<and> p < e) gs) t1 else t1)
      in t2\<lparr>stat := (stat t2)\<lparr>first_update_paths := False\<rparr>\<rparr>)"
    using assms(1,3-7) by (cases ok) (auto simp: first_update_def Let_def t1_def)
  then show ?thesis using t1 fold_addPath_front [OF t1(1)] by (simp add: Let_def flag_front)
qed

text \<open>With the files there and no watcher, nothing expires.\<close>

lemma expire_loop_front:
  assumes "smap_find (m_tails m) k = None" and "\<forall>n p. lib_access (mg_lib m) n p"
  shows "\<exists>n. loop (expire_step k e) (t, m) = Some (Inr (t, at_tick n m))"
proof -
  have "expire_step k e (t, m) = Inr (False, t, at_tick (if hasPath t then tick m + 1 else tick m) m)"
    using assms by (simp add: expire_step_def expire_missing_def next_tick_at at_tick_now)
  then show ?thesis using loop_done [of "expire_step k e" "(t, m)"] by auto
qed

lemma globed_tick: "getPathPatternGlobed k m = Inr (ok, gs, m') \<Longrightarrow> m' = at_tick (tick m + 1) m"
  by (cases "returns (loop glob_step k)") (simp_all add: getPathPatternGlobed_def next_tick_at split: prod.splits)

lemma first_update_tick:
  assumes "first_update k e t m = Inr (t', m')"
  shows "\<exists>n. m' = at_tick n m"
proof (cases "getPathPatternGlobed k m")
  case (Inl b)
  then have "m' = m"
    using assms by (simp add: first_update_def Let_def split: if_splits option.splits)
  then show ?thesis using at_tick_now [of m] by metis
next
  case (Inr g)
  then obtain ok gs where g: "getPathPatternGlobed k m = Inr (ok, gs, at_tick (tick m + 1) m)"
    using globed_tick [of k m] by (cases g) auto
  have "m' = m \<or> m' = at_tick (tick m + 1) m"
    using assms by (simp add: first_update_def Let_def g split: if_splits option.splits)
  then show ?thesis using at_tick_now [of m] by metis
qed

lemma updateTaskPaths_front:
  assumes "updateTaskPaths k m = Inr m'" and "getTask m k = Some t" and "\<not> hasPath t" and "first_update_paths (stat t)"
    and "smap_find (m_tails m) k = None" and "resumes_at m k (conf t) l"
  shows "\<exists>t'. getTask m' k = Some t' \<and> Task_getPath t' = l"
proof -
  define e m1 where "e = expands_to m (tick m) k" and "m1 = at_tick (tick m + 1) m"
  from assms(1,2) obtain t1 m2 t2 m3 where m2: "first_update k e t m1 = Inr (t1, m2)"
    and run: "returns (loop (expire_step k e) (t1, m2)) = Inr (t2, m3)"
    and m': "m' = put_task k (snd (addPath t2 e)) m3"
    by (auto simp: updateTaskPaths_def expandPath_at task_at_def e_def m1_def elim!: bindR_InrE split: if_splits)
  obtain n2 where n2: "m2 = at_tick n2 m" using first_update_tick [OF m2] by (auto simp: m1_def)
  then obtain n where "loop (expire_step k e) (t1, m2) = Some (Inr (t1, at_tick n m2))"
    using expire_loop_front [of m2 k e t1] assms(5,6) by (auto simp: resumes_at_def)
  then have "t2 = t1" using run by simp
  moreover have "hasPath t1 \<and> Task_getPath t1 = l \<or> \<not> hasPath t1 \<and> e = l"
  proof (cases "e = k")
    case True
    then show ?thesis
      using assms(3,6) first_update_same m2 unfolding resumes_at_def e_def by metis
  next
    case False
    then obtain pf where "m_position_file m = Some pf" "PositionFile_getPath k pf = Some l" "follow_last (log_conf (conf t))"
      using assms(6) unfolding resumes_at_def e_def by metis
    then show ?thesis using first_update_front [OF m2 assms(3) False assms(4)] by (simp add: m1_def)
  qed
  ultimately show ?thesis
    using m' addPath_front [of t2 e] by auto
qed

section \<open>The tasks of the first refresh\<close>

lemma resumes_at_retasked:
  assumes "retasked m ks m'"
  shows "resumes_at m' k c l = resumes_at m k c l"
proof -
  have m': "m' = (at_tick (tick m') m)\<lparr>m_tasks := m_tasks m'\<rparr>" using assms by (simp add: retasked_def)
  have "mg_lib m' = mg_lib m" by (subst m', simp)
  then show ?thesis by (simp add: resumes_at_def expands_to_def retasked_frame [OF assms])
qed

lemma add_task_front:
  assumes "add_task k m = Inr m'" and "smap_find (m_task_confs m) k = Some c" and "smap_find (m_tails m) k = None"
    and "resumes_at m k c l"
  shows "\<exists>t. getTask m' k = Some t \<and> Task_getPath t = l"
proof -
  let ?t = "(Task_new (lib_junk (mg_lib m) (tick m) k ''Task'') (cfg_path_queue_max_size (mg_config m)))\<lparr>conf := c\<rparr>"
  have run: "updateTaskPaths k (put_task k ?t m) = Inr m'"
    using assms(1,2) by (simp add: add_task_def task_conf_at_def)
  have new: "\<not> hasPath ?t" "first_update_paths (stat ?t)" "conf ?t = c"
    by (simp_all add: hasPath_def Task_new_def TaskStat_new_def)
  have "resumes_at (put_task k ?t m) k c l"
    using assms(4) by (simp add: resumes_at_def expands_to_def put_task_def)
  then show ?thesis
    using updateTaskPaths_front [OF run _ new(1,2)] assms(3) new(3) by (simp add: put_task_def getTask_def sm.find_put)
qed

lemma addTasks_front:
  assumes "addTasks ks m = Inr m'" and "tasks_ready confs m" and "\<forall>k \<in> set ks. smap_find confs k \<noteq> None \<and> conv_ok k"
    and "distinct ks" and "k \<in> set ks" and "smap_find confs k = Some c" and "smap_find (m_tails m) k = None" and "resumes_at m k c l"
  shows "\<exists>t. getTask m' k = Some t \<and> Task_getPath t = l"
proof -
  obtain xs ys where ks: "ks = xs @ k # ys" and "k \<notin> set ys" using assms(4,5) by (auto simp: in_set_conv_decomp)
  obtain m1 where m1: "addTasks xs m = Inr m1" "retasked m xs m1" "tasks_ready confs m1"
    using addTasks_runs [OF assms(2), of xs] assms(3) ks by auto
  then obtain m2 where m2: "add_task k m1 = Inr m2" and m3: "addTasks ys m2 = Inr m'"
    using assms(1) by (auto simp: addTasks_def ks each_append elim!: bindR_InrE)
  have "smap_find (m_task_confs m1) k = Some c" "smap_find (m_tails m1) k = None"
    using assms(2,6,7) retasked_frame [OF m1(2)] by (simp_all add: tasks_ready_def)
  then obtain t where t: "getTask m2 k = Some t" "Task_getPath t = l"
    using add_task_front [OF m2] resumes_at_retasked [OF m1(2)] assms(8) by blast
  obtain m4 where "addTasks [k] m1 = Inr m4" "tasks_ready confs m4"
    using addTasks_runs [OF m1(3), of "[k]"] assms(3) ks by auto
  then have "tasks_ready confs m2" using m2 by (simp add: addTasks_def)
  then have "retasked m2 ys m'" using addTasks_runs [of confs m2 ys] m3 assms(3) ks by auto
  then have "getTask m' k = getTask m2 k" using \<open>k \<notin> set ys\<close> by (simp add: retasked_def getTask_def)
  then show ?thesis using t by simp
qed

lemma refreshTasks_front:
  assumes "refreshTasks m = Inr (True, m')" and "m_tasks m = []" and "m_tails m = []" and "tasks_ready (m_task_confs m) m"
    and "\<forall>k. smap_find (m_task_confs m) k \<noteq> None \<longrightarrow> conv_ok k"
    and "smap_find (m_task_confs m) k = Some c" and "resumes_at m k c l"
  shows "\<exists>t. getTask m' k = Some t \<and> Task_getPath t = l"
proof -
  let ?add = "diff_set (getTaskConfsKeys m) (getTasksKeys m)"
  have empty: "getTasksKeys m = []" using assms(2) by (simp add: getTasksKeys_def smap_keys_def sset_collect_def)
  then have none: "diff_set (getTasksKeys m) (getTaskConfsKeys m) = []" "intersect_set (getTasksKeys m) (getTaskConfsKeys m) = []"
    by (simp_all add: diff_set_def intersect_set_def sset_collect_def)
  have keys: "k \<in> set ?add \<longleftrightarrow> smap_find (m_task_confs m) k \<noteq> None" for k
    using task_diffs(1) [of k m] assms(2) by simp
  have dist: "distinct ?add"
    using diff_set_props(2) [OF keys_sset(1) [of "smap_keys (m_task_confs m)"], of "[]", folded getTaskConfsKeys_def]
    by (simp add: empty strict_sorted_iff)
  have "deleteTasks [] m = m" by (simp add: deleteTasks_def)
  then obtain m1 m2 where m1: "addTasks ?add m = Inr m1" and m2: "delete_old_tails m1 = Inr m2" "m' = m2"
    using assms(1) by (auto simp: refreshTasks_def Let_def none updateTasks_def elim!: bindR_InrE)
  have "\<exists>t. getTask m1 k = Some t \<and> Task_getPath t = l"
    by (rule addTasks_front [OF m1 assms(4) _ dist _ assms(6) _ assms(7)]) (use keys assms(3,5,6) in auto)
  moreover have "m_tasks m2 = m_tasks m1"
    using m2(1) by (auto simp: delete_old_tails_def dest!: destroy_all_heap elim!: bindR_InrE)
  ultimately show ?thesis using m2(2) by (simp add: getTask_def)
qed

section \<open>The entries while the watchers start\<close>

text \<open>The file holds these entries, one for every key of the map.\<close>

definition remembers :: "pentry list \<Rightarrow> manager \<Rightarrow> bool" where
  "remembers es m \<longleftrightarrow>
     distinct (map fst es) \<and>
     (\<exists>pf. m_position_file m = Some pf \<and> pf_rep es pf (w_posfile (t_world m)) \<and>
       (\<forall>k. smap_find (m_pe_map pf) k \<noteq> None \<longleftrightarrow> k \<in> fst ` set es))"

lemma remembers_same:
  assumes "m_position_file m' = m_position_file m" and "p_data (w_posfile (t_world m')) = p_data (w_posfile (t_world m))"
  shows "remembers es m' = remembers es m"
  using assms by (simp add: remembers_def pf_rep_def)

text \<open>An entry that was in use; starting a watcher does not touch it.\<close>

definition in_use :: "pentry \<Rightarrow> bool" where
  "in_use e \<longleftrightarrow> storable_ino (e_ino e) \<and> e_ino e \<noteq> INO_NONE"

definition keeps :: "pentry list \<Rightarrow> pentry list \<Rightarrow> bool" where
  "keeps es es' \<longleftrightarrow> (\<exists>js. map fst es' = map fst es @ js) \<and> (\<forall>e \<in> set es. in_use e \<longrightarrow> e \<in> set es')"

lemma keeps_refl [simp]: "keeps es es"
  by (simp add: keeps_def)

lemma keeps_trans [trans]: "keeps a b \<Longrightarrow> keeps b c \<Longrightarrow> keeps a c"
  by (auto simp: keeps_def)

lemma keeps_points: "keeps es es' \<Longrightarrow> points (map fst es) pe k \<Longrightarrow> points (map fst es') pe k"
  using points_append by (auto simp: keeps_def)

lemma position_entry_remembers:
  assumes "position_entry k m = Inr (pe, m')" and "remembers es m"
  shows "\<exists>es'. remembers es' m' \<and> keeps es es' \<and> points (map fst es') pe k"
proof -
  obtain pf where pf: "m_position_file m = Some pf" and rep: "pf_rep es pf (w_posfile (t_world m))"
    and dist: "distinct (map fst es)" and keys: "\<And>k. smap_find (m_pe_map pf) k \<noteq> None \<longleftrightarrow> k \<in> fst ` set es"
    using assms(2) by (auto simp: remembers_def)
  show ?thesis
  proof (cases "smap_find (m_pe_map pf) k")
    case None
    let ?es = "es @ [(k, 0, 0)]" and ?s = "seek_at (es @ [(k, 0, 0)]) (length es)"
    obtain pf' f' where i: "PositionFile_index k (pf, w_posfile (t_world m)) = (?s, (pf', f'))"
      and rep': "pf_rep ?es pf' f'"
      using index_new [OF rep None] by blast
    have map': "m_pe_map pf' = smap_put k ?s (m_pe_map pf)"
      using i None by (simp add: PositionFile_index_def Let_def) auto
    have m': "pe = PE_file ?s" "m' = set_world ((t_world m)\<lparr>w_posfile := f'\<rparr>) (m\<lparr>m_position_file := Some pf'\<rparr>)"
      using assms(1) pf i by (simp_all add: position_entry_def)
    have "distinct (map fst ?es)" using dist keys [of k] None by auto
    moreover have "smap_find (m_pe_map pf') j \<noteq> None \<longleftrightarrow> j \<in> fst ` set ?es" for j
      using keys [of j] by (auto simp: map' sm.find_put)
    ultimately have "remembers ?es m'" using rep' m'(2) by (simp add: remembers_def)
    moreover have "keeps es ?es" by (auto simp: keeps_def)
    moreover have "points (map fst ?es) pe k"
      unfolding points_def using m'(1) by (intro exI [of _ "length es"]) (auto simp: seek_at_offset nth_append)
    ultimately show ?thesis by blast
  next
    case (Some s)
    then have m': "m' = set_world ((t_world m)\<lparr>w_posfile := w_posfile (t_world m)\<rparr>) (m\<lparr>m_position_file := Some pf\<rparr>)" "pe = PE_file s"
      using assms(1) pf index_old [OF Some] by (simp_all add: position_entry_def)
    then have "remembers es m'" using assms(2) pf remembers_same [of m' m es] by simp
    moreover obtain i where "i < length es" "e_key (es ! i) = k" "s = seek_at es i"
      using rep Some unfolding pf_rep_def by blast
    then have "points (map fst es) pe k" using m'(2) by (auto simp: points_def seek_at_offset)
    ultimately show ?thesis using keeps_refl by blast
  qed
qed

text \<open>An entry without inode is given that of the file; the others stay.\<close>

lemma update_unused:
  assumes "remembers es (set_world w m)" and "points (map fst es) pe k" and "stored_ino pe w = Inr 0"
    and "pe_update pe ino pos w = Inr w'"
  shows "\<exists>es'. remembers es' (set_world w' m) \<and> keeps es es' \<and> map fst es' = map fst es"
proof -
  obtain i where i: "i < length es" "e_key (es ! i) = k" "pe = PE_file (seek_at es i)"
    using assms(2) by (auto simp: points_def seek_at_offset)
  obtain pf where pf: "m_position_file m = Some pf" "pf_rep es pf (w_posfile w)" and dist: "distinct (map fst es)"
    and keys: "\<And>k. smap_find (m_pe_map pf) k \<noteq> None \<longleftrightarrow> k \<in> fst ` set es"
    using assms(1) by (auto simp: remembers_def)
  let ?es = "es[i := (e_key (es ! i), pos, ino)]"
  have fst: "map fst ?es = map fst es" using map_fst_update [OF i(1)] .
  have w': "w_posfile w' = FilePE_update (seek_at es i) ino pos (w_posfile w)" using assms(4) i(3) by (auto simp: pe_update_def)
  have "pf_rep ?es pf (w_posfile w')" unfolding w' by (rule update_rep [OF pf(2) i(1)])
  moreover have "fst ` set ?es = fst ` set es" using fst by (metis list.set_map)
  ultimately have "remembers ?es (set_world w' m)" using pf(1) dist keys fst by (simp add: remembers_def)
  moreover have "\<not> in_use (es ! i)"
    using read_rep(2) [OF pf(2) i(1)] assms(3) i(3)
    by (auto simp: in_use_def stored_ino_def pe_readInode_def split: prod.splits)
  then have "e \<in> set ?es" if "e \<in> set es" "in_use e" for e
    using that i(1) by (metis in_set_conv_nth length_list_update nth_list_update_neq)
  then have "keeps es ?es" using fst by (simp add: keeps_def)
  ultimately show ?thesis using fst by blast
qed

lemma points_entry:
  assumes "remembers es m" and "points (map fst es) pe k"
  shows "pe_ok pe (t_world m)"
  using assms entry_at_rep(1) by (fastforce simp: remembers_def points_def seek_at_offset [symmetric] pe_ok_def)

lemma start_entry_remembers:
  assumes "start_entry k t m = Inr (pe, m')" and "remembers es m"
  shows "\<exists>es'. remembers es' m' \<and> keeps es es' \<and> points (map fst es') pe (PositionEntryKey k (Task_getPath t))"
proof -
  have "m_position_file m \<noteq> None" using assms(2) by (auto simp: remembers_def)
  with assms(1) obtain m1 where e: "position_entry (PositionEntryKey k (Task_getPath t)) m = Inr (pe, m1)"
    and m': "m' = m1 \<or> (\<exists>i w. pe_readInode pe (t_world m1) = Inr (i, w) \<and> (m' = set_world w m1 \<or>
      i = 0 \<and> (\<exists>ino w'. pe_update pe ino 0 (w_step w) = Inr w' \<and> m' = set_world w' m1)))"
    by (auto simp: start_entry_def elim!: bindR_InrE split: if_splits) blast+
  obtain es1 where es1: "remembers es1 m1" "keeps es es1" "points (map fst es1) pe (PositionEntryKey k (Task_getPath t))"
    using position_entry_remembers [OF e assms(2)] by blast
  from m' show ?thesis
  proof (elim disjE exE conjE)
    assume "m' = m1"
    then show ?thesis using es1 by blast
  next
    fix i w assume "pe_readInode pe (t_world m1) = Inr (i, w)" "m' = set_world w m1"
    then have "remembers es1 m'" using es1(1) remembers_same [of m' m1 es1] read_data(1) by simp
    then show ?thesis using es1 by blast
  next
    fix i w ino w' assume r: "pe_readInode pe (t_world m1) = Inr (i, w)" and "i = 0"
      and u: "pe_update pe ino 0 (w_step w) = Inr w'" and m': "m' = set_world w' m1"
    have same: "p_data (w_posfile (w_step w)) = p_data (w_posfile (t_world m1))" using read_data(1) [OF r] by simp
    then have rem: "remembers es1 (set_world (w_step w) m1)"
      using es1(1) remembers_same [of "set_world (w_step w) m1" m1 es1] by simp
    have "stored_ino pe (w_step w) = Inr 0"
      using readInode_entry [OF points_entry [OF es1(1,3)]] r \<open>i = 0\<close> by (auto simp: same_entry_def)
    from update_unused [OF rem es1(3) this u] obtain es2 where
      "remembers es2 m'" "keeps es1 es2" "map fst es2 = map fst es1"
      using m' by blast
    then show ?thesis using keeps_trans [OF es1(2)] es1(3) by metis
  qed
qed

lemma start_entry_watchers: "start_entry k t m = Inr (pe, m') \<Longrightarrow> t_heap m' = t_heap m"
  by (auto simp: start_entry_def position_entry_def elim!: bindR_InrE split: if_splits option.splits prod.splits)

text \<open>Every watcher writes into the record of its pattern and path.\<close>

definition exact :: "pentry list \<Rightarrow> manager \<Rightarrow> bool" where
  "exact es m \<longleftrightarrow>
     (\<forall>p tw. t_heap m p = Some tw \<longrightarrow> points (map fst es) (tw_position_entry tw) (PositionEntryKey (tw_path_pattern tw) (tw_path tw)))"

lemma startWatchers_remembers:
  "startWatchers ks m = Inr m' \<Longrightarrow> remembers es m \<Longrightarrow> exact es m \<Longrightarrow> \<exists>es'. remembers es' m' \<and> keeps es es' \<and> exact es' m'"
proof (induction ks arbitrary: m es)
  case (Cons k ks)
  show ?case
  proof (cases "m' = m")
    case True
    then show ?thesis using Cons.prems keeps_refl by blast
  next
    case False
    with Cons.prems(1) obtain t pe m1 q m2 where e: "start_entry k t m = Inr (pe, m1)"
      and q: "setupWatcher (conf t) k (Task_getPath t) pe m1 = Inr (q, m2)"
      and rest: "startWatchers ks (if q = None then m2 else put_tail k q m2) = Inr m'"
      by (auto elim!: bindR_InrE split: if_splits)
    obtain es1 where es1: "remembers es1 m1" "keeps es es1" "points (map fst es1) pe (PositionEntryKey k (Task_getPath t))"
      using start_entry_remembers [OF e Cons.prems(2)] by blast
    have heap: "t_heap m1 = t_heap m" using start_entry_watchers [OF e] .
    let ?m2 = "if q = None then m2 else put_tail k q m2"
    have "remembers es1 ?m2"
      using es1(1) setupWatcher_file(1,2) [OF q] remembers_same [of ?m2 m1 es1] by (simp add: put_tail_def)
    moreover have "points (map fst es1) (tw_position_entry tw) (PositionEntryKey (tw_path_pattern tw) (tw_path tw))"
      if "t_heap ?m2 p = Some tw" for p tw
    proof -
      have "t_heap m2 p = Some tw" using that by (simp add: put_tail_def split: if_splits)
      from setupWatcher_file(3) [OF q this] show ?thesis
        using es1(3) Cons.prems(3) keeps_points [OF es1(2)] heap by (auto simp: exact_def)
    qed
    then have "exact es1 ?m2" by (simp add: exact_def)
    ultimately obtain es2 where "remembers es2 m'" "keeps es1 es2" "exact es2 m'"
      using Cons.IH [OF rest] by blast
    then show ?thesis using keeps_trans [OF es1(2)] by blast
  qed
qed (auto intro: keeps_refl)

text \<open>What the watcher of an entry reads.\<close>

lemma remembers_read:
  assumes "remembers es m" and "points (map fst es) pe (e_key e)" and "e \<in> set es"
    and "storable_pos (e_pos e)" and "storable_ino (e_ino e)"
  shows "stored_pos pe (t_world m) = Inr (e_pos e)" and "stored_ino pe (t_world m) = Inr (e_ino e)"
proof -
  obtain i where i: "i < length es" "e_key (es ! i) = e_key e" "pe = PE_file (seek_at es i)"
    using assms(2) by (auto simp: points_def seek_at_offset)
  have dist: "distinct (map fst es)" using assms(1) by (simp add: remembers_def)
  obtain j where j: "j < length es" "es ! j = e" using assms(3) by (auto simp: in_set_conv_nth)
  then have "i = j" using dist i nth_eq_iff_index_eq [OF dist, of i j] by simp
  then have e: "es ! i = e" using j by simp
  obtain pf where "pf_rep es pf (w_posfile (t_world m))" using assms(1) by (auto simp: remembers_def)
  from read_rep [OF this i(1)] show "stored_pos pe (t_world m) = Inr (e_pos e)" "stored_ino pe (t_world m) = Inr (e_ino e)"
    using assms(4,5) e i(3) by (auto simp: stored_pos_def stored_ino_def pe_readPos_def pe_readInode_def split: prod.split)
qed

section \<open>Restart\<close>

lemma compacted_distinct: "distinct (map fst (compacted es))"
proof -
  let ?m = "fold keep_entry es []"
  have "map e_pattern (compacted es) = map fst ?m"
    using keep_entries_mem [of _ es "[]"] by (auto simp: compacted_def)
  moreover have "distinct (map fst ?m)"
    using ok_keep_entries [OF smap_ok_Nil, of es] by (simp add: smap_ok_def strict_sorted_iff)
  ultimately have "distinct (map pe_path_pattern (map fst (compacted es)))" by (simp add: e_pattern_def [abs_def] o_def)
  then show ?thesis by (simp only: distinct_map)
qed

text \<open>The configuration does not depend on the position file.\<close>

lemma refreshTaskConfs_like:
  assumes "refreshTaskConfs m = Inr (True, m1)" and "mg_zookeeper m' = mg_zookeeper m" and "mg_lib m' = mg_lib m"
    and "mg_config m' = mg_config m" and "tick m' = tick m"
  shows "refreshTaskConfs m' = Inr (True, (next_tick m')\<lparr>m_task_confs := m_task_confs m1\<rparr>)" and "smap_ok (m_task_confs m1)"
  using assms
  by (auto simp: refreshTaskConfs_def Let_def add_confs_ok split: if_splits option.splits json.splits)

text \<open>A manager that was initialised but not started, on libraries that do what they are asked.\<close>

definition unstarted :: "manager \<Rightarrow> bool" where
  "unstarted m \<longleftrightarrow>
     \<not> mg_locked m \<and> mg_zookeeper m \<and> m_tasks m = [] \<and> m_tails m = [] \<and> m_tails_deleted m = [] \<and> t_heap m = (\<lambda>_. None)"

definition obliging :: "manager \<Rightarrow> bool" where
  "obliging m \<longleftrightarrow>
     (\<forall>n. os_uv (w_os (t_world m)) n) \<and> rd_ok (k_rd (w_kafka (t_world m))) \<and> pcre2_position_ok (lib_pcre2 (mg_lib m)) \<and>
     os_malloc (w_os (t_world m)) (tick m) \<and> (\<forall>n p. lib_access (mg_lib m) n p)"

lemma init_unstarted:
  assumes "Manager_init True (Manager_new lib w junk_conf c) = Inr (ok, m)"
  shows "unstarted m"
  using assms by (auto simp: Manager_init_def initZookeeper_def initKafkaConf_def Manager_new_def unstarted_def)

text \<open>The position file is read and compacted; after the refresh only the timer is missing.\<close>

definition timer_only :: "manager \<Rightarrow> manager \<Rightarrow> bool" where
  "timer_only m m' \<longleftrightarrow>
     same_outside m m' \<and> m_tails m' = m_tails m \<and> t_heap m' = t_heap m \<and> w_posfile (t_world m') = w_posfile (t_world m) \<and>
     w_mem (t_world m') = w_mem (t_world m) \<and> w_kafka (t_world m') = w_kafka (t_world m)"

lemma parsed_start:
  assumes "unstarted m" and "obliging m" and "\<forall>e \<in> set es. key_ok (e_key e)"
  shows "\<exists>pf m0. unstarted m0 \<and> startable m0 \<and> m_position_file m0 = Some pf \<and> remembers (compacted es) m0 \<and>
    (\<forall>k e. last_watched k es = Some e \<longrightarrow> PositionFile_getPath k pf = Some (pe_path (e_key e))) \<and>
    same_outside m m0 \<and> tick m0 = tick (next_tick m) \<and>
    (\<forall>m1. refreshWatchers m0 = Inr m1 \<longrightarrow> startable m1 \<longrightarrow>
      (\<exists>m'. Manager_start (Some (image_of es)) True True m = Inr (True, m') \<and> timer_only m1 m'))"
proof -
  let ?w = "t_world m" and ?f = "\<lparr>p_data = image_of es, p_pos = 0\<rparr>"
  have malloc: "os_malloc (w_os ?w) (w_tick ?w)" using assms(2) by (simp add: obliging_def tick_def)
  obtain pf f where parse: "PositionFile_parse True True (lib_pcre2 (mg_lib m)) ?f = (Some pf, f)"
    and rep: "pf_rep (compacted es) pf f" and keys: "\<And>k. smap_find (m_pe_map pf) k \<noteq> None \<longleftrightarrow> k \<in> fst ` set (compacted es)"
    using parse_entries [of "lib_pcre2 (mg_lib m)" es ?f] assms(2,3) by (auto simp: obliging_def)
  let ?m0 = "set_world (w_step (?w\<lparr>w_posfile := f\<rparr>)) (m\<lparr>m_position_file := Some pf, mg_pos_file := True\<rparr>)"
  have start: "\<exists>m'. Manager_start (Some (image_of es)) True True m = Inr (True, m') \<and> timer_only m1 m'"
    if run: "refreshWatchers ?m0 = Inr m1" and s: "startable m1" for m1
  proof -
    obtain tm w where timer: "TimerWatcher_init 0 (s64 (refresh_interval (mg_config m1))) (t_world m1) = (True, tm, w)"
      and w: "w_posfile w = w_posfile (t_world m1)" "w_mem w = w_mem (t_world m1)" "w_os w = w_os (t_world m1)" "w_kafka w = w_kafka (t_world m1)"
      using s by (auto simp: TimerWatcher_init_def startable_def)
    have "Manager_start (Some (image_of es)) True True m = Inr (True, set_world w (m1\<lparr>mg_refresh_trigger := Some tm\<rparr>))"
      using malloc parse run timer by (simp add: Manager_start_def open_pos_file_def Let_def)
    then show ?thesis using w by (simp add: timer_only_def same_outside_def) (simp add: set_world_def)
  qed
  have "unstarted ?m0" "startable ?m0"
    using assms(1,2) by (simp_all add: unstarted_def startable_def obliging_def) (simp_all add: set_world_def)
  moreover have "remembers (compacted es) ?m0"
    using compacted_distinct rep keys by (simp add: remembers_def set_world_def)
  moreover have "\<forall>k e. last_watched k es = Some e \<longrightarrow> PositionFile_getPath k pf = Some (pe_path (e_key e))"
    using getPath_compacted [OF keys] by simp
  moreover have "m_position_file ?m0 = Some pf" "same_outside m ?m0" "tick ?m0 = tick (next_tick m)"
    by (simp_all add: same_outside_def next_tick_def tick_def set_world_def w_step_def)
  ultimately show ?thesis using start by blast
qed

text \<open>The refresh: the watcher of a task is on the path the task resumes at, and writes into the record of that path.\<close>

lemma first_watcher:
  assumes "unstarted m0" and "startable m0" and "remembers es m0"
    and "refreshTaskConfs (m0\<lparr>mg_locked := True\<rparr>) = Inr (True, m1)" and "smap_ok (m_task_confs m1)"
    and "\<forall>k c. smap_find (m_task_confs m1) k = Some c \<longrightarrow>
      valid c \<and> conv_ok k \<and> smap_find cc_map (compression_codec (kafka_topic_conf c)) \<noteq> None"
    and "smap_find (m_task_confs m1) k = Some c" and "resumes_at m0 k c l"
  shows "\<exists>m3 p tw es'. refreshWatchers m0 = Inr (m3\<lparr>mg_locked := False\<rparr>) \<and> startable m3 \<and> same_outside m0 m3 \<and> wired_up m3 \<and>
    smap_find (m_tails m3) k = Some (Some p) \<and> t_heap m3 p = Some tw \<and> fresh_watcher k l (tw_position_entry tw) c tw \<and>
    remembers es' m3 \<and> keeps es es' \<and> points (map fst es') (tw_position_entry tw) (PositionEntryKey k l)"
proof -
  have u: "\<not> mg_locked m0" "m_tasks m0 = []" "m_tails m0 = []" "m_tails_deleted m0 = []" "t_heap m0 = (\<lambda>_. None)"
    using assms(1) by (simp_all add: unstarted_def)
  have m1: "m1 = (next_tick (m0\<lparr>mg_locked := True\<rparr>))\<lparr>m_task_confs := m_task_confs m1\<rparr>"
    using assms(4) by (auto simp: refreshTaskConfs_def Let_def split: if_splits option.splits json.splits)
  have "same_outside m0 m1 \<and> t_heap m1 = t_heap m0 \<and> m_position_file m1 = m_position_file m0 \<and>
      w_posfile (t_world m1) = w_posfile (t_world m0)"
    by (subst (1 2 3 4) m1) (simp add: same_outside_def next_tick_def set_world_def)
  then have out1: "same_outside m0 m1" and same1: "t_heap m1 = (\<lambda>_. None)" "m_position_file m1 = m_position_file m0"
    "w_posfile (t_world m1) = w_posfile (t_world m0)" using u(5) by auto
  obtain m2 m3 where m2: "refreshTasks m1 = Inr (True, m2)" and m3: "startWatchers (diff_set (getTasksKeys m2) (getTailsKeys m2)) m2 = Inr m3"
    and run: "refreshWatchers m0 = Inr (m3\<lparr>mg_locked := False\<rparr>)" "startable m3"
    and e1: "startable m1" "m_tasks m1 = []" "m_tails m1 = []" and same2: "t_heap m2 = t_heap m1"
      "m_position_file m2 = m_position_file m1" "w_posfile (t_world m2) = w_posfile (t_world m1)" and out2: "same_outside m1 m2"
    and tasks: "\<forall>k c. smap_find (m_task_confs m1) k = Some c \<longrightarrow>
       (\<exists>t. smap_find (m_tasks m2) k = Some (Some t) \<and> conf t = c \<and> queue_ok t \<and> hasPath t)"
    and watched: "\<forall>k t. smap_find (m_tasks m2) k = Some (Some t) \<longrightarrow> watched_since (mg_next m2) m3 k t"
    using first_refresh [OF u(1) assms(2) u(2-4) assms(4-6)] by (auto simp: same_outside_def)
  have ready: "tasks_ready (m_task_confs m1) m1"
    using e1 same1 by (simp add: tasks_ready_def tails_live_def tasks_ok_def startable_def)
  have wf: "\<forall>k. smap_find (m_task_confs m1) k \<noteq> None \<longrightarrow> conv_ok k" using assms(6) by auto
  have "resumes_at m1 k c l" using assms(8) out1 same1(2) by (simp add: resumes_at_def expands_to_def same_outside_def)
  from refreshTasks_front [OF m2 e1(2,3) ready wf assms(7) this]
  obtain t where t: "getTask m2 k = Some t" "Task_getPath t = l" by blast
  then have tk: "smap_find (m_tasks m2) k = Some (Some t)" "conf t = c"
    using tasks assms(7) by (fastforce simp: getTask_def)+
  then obtain p tw pe where p: "smap_find (m_tails m3) k = Some (Some p)" "t_heap m3 p = Some tw" "fresh_watcher k l pe c tw"
    using watched t(2) by (fastforce simp: watched_since_def)
  have empty: "t_heap m2 = (\<lambda>_. None)" using same1(1) same2(1) by simp
  then have "remembers es m2" "exact es m2"
    using assms(3) remembers_same [of m2 m0 es] same1 same2 by (simp_all add: exact_def)
  then obtain es' where es': "remembers es' m3" "keeps es es'" "exact es' m3" using startWatchers_remembers [OF m3] by blast
  have wires: "same_outside m2 m3 \<and> wired_up m3" using startWatchers_wires [OF m3] empty by (simp add: wired_up_def)
  have "points (map fst es') (tw_position_entry tw) (PositionEntryKey k l)"
    using es'(3) p(2,3) unfolding exact_def fresh_watcher_def by metis
  moreover have "same_outside m0 m3" using out1 out2 wires same_outside_trans by blast
  ultimately show ?thesis using run p es' wires by (auto simp: fresh_watcher_def)
qed

text \<open>The watcher of a watched entry after a start, together with what it works with.\<close>

lemma restart_makes:
  assumes "unstarted m" and "obliging m"
    and "\<forall>e \<in> set es. key_ok (e_key e)"
    and "refreshTaskConfs (next_tick m) = Inr (True, mc)"
    and "\<forall>k c. smap_find (m_task_confs mc) k = Some c \<longrightarrow>
      valid c \<and> conv_ok k \<and> smap_find cc_map (compression_codec (kafka_topic_conf c)) \<noteq> None"
    and "smap_find (m_task_confs mc) k = Some c" and "last_watched k es = Some e" and "storable_pos (e_pos e)" and "in_use e"
    and "(\<forall>n. expands_to m n k \<noteq> k) \<and> follow_last (log_conf c) \<or> (\<forall>n. expands_to m n k = k) \<and> pe_path (e_key e) = k"
  shows "\<exists>m' p tw. Manager_start (Some (image_of es)) True True m = Inr (True, m') \<and> getTailWatcher m' k = Some p \<and>
    t_heap m' p = Some tw \<and> fresh_watcher k (pe_path (e_key e)) (tw_position_entry tw) c tw \<and>
    stored_pos (tw_position_entry tw) (t_world m') = Inr (e_pos e) \<and> stored_ino (tw_position_entry tw) (t_world m') = Inr (e_ino e) \<and>
    pe_ok (tw_position_entry tw) (t_world m') \<and> same_outside m m' \<and> wired_up m'"
proof -
  let ?l = "pe_path (e_key e)"
  obtain pf m0 where m0: "unstarted m0" "startable m0" "m_position_file m0 = Some pf" "remembers (compacted es) m0"
    and last: "PositionFile_getPath k pf = Some ?l" and out: "same_outside m m0" and tick: "tick m0 = tick (next_tick m)"
    and start: "\<And>m1. refreshWatchers m0 = Inr m1 \<Longrightarrow> startable m1 \<Longrightarrow>
      \<exists>m'. Manager_start (Some (image_of es)) True True m = Inr (True, m') \<and> timer_only m1 m'"
    using parsed_start [OF assms(1-3)] assms(7) by blast
  let ?m1 = "(next_tick (m0\<lparr>mg_locked := True\<rparr>))\<lparr>m_task_confs := m_task_confs mc\<rparr>"
  have confs: "refreshTaskConfs (m0\<lparr>mg_locked := True\<rparr>) = Inr (True, ?m1)" "smap_ok (m_task_confs ?m1)"
    using refreshTaskConfs_like [OF assms(4), of "m0\<lparr>mg_locked := True\<rparr>"] assms(1) m0(1) out tick
    by (simp_all add: unstarted_def same_outside_def tick_def next_tick_def) (simp_all add: set_world_def)
  have "resumes_at m0 k c ?l"
    using assms(2,10) m0(3) last out by (auto simp: resumes_at_def expands_to_def obliging_def same_outside_def)
  from first_watcher [OF m0(1,2,4) confs _ _ this] assms(5,6)
  obtain m3 p tw es' where run: "refreshWatchers m0 = Inr (m3\<lparr>mg_locked := False\<rparr>)" "startable m3"
    and m3: "same_outside m0 m3" "wired_up m3" and p: "smap_find (m_tails m3) k = Some (Some p)" "t_heap m3 p = Some tw"
      "fresh_watcher k ?l (tw_position_entry tw) c tw"
    and es': "remembers es' m3" "keeps (compacted es) es'" "points (map fst es') (tw_position_entry tw) (PositionEntryKey k ?l)"
    by auto
  have e: "e \<in> set (compacted es)" "e_key e = PositionEntryKey k ?l"
    using last_watched_SomeD [OF assms(7)] assms(7) by (auto simp: compacted_mem e_pattern_def)
  then have "e \<in> set es'" and points: "points (map fst es') (tw_position_entry tw) (e_key e)"
    using es'(2,3) assms(9) by (auto simp: keeps_def)
  then have stored: "stored_pos (tw_position_entry tw) (t_world m3) = Inr (e_pos e)"
      "stored_ino (tw_position_entry tw) (t_world m3) = Inr (e_ino e)"
    using remembers_read [OF es'(1)] assms(8,9) by (auto simp: in_use_def)
  obtain m' where m': "Manager_start (Some (image_of es)) True True m = Inr (True, m')" and t: "timer_only (m3\<lparr>mg_locked := False\<rparr>) m'"
    using start [OF run(1)] run(2) by (auto simp: startable_def)
  have "stored_pos pe (t_world m') = stored_pos pe (t_world m3)" "stored_ino pe (t_world m') = stored_ino pe (t_world m3)"
    "pe_ok pe (t_world m') = pe_ok pe (t_world m3)" for pe
    using t by (simp_all add: timer_only_def stored_pos_def stored_ino_def pe_readPos_def pe_readInode_def pe_ok_def
        split: PositionEntryPtr.split option.split prod.split)
  moreover have "same_outside m m'" "same_outside m3 m'" using t m3(1) out by (auto simp: timer_only_def same_outside_def)
  moreover have "wired_up m'"
    using m3(2) sized_same [OF \<open>same_outside m3 m'\<close>] t by (simp add: wired_up_def has_producer_def timer_only_def)
  ultimately show ?thesis
    using m' p t stored points_entry [OF es'(1) points] by (intro exI [of _ m'] exI [of _ p] exI [of _ tw])
      (simp add: getTailWatcher_def timer_only_def)
qed

text \<open>
  C5: A restart resumes where the daemon stopped. Started on the position file that an earlier run left (the image of any list
  of entries with storable keys), the manager gives a configured task whose pattern has a watched entry in the file a
  watcher on the path of the last such entry, and the position entry of that watcher holds the stored
  position and inode, so its first notification reads on from there. This holds for a fixed path, and for
  a dated pattern when the task follows the last file; the configured tasks are switched on, with well-formed patterns and a known
  codec, and the libraries do what they are asked.
\<close>

theorem restart_resumes:
  assumes "unstarted m" and "obliging m"
    and "\<forall>e \<in> set es. key_ok (e_key e)"
    and "refreshTaskConfs (next_tick m) = Inr (True, mc)"
    and "\<forall>k c. smap_find (m_task_confs mc) k = Some c \<longrightarrow>
      valid c \<and> conv_ok k \<and> smap_find cc_map (compression_codec (kafka_topic_conf c)) \<noteq> None"
    and "smap_find (m_task_confs mc) k = Some c" and "last_watched k es = Some e" and "storable_pos (e_pos e)" and "in_use e"
    and "(\<forall>n. expands_to m n k \<noteq> k) \<and> follow_last (log_conf c) \<or> (\<forall>n. expands_to m n k = k) \<and> pe_path (e_key e) = k"
  shows "\<exists>m' p tw. Manager_start (Some (image_of es)) True True m = Inr (True, m') \<and> getTailWatcher m' k = Some p \<and>
    t_heap m' p = Some tw \<and> fresh_watcher k (pe_path (e_key e)) (tw_position_entry tw) c tw \<and>
    stored_pos (tw_position_entry tw) (t_world m') = Inr (e_pos e) \<and> stored_ino (tw_position_entry tw) (t_world m') = Inr (e_ino e)"
  using restart_makes [OF assms] by blast

section \<open>A restart\<close>

definition sample_restart :: manager where
  "sample_restart = sample_manager\<lparr>mg_lib := sample_lib\<lparr>lib_pcre2 := (\<lambda>_. Some position_match)\<rparr>\<rparr>"

lemma sample_restart_confs:
  "\<exists>c m1. refreshTaskConfs (next_tick sample_restart) = Inr (True, m1) \<and> m_task_confs m1 = [(''/a'', c)] \<and>
    valid c \<and> compression_codec (kafka_topic_conf c) = ''none''"
  by (simp add: refreshTaskConfs_def sample_restart_def sample_manager_def Manager_new_def sample_lib_def sample_doc_def add_task_conf_def
      task_item_def task_members_def set_from_def getValue_string_def getMember_def cstr_def TaskConf_isLegal_def LogConf_isLegal_def
      KafkaTopicConf_isLegal_def isPathPatternLegal_iff upd_log_def upd_topic_def TaskConf_new_def KafkaTopicConf_new_def
      next_tick_def set_world_def Let_def)

text \<open>The earlier run stopped at byte 100 of the file with inode 7.\<close>

theorem restart_resumes_witness:
  "\<exists>m' p tw. Manager_start (Some (image_of [(PositionEntryKey ''/a'' ''/a'', 100, 7)])) True True sample_restart = Inr (True, m') \<and>
    getTailWatcher m' ''/a'' = Some p \<and> t_heap m' p = Some tw \<and> tw_path tw = ''/a'' \<and>
    stored_pos (tw_position_entry tw) (t_world m') = Inr 100 \<and> stored_ino (tw_position_entry tw) (t_world m') = Inr 7"
proof -
  let ?e = "(PositionEntryKey ''/a'' ''/a'', 100, 7) :: pentry" and ?m = sample_restart
  obtain c mc where mc: "refreshTaskConfs (next_tick ?m) = Inr (True, mc)" "m_task_confs mc = [(''/a'', c)]"
    "valid c" "compression_codec (kafka_topic_conf c) = ''none''"
    using sample_restart_confs by blast
  have m: "unstarted ?m" "obliging ?m" "\<forall>n. expands_to ?m n ''/a'' = ''/a''"
    using position_match_ok
    by (simp_all add: unstarted_def obliging_def sample_restart_def sample_manager_def Manager_new_def sample_world_def sample_os_def sample_kafka_def
        sample_rd_def rd_ok_def sample_lib_def expands_to_def cstr_def)
  have e: "\<forall>e \<in> set [?e]. key_ok (e_key e)" "last_watched ''/a'' [?e] = Some ?e" by code_simp+
  have conf: "\<forall>k c. smap_find (m_task_confs mc) k = Some c \<longrightarrow>
      valid c \<and> conv_ok k \<and> smap_find cc_map (compression_codec (kafka_topic_conf c)) \<noteq> None"
    "smap_find (m_task_confs mc) ''/a'' = Some c"
    using mc by (simp_all add: smap_find_def cc_map_def)
  have use: "storable_pos (e_pos ?e)" "in_use ?e" by (simp_all add: storable_pos_def in_use_def storable_ino_def)
  have path: "pe_path (e_key ?e) = ''/a''" by simp
  show ?thesis
    using restart_resumes [OF m(1,2) e(1) mc(1) conf e(2) use] m(3) path by (fastforce simp: fresh_watcher_def)
qed

end
