(* ===== verification/Resume.thy ===== *)
theory Resume
  imports Restart
begin

text \<open>
  A restart, end to end: from the bytes that an earlier run left in the position file to the lines that the first
  notification after the restart hands to Kafka.
\<close>

section \<open>The first notification of a watcher\<close>

text \<open>A file that nobody writes, rotates or removes, and calls of the system that succeed.\<close>

definition at_rest :: "os \<Rightarrow> string \<Rightarrow> int \<Rightarrow> string \<Rightarrow> bool" where
  "at_rest os path ino d \<longleftrightarrow>
     (\<forall>n. fs_dir (os_fs os n) path = Some ino \<and> fs_data (os_fs os n) ino = d \<and> os_cap os n = None) \<and>
     NUL \<notin> set d \<and> length d < 2 ^ 31"

definition calm :: "os \<Rightarrow> bool" where
  "calm os \<longleftrightarrow> (\<forall>n. os_malloc os n \<and> os_time os n \<noteq> None)"

lemma flush_nothing: "m_buffer_len h = 0 \<Longrightarrow> flush_stuck h w = (h, w)"
  by (simp add: flush_stuck_def)

text \<open>The rotate handler of a new watcher sees the file for the first time and opens it.\<close>

lemma first_rotate:
  fixes s :: "'a tstate_scheme"
  assumes tw: "t_heap s p = Some tw" "tw_io_handler tw = None" "tw_rotate_handler tw = Some (RotateHandler_init path)"
    and rest: "at_rest (w_os (t_world s)) path ino d" "ino \<noteq> 0" "calm (w_os (t_world s))"
    and pe: "pe_ok (tw_position_entry tw) (t_world s)" "stored_ino (tw_position_entry tw) (t_world s) = Inr ino"
      "stored_pos (tw_position_entry tw) (t_world s) = Inr pos" "0 \<le> pos" "pos \<le> int (length d)"
    and lim: "tw_limits tw" "tw_receive_func tw = Some receiveLines" "tw_output tw = Some ok"
    and ready: "kafka_ready ok (w_kafka (t_world s))"
  shows "\<exists>s' tw' io. notify_rotate upd p s = Inr s' \<and> t_heap s' p = Some tw' \<and> tw_io_handler tw' = Some io \<and>
    runnable ok (tw_filter tw) (length d) io (t_world s') \<and> m_lines io = [] \<and> content io = [] \<and> m_buffer_len io = 0 \<and>
    m_file io = Some \<lparr>f_ino = ino, f_pos = pos\<rparr> \<and> cutter_of io = cutter_of_tail tw \<and>
    w_os (t_world s') = w_os (t_world s) \<and> w_kafka (t_world s') = w_kafka (t_world s) \<and>
    m_position_entry io = tw_position_entry tw"
proof -
  let ?w = "t_world s" and ?s2 = "set_world (w_step (w_step (t_world s))) s" and ?file = "\<lparr>f_ino = ino, f_pos = 0\<rparr>"
  have data: "fs_data (os_fs (w_os ?w) n) ino = d" for n using rest(1) by (simp add: at_rest_def)
  have stat: "os_stat (os_fs (w_os ?w) (w_tick ?w)) path = Some (int (length d), ino)"
    and fopen: "fopen_r (os_fs (w_os ?w) (w_tick ?w + 1)) path = Some ?file"
    using rest(1) by (simp_all add: at_rest_def os_stat_def fopen_r_def)
  obtain s1 io where opened: "open_first p tw ?file ?s2 = Inr (True, s1)" "t_heap s1 p = Some (tw\<lparr>tw_io_handler := Some io\<rparr>)"
    and io: "sound (kafka_ready ok) (\<lambda>c. c \<noteq> NUL) (length d) (io, t_world s1)" "wired receiveLines (tw_filter tw) (Some ok) io"
      "committed io (t_world s1)" "m_lines io = []" "content io = []" "m_buffer_len io = 0" "getFilePos io = pos"
      "m_file io = Some \<lparr>f_ino = ino, f_pos = getFilePos io\<rparr>" "cutter_of io = cutter_of_tail tw" "m_position_entry io = tw_position_entry tw"
    and w1: "w_os (t_world s1) = w_os ?w" "w_kafka (t_world s1) = w_kafka ?w"
    using first_open_makes [of tw ?s2 ino pos "int (length d)" ?file "length d" ok p] pe rest lim ready data
    by (auto simp: at_rest_def calm_def set_world_def)
  have rotate: "TailWatcher_onRotate upd p ?file ?s2 = Inr (True, s1)"
    using tw(1,2) opened(1) by (simp add: TailWatcher_onRotate_def deref_def set_world_def)
  obtain rh w' where upd: "updateLastRotateTime (RotateHandler_init path) (t_world s1) = (rh, w')" "w' = w_step (t_world s1)"
    by (simp add: updateLastRotateTime_def)
  let ?tw = "tw\<lparr>tw_io_handler := Some io, tw_rotate_handler := Some (rh\<lparr>rh_inode := ino, rh_fsize := int (length d)\<rparr>)\<rparr>"
  have "RotateHandler_onNotify (TailWatcher_onRotate upd p) (RotateHandler_init path) s
      = Inr (rh\<lparr>rh_inode := ino, rh_fsize := int (length d)\<rparr>, set_world w' s1)"
    using stat fopen rotate upd(1) rest(2) by (simp add: RotateHandler_onNotify_def Let_def RotateHandler_init_def)
  then have run: "notify_rotate upd p s = Inr (store p ?tw (set_world w' s1))"
    using tw(1,3) opened(2) by (simp add: notify_rotate_def deref_def set_world_def)
  have "runnable ok (tw_filter tw) (length d) io (t_world s1)" using io(1-3) by (simp add: runnable_def)
  then have "runnable ok (tw_filter tw) (length d) io w'" by (simp add: runnable_tick upd(2) w_step_def)
  then show ?thesis
    using run io(4-) w1 upd(2) by (intro exI [of _ "store p ?tw (set_world w' s1)"] exI [of _ ?tw]) (simp add: store_def set_world_def)
qed

lemma first_notification:
  fixes s :: "'a tstate_scheme"
  assumes tw: "t_heap s p = Some tw" "tw_io_handler tw = None" "tw_rotate_handler tw = Some (RotateHandler_init path)"
    and rest: "at_rest (w_os (t_world s)) path ino d" "ino \<noteq> 0" "calm (w_os (t_world s))"
    and pe: "pe_ok (tw_position_entry tw) (t_world s)" "stored_ino (tw_position_entry tw) (t_world s) = Inr ino"
      "stored_pos (tw_position_entry tw) (t_world s) = Inr pos" "0 \<le> pos" "pos \<le> int (length d)"
    and lim: "tw_limits tw" "tw_receive_func tw = Some receiveLines" "tw_output tw = Some ok"
    and perfect: "kafka_perfect ok (w_kafka (t_world s))"
  shows "\<exists>s'. TailWatcher_onNotify upd p s = Inr s' \<and>
    sent_lines (w_kafka (t_world s')) = sent_lines (w_kafka (t_world s)) @
      line_filter (tw_filter tw) (cut_lines (cutter_of_tail tw) (drop (nat pos) d)) \<and>
    stored_pos (tw_position_entry tw) (t_world s')
      = Inr (int (length d) - int (length (cut_rest (cutter_of_tail tw) (drop (nat pos) d))))"
proof -
  have "kafka_ready ok (w_kafka (t_world s))" using perfect by (simp add: kafka_perfect_def)
  from first_rotate [OF tw rest pe lim this] obtain s1 tw' io where
    rot: "notify_rotate upd p s = Inr s1" "t_heap s1 p = Some tw'" "tw_io_handler tw' = Some io"
    and io: "runnable ok (tw_filter tw) (length d) io (t_world s1)" "m_lines io = []" "content io = []" "m_buffer_len io = 0"
      "m_file io = Some \<lparr>f_ino = ino, f_pos = pos\<rparr>" "cutter_of io = cutter_of_tail tw"
      "m_position_entry io = tw_position_entry tw"
    and w1: "w_os (t_world s1) = w_os (t_world s)" "w_kafka (t_world s1) = w_kafka (t_world s)"
    by blast
  have so: "sound (kafka_perfect ok) (\<lambda>c. c \<noteq> NUL) (length d) (io, t_world s1)"
    and wi: "wired receiveLines (tw_filter tw) (Some ok) io" and co: "committed io (t_world s1)"
    using io(1) perfect w1(2) by (simp_all add: runnable_def sound_def)
  have static: "\<forall>t. fs_data (os_fs (w_os (t_world s1)) t) (f_ino \<lparr>f_ino = ino, f_pos = pos\<rparr>) = d"
    "\<forall>t. os_cap (w_os (t_world s1)) t = None"
    using rest(1) w1(1) by (simp_all add: at_rest_def)
  from delivery [OF so wi co flush_nothing [OF io(4)] io(5) static] obtain h' w' where
    run: "IOHandler_onNotify (Some io) (t_world s1) = Inr (Some h', w')"
    and sent: "sent_lines (w_kafka w') = sent_lines (w_kafka (t_world s)) @
      line_filter (tw_filter tw) (cut_lines (cutter_of_tail tw) (drop (nat pos) d))"
    and left: "content h' = cut_rest (cutter_of_tail tw) (drop (nat pos) d)"
    and pos: "map_sum id fst (pe_readPos (tw_position_entry tw) w') = Inr (pos + int (length (drop (nat pos) d)) - int (length (content h')))"
    using io w1(2) by auto
  have "TailWatcher_onNotify upd p s = Inr (store p (tw'\<lparr>tw_io_handler := Some h'\<rparr>) (set_world w' s1))"
    using rot run by (simp add: TailWatcher_onNotify_def notify_io_def deref_def)
  moreover have "pos + int (length (drop (nat pos) d)) = int (length d)" using pe(4,5) by simp
  ultimately show ?thesis using sent left pos by (simp add: stored_pos_def store_def set_world_def)
qed

section \<open>Delivery after a restart\<close>

text \<open>A broker that takes every message of a task, and a batch and buffers of a sensible size.\<close>

definition willing :: "TaskConf \<Rightarrow> rdkafka \<Rightarrow> bool" where
  "willing c rd \<longleftrightarrow>
     NUL \<notin> set (key (kafka_topic_conf c)) \<and> (\<forall>n. rd_topic_new rd n (cstr (topic (kafka_topic_conf c)))) \<and>
     (\<forall>n i. rd_err rd n i = RD_KAFKA_RESP_ERR_NO_ERROR)"

definition sizes_ok :: "config \<Rightarrow> TaskConf \<Rightarrow> bool" where
  "sizes_ok cfg c \<longleftrightarrow>
     config_ok cfg \<and> 1 \<le> read_max_bytes cfg \<and> 1 \<le> batchsize (log_conf c) \<and> batchsize (log_conf c) < 2 ^ 31"

lemma sized_limits:
  assumes "sized m tw" and "sizes_ok (mg_config m) (tw_conf tw)"
  shows "tw_limits tw"
  using assms by (auto simp: sized_def sizes_ok_def config_ok_def tw_limits_def u64_id)

lemma wired_perfect:
  assumes "has_producer m tw" and "willing (tw_conf tw) (k_rd (w_kafka (t_world m)))"
  shows "kafka_perfect \<lparr>m_kafka_topic_conf = kafka_topic_conf (tw_conf tw)\<rparr> (w_kafka (t_world m))"
  using assms by (simp add: kafka_perfect_def kafka_ready_def has_producer_def willing_def)

text \<open>
  C1: A restart goes on exactly where the daemon stopped. An earlier run left a position file in which the last watched entry of a
  configured task is \<open>e\<close>. When the manager is started on that file and the log file is still the one of the
  entry, the first notification of the watcher sends exactly the lines of the file from the stored offset
  on, in order, without those the filter drops, and the entry then holds the offset of the unfinished last line. The
  conditions are those of a start that succeeds, a file at rest, and a cluster that takes every message.
\<close>

theorem restart_delivers:
  assumes "unstarted m" and "obliging m" and "calm (w_os (t_world m))"
    and "\<forall>e \<in> set es. key_ok (e_key e)"
    and "refreshTaskConfs (next_tick m) = Inr (True, mc)"
    and "\<forall>k c. smap_find (m_task_confs mc) k = Some c \<longrightarrow>
      valid c \<and> conv_ok k \<and> smap_find cc_map (compression_codec (kafka_topic_conf c)) \<noteq> None"
    and "smap_find (m_task_confs mc) k = Some c" and "last_watched k es = Some e" and "in_use e"
    and "(\<forall>n. expands_to m n k \<noteq> k) \<and> follow_last (log_conf c) \<or> (\<forall>n. expands_to m n k = k) \<and> pe_path (e_key e) = k"
    and "at_rest (w_os (t_world m)) (pe_path (e_key e)) (e_ino e) d" and "0 \<le> e_pos e" and "e_pos e \<le> int (length d)"
    and "sizes_ok (mg_config m) c" and "willing c (k_rd (w_kafka (t_world m)))"
  shows "\<exists>m' p tw m''. Manager_start (Some (image_of es)) True True m = Inr (True, m') \<and>
    getTailWatcher m' k = Some p \<and> t_heap m' p = Some tw \<and>
    TailWatcher_onNotify updateWatcherRotate p m' = Inr m'' \<and>
    sent_lines (w_kafka (t_world m'')) = sent_lines (w_kafka (t_world m)) @
      line_filter (filter_from m c) (cut_lines (cutter_from m c) (drop (nat (e_pos e)) d)) \<and>
    stored_pos (tw_position_entry tw) (t_world m'')
      = Inr (int (length d) - int (length (cut_rest (cutter_from m c) (drop (nat (e_pos e)) d))))"
proof -
  have pos: "storable_pos (e_pos e)" using assms(11-13) by (auto simp: storable_pos_def at_rest_def)
  obtain m' p tw where start: "Manager_start (Some (image_of es)) True True m = Inr (True, m')"
    and p: "getTailWatcher m' k = Some p" "t_heap m' p = Some tw"
    and fresh: "fresh_watcher k (pe_path (e_key e)) (tw_position_entry tw) c tw"
    and entry: "pe_ok (tw_position_entry tw) (t_world m')" "stored_ino (tw_position_entry tw) (t_world m') = Inr (e_ino e)"
      "stored_pos (tw_position_entry tw) (t_world m') = Inr (e_pos e)"
    and same: "same_outside m m'" and wired: "wired_up m'"
    using restart_makes [OF assms(1,2,4-8) pos assms(9,10)] by blast
  have os: "w_os (t_world m') = w_os (t_world m)" and log: "sent_lines (w_kafka (t_world m')) = sent_lines (w_kafka (t_world m))"
    using same by (simp_all add: same_outside_def sent_lines_def)
  have tw: "tw_conf tw = c" "tw_io_handler tw = None" "tw_rotate_handler tw = Some (RotateHandler_init (pe_path (e_key e)))"
    "tw_receive_func tw = Some receiveLines" "tw_output tw = Some \<lparr>m_kafka_topic_conf = kafka_topic_conf c\<rparr>"
    using fresh by (simp_all add: fresh_watcher_def)
  have "sized m tw" and prod: "has_producer m' tw"
    using wired p(2) sized_same [OF same] by (auto simp: wired_up_def)
  then have lim: "tw_limits tw" and conf: "cutter_of_tail tw = cutter_from m c" "tw_filter tw = filter_from m c"
    using sized_limits assms(14) tw(1) by (simp_all add: sized_def)
  have "kafka_perfect \<lparr>m_kafka_topic_conf = kafka_topic_conf c\<rparr> (w_kafka (t_world m'))"
    using wired_perfect [OF prod] assms(15) same tw(1) by (simp add: same_outside_def)
  from first_notification [OF p(2) tw(2,3) _ _ _ entry assms(12,13) lim tw(4,5) this, of updateWatcherRotate]
  show ?thesis using assms(3,9,11) start p os log conf by (simp add: in_use_def)
qed

definition sample_again :: manager where
  "sample_again = sample_restart\<lparr>mg_config := sample_config\<lparr>logkafka_id := ''h''\<rparr>\<rparr>"

lemma sample_again_confs:
  "\<exists>c m1. refreshTaskConfs (next_tick sample_again) = Inr (True, m1) \<and> m_task_confs m1 = [(''/a'', c)] \<and>
    valid c \<and> log_conf c = LogConf_new\<lparr>log_path := ''/a''\<rparr> \<and> filter_conf c = FilterConf_new \<and>
    kafka_topic_conf c = KafkaTopicConf_new\<lparr>topic := ''t''\<rparr>"
  by (simp add: refreshTaskConfs_def sample_again_def sample_restart_def sample_manager_def Manager_new_def sample_lib_def sample_doc_def
      add_task_conf_def task_item_def task_members_def set_from_def getValue_string_def getMember_def cstr_def TaskConf_isLegal_def
      LogConf_isLegal_def KafkaTopicConf_isLegal_def isPathPatternLegal_iff upd_log_def upd_topic_def TaskConf_new_def LogConf_new_def
      FilterConf_new_def KafkaTopicConf_new_def next_tick_def set_world_def Let_def)

lemma sample_again_config: "config_ok (mg_config sample_again)" "1 \<le> read_max_bytes (mg_config sample_again)"
  "8 \<le> line_max_bytes (mg_config sample_again)"
  by code_simp+

text \<open>The file holds the lines ab and cd and an unfinished one; the earlier run had sent the first.\<close>

theorem restart_delivers_witness:
  "\<exists>m' p tw m''. Manager_start (Some (image_of [(PositionEntryKey ''/a'' ''/a'', 3, 5)])) True True sample_again = Inr (True, m') \<and>
    getTailWatcher m' ''/a'' = Some p \<and> t_heap m' p = Some tw \<and>
    TailWatcher_onNotify updateWatcherRotate p m' = Inr m'' \<and>
    sent_lines (w_kafka (t_world m'')) = [''cd''] \<and> stored_pos (tw_position_entry tw) (t_world m'') = Inr 6"
proof -
  let ?e = "(PositionEntryKey ''/a'' ''/a'', 3, 5) :: pentry" and ?m = sample_again
  obtain c mc where mc: "refreshTaskConfs (next_tick ?m) = Inr (True, mc)" "m_task_confs mc = [(''/a'', c)]" "valid c"
    and c: "log_conf c = LogConf_new\<lparr>log_path := ''/a''\<rparr>" "filter_conf c = FilterConf_new"
      "kafka_topic_conf c = KafkaTopicConf_new\<lparr>topic := ''t''\<rparr>"
    using sample_again_confs by blast
  have w: "t_world ?m = sample_world sample_text 0" "mg_lib ?m = sample_lib\<lparr>lib_pcre2 := (\<lambda>_. Some position_match)\<rparr>"
    by (simp_all add: sample_again_def sample_restart_def sample_manager_def Manager_new_def)
  have m: "unstarted ?m" "obliging ?m" "calm (w_os (t_world ?m))" "\<forall>n. expands_to ?m n ''/a'' = ''/a''"
    using position_match_ok
    by (simp_all add: w obliging_def sample_world_def sample_kafka_def sample_rd_def rd_ok_def sample_lib_def expands_to_def cstr_def
        calm_def sample_os_def)
      (simp add: unstarted_def sample_again_def sample_restart_def sample_manager_def Manager_new_def)
  have e: "\<forall>e \<in> set [?e]. key_ok (e_key e)" "last_watched ''/a'' [?e] = Some ?e" by code_simp+
  have conf: "\<forall>k c. smap_find (m_task_confs mc) k = Some c \<longrightarrow>
      valid c \<and> conv_ok k \<and> smap_find cc_map (compression_codec (kafka_topic_conf c)) \<noteq> None"
    "smap_find (m_task_confs mc) ''/a'' = Some c"
    using mc c by (simp_all add: smap_find_def cc_map_def KafkaTopicConf_new_def)
  have use: "in_use ?e" by (simp add: in_use_def storable_ino_def)
  have paths: "(\<forall>n. expands_to ?m n ''/a'' \<noteq> ''/a'') \<and> follow_last (log_conf c) \<or>
      (\<forall>n. expands_to ?m n ''/a'' = ''/a'') \<and> pe_path (e_key ?e) = ''/a''"
    using m(4) by simp
  have rest: "at_rest (w_os (t_world ?m)) (pe_path (e_key ?e)) (e_ino ?e) sample_text" "0 \<le> e_pos ?e" "e_pos ?e \<le> int (length sample_text)"
    by (simp_all add: w at_rest_def sample_world_def sample_os_def sample_text_def)
  have sizes: "sizes_ok (mg_config ?m) c"
    using sample_again_config c(1) by (simp add: sizes_ok_def LogConf_new_def)
  have will: "willing c (k_rd (w_kafka (t_world ?m)))"
    by (simp add: w willing_def c(3) sample_world_def sample_kafka_def sample_rd_def KafkaTopicConf_new_def RD_KAFKA_RESP_ERR_NO_ERROR_def)
  have "filter_from ?m c = None" by (simp add: filter_from_def FilterRegex_init_def FilterRegex_new_def c(2) FilterConf_new_def)
  moreover have "cut (cutter_from ?m c) [] (drop (nat 3) sample_text) = ([''cd''], ''ef'')"
    using sample_again_config(3) by (simp add: cutter_from_def c(1) LogConf_new_def sample_text_def)
  moreover have "sent_lines (w_kafka (t_world ?m)) = []" by (simp add: w sample_defs sent_lines_def)
  ultimately show ?thesis
    using restart_delivers [OF m(1-3) e(1) mc(1) conf e(2) use paths rest sizes will]
    by (simp add: line_filter_def sample_text_def)
qed

end
